(* ===== verification/Prelude.thy ===== *)
theory Prelude
  imports Main "HOL-Library.Word" "HOL-Library.Char_ord" "HOL-Library.List_Lexorder"
    "HOL-Library.Product_Lexorder"
begin

text \<open>
  Shared vocabulary of the development: the machine integers of the agent and the Rust
  integer operations it uses on them (\<open>saturating_add\<close>, \<open>saturating_sub\<close>,
  \<open>saturating_mul\<close>, \<open>checked_div\<close>, \<open>try_from\<close>), \<open>BTreeMap\<close> insertion on key-sorted
  association lists, and the two functions by which every polling loop is read: the state
  after a list of ticks and the outputs of each tick.
\<close>

section \<open>Machine integers\<close>

type_synonym u8 = "8 word"
type_synonym u32 = "32 word"
type_synonym u64 = "64 word"
type_synonym i32 = "32 word"
type_synonym i64 = "64 word"

named_theorems unat_simps "reading word operations of the code as natural numbers"

definition sat_add :: "'a::len word \<Rightarrow> 'a word \<Rightarrow> 'a word" where
  "sat_add a b = (if unat a + unat b < 2 ^ LENGTH('a) then a + b else - 1)"

definition sat_sub :: "'a::len word \<Rightarrow> 'a word \<Rightarrow> 'a word" where
  "sat_sub a b = (if b \<le> a then a - b else 0)"

definition sat_mul :: "'a::len word \<Rightarrow> 'a word \<Rightarrow> 'a word" where
  "sat_mul a b = (if unat a * unat b < 2 ^ LENGTH('a) then a * b else - 1)"

definition checked_div :: "'a::len word \<Rightarrow> 'a word \<Rightarrow> 'a word option" where
  "checked_div a b = (if b = 0 then None else Some (a div b))"

lemma unat_minus_one_word: "unat (- 1 :: 'a::len word) = 2 ^ LENGTH('a) - 1"
  by (simp add: unsigned_minus_1_eq_mask mask_eq_exp_minus_1)

lemma unat_less_pow: "unat w < 2 ^ LENGTH('a)" for w :: "'a::len word"
  by (rule unsigned_less)

lemma unat_le_max: "unat w \<le> 2 ^ LENGTH('a) - 1" for w :: "'a::len word"
  using unat_less_pow [of w] by linarith

lemma unat_u8_less [simp]: "unat w < 256" for w :: u8
  using unat_less_pow [of w] by simp

lemma unat_u32_less [simp]: "unat w < 4294967296" for w :: u32
  using unat_less_pow [of w] by simp

lemma unat_u64_less [simp]: "unat w < 18446744073709551616" for w :: u64
  using unat_less_pow [of w] by simp

lemma unat_sat_add [unat_simps]:
  "unat (sat_add a b) = min (2 ^ LENGTH('a) - 1) (unat a + unat b)"
  for a b :: "'a::len word"
  by (auto simp: sat_add_def unat_minus_one_word unat_word_ariths min_def not_less)

lemma unat_sat_sub [unat_simps]: "unat (sat_sub a b) = unat a - unat b"
  by (auto simp: sat_sub_def unat_sub word_le_nat_alt)

lemma unat_sat_mul [unat_simps]:
  "unat (sat_mul a b) = min (2 ^ LENGTH('a) - 1) (unat a * unat b)"
  for a b :: "'a::len word"
  by (auto simp: sat_mul_def unat_minus_one_word unat_word_ariths min_def not_less)

lemma unat_of_nat_min [unat_simps]:
  "unat (of_nat (min n (2 ^ LENGTH('a) - 1)) :: 'a::len word) = min n (2 ^ LENGTH('a) - 1)"
  by (simp add: unsigned_of_nat take_bit_nat_eq_self min_less_iff_disj)

lemma sat_sub_self [simp]: "sat_sub a a = 0"
  by (simp add: sat_sub_def)

lemma sat_sub_zero [simp]: "sat_sub a 0 = a"
  by (simp add: sat_sub_def)

lemma sat_sub_le: "sat_sub a b \<le> a"
  by (simp add: word_le_nat_alt unat_simps)

text \<open>Conversions: \<open>u64::try_from(x).unwrap_or(0)\<close> on an \<open>i64\<close>, \<open>u32::try_from(x).ok()\<close> on
  an \<open>i32\<close>, \<open>i64::try_from(x).unwrap_or(i64::MAX)\<close> on a \<open>u64\<close>.\<close>

definition u64_of_i64_or_0 :: "i64 \<Rightarrow> u64" where
  "u64_of_i64_or_0 x = (if sint x < 0 then 0 else x)"

definition u32_try_of_i32 :: "i32 \<Rightarrow> u32 option" where
  "u32_try_of_i32 x = (if sint x < 0 then None else Some x)"

definition i64_of_u64_or_max :: "u64 \<Rightarrow> i64" where
  "i64_of_u64_or_max x = (if unat x < 2 ^ 63 then x else 2 ^ 63 - 1)"

lemma sint_nonneg_uint: "0 \<le> sint x \<Longrightarrow> sint x = uint x" for x :: "'a::len word"
proof -
  assume nonneg: "0 \<le> sint x"
  have "uint x = sint x mod 2 ^ LENGTH('a)"
    by (simp add: uint_sint take_bit_eq_mod)
  moreover have "sint x < 2 ^ LENGTH('a)"
    by (rule order.strict_trans2 [OF sint_less power_increasing]) simp_all
  ultimately show ?thesis using nonneg by simp
qed

lemma uint_u64_of_i64_or_0: "uint (u64_of_i64_or_0 x) = max 0 (sint x)"
  by (auto simp: u64_of_i64_or_0_def max_def not_less dest: sint_nonneg_uint)

section \<open>Key-sorted association lists: \<open>BTreeMap\<close>\<close>

fun btree_insert :: "'k::linorder \<Rightarrow> 'v \<Rightarrow> ('k \<times> 'v) list \<Rightarrow> ('k \<times> 'v) list" where
  "btree_insert k v [] = [(k, v)]"
| "btree_insert k v ((k', v') # m) =
     (if k < k' then (k, v) # (k', v') # m
      else if k = k' then (k, v) # m
      else (k', v') # btree_insert k v m)"

definition btree_wf :: "('k::linorder \<times> 'v) list \<Rightarrow> bool" where
  "btree_wf m \<longleftrightarrow> sorted_wrt (<) (map fst m)"

lemma set_keys_btree_insert: "fst ` set (btree_insert k v m) = insert k (fst ` set m)"
  by (induction k v m rule: btree_insert.induct) auto

lemma btree_wf_Nil [simp]: "btree_wf []"
  by (simp add: btree_wf_def)

lemma btree_wf_insert: "btree_wf m \<Longrightarrow> btree_wf (btree_insert k v m)"
proof (induction k v m rule: btree_insert.induct)
  case (2 k v k' v' m)
  then show ?case
    using set_keys_btree_insert [of k v m] by (auto simp: btree_wf_def simp flip: image_set)
qed (simp add: btree_wf_def)

lemma map_of_btree_insert: "btree_wf m \<Longrightarrow> map_of (btree_insert k v m) = (map_of m)(k \<mapsto> v)"
proof (induction k v m rule: btree_insert.induct)
  case (2 k v k' v' m)
  then show ?case by (auto simp: btree_wf_def)
qed simp

lemma btree_wf_distinct: "btree_wf m \<Longrightarrow> distinct (map fst m)"
  by (simp add: btree_wf_def strict_sorted_iff)

section \<open>Lists of options, runs\<close>

fun somes :: "'a option list \<Rightarrow> 'a list" where
  "somes [] = []"
| "somes (None # xs) = somes xs"
| "somes (Some x # xs) = x # somes xs"

lemma somes_append [simp]: "somes (xs @ ys) = somes xs @ somes ys"
  by (induction xs rule: somes.induct) simp_all

lemma somes_single [simp]: "somes [x] = (case x of None \<Rightarrow> [] | Some a \<Rightarrow> [a])"
  by (cases x) simp_all

lemma somes_replicate_None [simp]: "somes (replicate n None) = []"
  by (induction n) simp_all

lemma in_somes: "x \<in> set (somes xs) \<longleftrightarrow> Some x \<in> set xs"
  by (induction xs rule: somes.induct) auto

lemma somes_map_Some [simp]: "somes (map Some xs) = xs"
  by (induction xs) simp_all

text \<open>The length of the run of equal elements that ends a list.\<close>

definition same_run :: "'a list \<Rightarrow> nat" where
  "same_run xs = length (takeWhile (\<lambda>x. x = last xs) (rev xs))"

lemma same_run_Nil [simp]: "same_run [] = 0"
  by (simp add: same_run_def)

lemma same_run_single [simp]: "same_run [x] = 1"
  by (simp add: same_run_def)

lemma same_run_snoc:
  "same_run (xs @ [x]) = (if xs \<noteq> [] \<and> last xs = x then Suc (same_run xs) else 1)"
proof (cases xs rule: rev_cases)
  case (snoc ys y)
  then show ?thesis by (auto simp: same_run_def)
qed (simp add: same_run_def)

lemma same_run_pos: "xs \<noteq> [] \<Longrightarrow> 0 < same_run xs"
  by (cases xs rule: rev_cases) (auto simp: same_run_snoc)

section \<open>Reading a polling loop\<close>

text \<open>
  A loop body is a function from the loop's state and one tick's input to the new state and
  the tick's outputs. \<open>after\<close> is the state after a list of ticks, \<open>tick_outs\<close> the outputs of
  each tick, \<open>count_ticks\<close> how many ticks satisfy a condition on the state they start in and
  their input.
\<close>

fun after :: "('s \<Rightarrow> 'i \<Rightarrow> 's \<times> 'o) \<Rightarrow> 's \<Rightarrow> 'i list \<Rightarrow> 's" where
  "after f s [] = s"
| "after f s (x # xs) = after f (fst (f s x)) xs"

fun tick_outs :: "('s \<Rightarrow> 'i \<Rightarrow> 's \<times> 'o) \<Rightarrow> 's \<Rightarrow> 'i list \<Rightarrow> 'o list" where
  "tick_outs f s [] = []"
| "tick_outs f s (x # xs) = snd (f s x) # tick_outs f (fst (f s x)) xs"

fun count_ticks :: "('s \<Rightarrow> 'i \<Rightarrow> 's \<times> 'o) \<Rightarrow> ('s \<Rightarrow> 'i \<Rightarrow> bool) \<Rightarrow> 's \<Rightarrow> 'i list \<Rightarrow> nat" where
  "count_ticks f P s [] = 0"
| "count_ticks f P s (x # xs) =
     (if P s x then 1 else 0) + count_ticks f P (fst (f s x)) xs"

lemma after_append [simp]: "after f s (xs @ ys) = after f (after f s xs) ys"
  by (induction xs arbitrary: s) auto

lemma tick_outs_append [simp]:
  "tick_outs f s (xs @ ys) = tick_outs f s xs @ tick_outs f (after f s xs) ys"
  by (induction xs arbitrary: s) auto

text \<open>
  Every output of a loop is the output of one of its steps: what no step emits, no run emits.
\<close>

lemma tick_out_of_step:
  "y \<in> set (tick_outs f s xs) \<Longrightarrow> \<exists>s' x. x \<in> set xs \<and> y = snd (f s' x)"
  by (induction xs arbitrary: s) (auto, blast)

lemma length_tick_outs [simp]: "length (tick_outs f s xs) = length xs"
  by (induction xs arbitrary: s) auto

lemma nth_tick_outs:
  "i < length xs \<Longrightarrow> tick_outs f s xs ! i = snd (f (after f s (take i xs)) (xs ! i))"
proof (induction xs arbitrary: s i)
  case (Cons x xs)
  then show ?case by (cases i) auto
qed simp

lemma after_invariant:
  assumes "I s" and "\<And>s x. I s \<Longrightarrow> I (fst (f s x))"
  shows "I (after f s xs)"
  using assms(1) by (induction xs arbitrary: s) (auto intro: assms(2))

end
