(* ===== verification/Edge_Alarm.thy ===== *)
theory Edge_Alarm
  imports Prelude
begin

text \<open>
  The contract shared by every alarm of the agent: an alarm is edge-triggered. It fires only
  when it is armed or the very tick re-arms it, firing disarms it, and only a re-arming tick
  arms it again. The client
  lemmas proved here, once, are what an operator relies on: an episode produces one finding,
  and the number of findings of a run is bounded by one plus the number of re-arming ticks.
  The breach counter, the dominant streak, the temp-spill latch and the polling loops built
  on them are interpretations. Two further contracts follow: a detector described by its history,
  and one that counts up to a report.
\<close>

locale edge_alarm =
  fixes step :: "'s \<Rightarrow> 'i \<Rightarrow> 's \<times> 'o"
    and fires :: "'s \<Rightarrow> 'i \<Rightarrow> bool"
    and armed :: "'s \<Rightarrow> bool"
    and rearms :: "'s \<Rightarrow> 'i \<Rightarrow> bool"
  assumes fires_armed: "fires s x \<Longrightarrow> armed s \<or> rearms s x"
    and fires_disarms: "fires s x \<Longrightarrow> \<not> armed (fst (step s x))"
    and stays_disarmed: "\<not> armed s \<Longrightarrow> \<not> rearms s x \<Longrightarrow> \<not> armed (fst (step s x))"
begin

lemma disarmed_without_rearm:
  "\<not> armed s \<Longrightarrow> count_ticks step rearms s xs = 0 \<Longrightarrow> \<not> armed (after step s xs)"
  by (induction xs arbitrary: s) (auto split: if_splits dest: stays_disarmed)

lemma count_ticks_snoc:
  "count_ticks step P s (xs @ [x]) =
     count_ticks step P s xs + (if P (after step s xs) x then 1 else 0)"
  by (induction xs arbitrary: s) auto

lemma rearm_between_fires:
  assumes "fires s x"
    and "fires (after step (fst (step s x)) ys) y"
  shows "0 < count_ticks step rearms (fst (step s x)) (ys @ [y])"
proof (rule ccontr)
  assume no: "\<not> 0 < count_ticks step rearms (fst (step s x)) (ys @ [y])"
  with fires_disarms [OF assms(1)] have "\<not> armed (after step (fst (step s x)) ys)"
    by (simp add: disarmed_without_rearm count_ticks_snoc)
  with fires_armed [OF assms(2)] no show False by (simp add: count_ticks_snoc)
qed

lemma fires_bounded:
  "count_ticks step fires s xs \<le> (if armed s then 1 else 0) + count_ticks step rearms s xs"
proof (induction xs arbitrary: s)
  case (Cons x xs)
  show ?case
    using Cons [of "fst (step s x)"] fires_armed [of s x] fires_disarms [of s x]
      stays_disarmed [of s x]
    by (auto split: if_splits)
qed simp

end

text \<open>
  A detector whose states are exactly described by the history of inputs it has seen:
  \<open>abs\<close> gives the state after a history, so that every answer of the detector is a function of
  the history alone. This is the refinement contract: the incremental code against a
  reference that looks at the whole past.
\<close>

locale history_detector =
  fixes step :: "'s \<Rightarrow> 'i \<Rightarrow> 's \<times> 'o"
    and init :: "'s"
    and abs :: "'i list \<Rightarrow> 's"
    and answer :: "'i list \<Rightarrow> 'o"
  assumes abs_init: "abs [] = init"
    and abs_step: "step (abs xs) x = (abs (xs @ [x]), answer (xs @ [x]))"
begin

lemma after_history: "after step (abs xs) ys = abs (xs @ ys)"
proof (induction ys arbitrary: xs)
  case (Cons y ys)
  show ?case using Cons [of "xs @ [y]"] by (simp add: abs_step)
qed simp

lemma after_init: "after step init xs = abs xs"
  using after_history [of "[]" xs] by (simp add: abs_init)

lemma answer_after: "snd (step (after step init xs) x) = answer (xs @ [x])"
  by (simp add: after_init abs_step)

lemma outs_history: "tick_outs step init xs = map (\<lambda>i. answer (take (Suc i) xs)) [0..<length xs]"
proof (rule nth_equalityI)
  fix i assume "i < length (tick_outs step init xs)"
  then show "tick_outs step init xs ! i = map (\<lambda>i. answer (take (Suc i) xs)) [0..<length xs] ! i"
    by (simp add: nth_tick_outs answer_after take_Suc_conv_app_nth)
qed simp

end

text \<open>
  A detector that counts: \<open>level\<close> is how far a history has come towards the \<open>due\<close> number of
  observations, and the input that reaches it makes the detector report. The client lemma is
  liveness: whatever happened before, a history at or above the due level has been reported.
\<close>

locale sustained_alarm = history_detector step init abs answer
  for step :: "'s \<Rightarrow> 'i \<Rightarrow> 's \<times> 'o" and init :: "'s" and abs :: "'i list \<Rightarrow> 's"
    and answer :: "'i list \<Rightarrow> 'o" +
  fixes level :: "'i list \<Rightarrow> nat"
    and due :: nat
    and reports :: "'o \<Rightarrow> bool"
  assumes level_below: "level [] < due"
    and reaches_due: "level xs < due \<Longrightarrow> due \<le> level (xs @ [x]) \<Longrightarrow> reports (answer (xs @ [x]))"
begin

lemma sustained_reported: "due \<le> level xs \<Longrightarrow> \<exists>out\<in>set (tick_outs step init xs). reports out"
proof (induction xs rule: rev_induct)
  case (snoc x xs)
  then show ?case
    by (cases "due \<le> level xs") (auto simp: answer_after reaches_due not_le)
qed (use level_below in simp)

end

end
