(* ===== verification/Rust_Text.thy ===== *)
theory Rust_Text
  imports Prelude "HOL-Library.Sublist"
begin

text \<open>
  The text operations of Rust's standard library that the agent uses, on strings as their
  UTF-8 bytes (a HOL \<^typ>\<open>char\<close> is one byte): decimal display and \<open>parse\<close>, \<open>trim\<close>,
  \<open>split_once\<close>, \<open>split_whitespace\<close>, \<open>lines\<close>, \<open>contains\<close>, \<open>trim_matches('\\0')\<close>,
  \<open>str::from_utf8\<close> and \<open>String::from_utf8_lossy\<close>; and the facts about them that the
  components share (a number printed is parsed back, valid UTF-8 is left as it is).
\<close>

section \<open>Bytes\<close>

definition code :: "char \<Rightarrow> nat" where
  "code c = of_char c"

definition char_of_u8 :: "u8 \<Rightarrow> char" where
  "char_of_u8 b = char_of (unat b)"

definition string_of_bytes :: "u8 list \<Rightarrow> string" where
  "string_of_bytes bs = map char_of_u8 bs"

lemma code_less [simp]: "code c < 256"
  by (simp add: code_def)

lemma code_inject [simp]: "code c = code d \<longleftrightarrow> c = d"
  by (simp add: code_def)

lemma code_char_of_u8 [simp]: "code (char_of_u8 b) = unat b"
  by (simp add: code_def char_of_u8_def)

lemma char_of_u8_inject [simp]: "char_of_u8 a = char_of_u8 b \<longleftrightarrow> a = b"
  by (metis code_char_of_u8 word_unat_eq_iff)

section \<open>Numbers as text\<close>

definition digit_char :: "nat \<Rightarrow> char" where
  "digit_char d = char_of (48 + d)"

fun dec :: "nat \<Rightarrow> string" where
  "dec n = (if n < 10 then [digit_char n] else dec (n div 10) @ [digit_char (n mod 10)])"

declare dec.simps [simp del]

lemma digit_chars:
  "digit_char 0 = CHR ''0''" "digit_char 1 = CHR ''1''" "digit_char (Suc 0) = CHR ''1''"
  "digit_char 2 = CHR ''2''" "digit_char 3 = CHR ''3''" "digit_char 4 = CHR ''4''"
  "digit_char 5 = CHR ''5''" "digit_char 6 = CHR ''6''" "digit_char 7 = CHR ''7''"
  "digit_char 8 = CHR ''8''" "digit_char 9 = CHR ''9''"
  by code_simp+

text \<open>The text of a literal number.\<close>

lemmas dec_literal = dec.simps digit_chars

definition dec_int :: "int \<Rightarrow> string" where
  "dec_int i = (if i < 0 then CHR ''-'' # dec (nat (- i)) else dec (nat i))"

definition is_digit :: "char \<Rightarrow> bool" where
  "is_digit c \<longleftrightarrow> 48 \<le> code c \<and> code c \<le> 57"

text \<open>The accumulating loop of \<open>from_str_radix\<close>: an invalid digit or an overflow is an error.\<close>

fun digits_val :: "nat \<Rightarrow> nat \<Rightarrow> string \<Rightarrow> nat option" where
  "digits_val bound acc [] = Some acc"
| "digits_val bound acc (c # cs) =
     (if is_digit c \<and> 10 * acc + (code c - 48) < bound
      then digits_val bound (10 * acc + (code c - 48)) cs else None)"

text \<open>\<open>s.parse::<uN>()\<close> with \<open>bound = 2 ^ N\<close>: one leading \<open>+\<close> is accepted, \<open>-\<close> is not.\<close>

definition parse_uint :: "nat \<Rightarrow> string \<Rightarrow> nat option" where
  "parse_uint bound s =
     (case s of
        [] \<Rightarrow> None
      | c # r \<Rightarrow>
          if c = CHR ''+'' \<or> c = CHR ''-''
          then (if r = [] then None
                else if c = CHR ''+'' then digits_val bound 0 r else None)
          else digits_val bound 0 s)"

lemma code_digit_char: "d < 10 \<Longrightarrow> code (digit_char d) = 48 + d"
  by (simp add: code_def digit_char_def of_char_of)

lemma is_digit_digit_char: "d < 10 \<Longrightarrow> is_digit (digit_char d)"
  by (simp add: is_digit_def code_digit_char)

lemma dec_not_Nil [simp]: "dec n \<noteq> []"
  by (subst dec.simps) simp

lemma dec_digits: "c \<in> set (dec n) \<Longrightarrow> is_digit c"
proof (induction n rule: dec.induct)
  case (1 n)
  then show ?case
    by (auto simp: dec.simps [of n] is_digit_digit_char split: if_splits)
qed

lemma digits_val_append:
  "digits_val b a (xs @ ys) = Option.bind (digits_val b a xs) (\<lambda>v. digits_val b v ys)"
  by (induction xs arbitrary: a) auto

lemma digits_val_dec: "n < bound \<Longrightarrow> digits_val bound 0 (dec n) = Some n"
proof (induction n rule: dec.induct)
  case (1 n)
  show ?case
  proof (cases "n < 10")
    case True
    then show ?thesis
      using "1.prems" by (simp add: dec.simps [of n] is_digit_digit_char code_digit_char)
  next
    case False
    then have "digits_val bound 0 (dec (n div 10)) = Some (n div 10)"
      using 1 by simp
    with False show ?thesis
      using "1.prems"
      by (simp add: dec.simps [of n] digits_val_append is_digit_digit_char code_digit_char)
  qed
qed

lemma digit_not_sign: "is_digit c \<Longrightarrow> c \<noteq> CHR ''+'' \<and> c \<noteq> CHR ''-''"
  by (auto simp: is_digit_def code_def)

lemma parse_uint_dec: "n < bound \<Longrightarrow> parse_uint bound (dec n) = Some n"
proof -
  assume bound: "n < bound"
  obtain c r where cr: "dec n = c # r"
    using dec_not_Nil [of n] by (cases "dec n") auto
  then have "is_digit c" using dec_digits [of c n] by simp
  then have "parse_uint bound (dec n) = digits_val bound 0 (dec n)"
    using digit_not_sign [of c] by (simp add: parse_uint_def cr)
  with bound show ?thesis by (simp add: digits_val_dec)
qed

lemma digits_val_bound: "digits_val b a s = Some v \<Longrightarrow> a < b \<Longrightarrow> v < b"
  by (induction s arbitrary: a) (auto split: if_splits)

lemma parse_uint_bound: "parse_uint b s = Some v \<Longrightarrow> 0 < b \<Longrightarrow> v < b"
  by (auto simp: parse_uint_def dest: digits_val_bound split: list.splits if_splits)

lemma dec_inject [simp]: "dec m = dec n \<longleftrightarrow> m = n"
  by (metis digits_val_dec lessI less_trans linorder_neqE_nat option.inject)

section \<open>Searching and splitting\<close>

fun contains :: "string \<Rightarrow> string \<Rightarrow> bool" where
  "contains pat [] = (pat = [])"
| "contains pat (c # s) = (prefix pat (c # s) \<or> contains pat s)"

lemma contains_sublist: "contains pat s \<longleftrightarrow> sublist pat s"
  by (induction s) (auto simp: sublist_Cons_right)

fun split_once :: "char \<Rightarrow> string \<Rightarrow> (string \<times> string) option" where
  "split_once c [] = None"
| "split_once c (d # s) =
     (if d = c then Some ([], s)
      else map_option (\<lambda>(l, r). (d # l, r)) (split_once c s))"

lemma split_once_found: "c \<notin> set l \<Longrightarrow> split_once c (l @ c # r) = Some (l, r)"
  by (induction l) auto

lemma split_once_None: "split_once c s = None \<longleftrightarrow> c \<notin> set s"
  by (induction s) auto

lemma split_once_Some: "split_once c s = Some (l, r) \<Longrightarrow> s = l @ c # r \<and> c \<notin> set l"
  by (induction s arbitrary: l) (auto split: if_splits)

text \<open>\<open>str::lines\<close>: lines end at \<open>\\n\<close>, one \<open>\\r\<close> before it is dropped, a final line without
  \<open>\\n\<close> is kept as it is unless it is empty.\<close>

definition strip_cr :: "string \<Rightarrow> string" where
  "strip_cr l = (if l \<noteq> [] \<and> last l = CHR 0x0D then butlast l else l)"

fun lines_from :: "string \<Rightarrow> string \<Rightarrow> string list" where
  "lines_from cur [] = (if cur = [] then [] else [rev cur])"
| "lines_from cur (c # s) =
     (if c = CHR 0x0A then strip_cr (rev cur) # lines_from [] s else lines_from (c # cur) s)"

definition lines :: "string \<Rightarrow> string list" where
  "lines s = lines_from [] s"

lemma lines_from_line:
  "CHR 0x0A \<notin> set l \<Longrightarrow> lines_from cur (l @ CHR 0x0A # s) = strip_cr (rev cur @ l) # lines_from [] s"
  by (induction l arbitrary: cur) auto

lemma lines_line: "CHR 0x0A \<notin> set l \<Longrightarrow> lines (l @ CHR 0x0A # s) = strip_cr l # lines s"
  by (simp add: lines_def lines_from_line)

lemma lines_Nil [simp]: "lines [] = []"
  by (simp add: lines_def)

section \<open>White space\<close>

text \<open>
  \<open>ws_head\<close> is the length in bytes of the \<open>White_Space\<close> character a string starts with
  (U+0009 to U+000D, U+0020, U+0085, U+00A0, U+1680, U+2000 to U+200A, U+2028, U+2029,
  U+202F, U+205F, U+3000), 0 if it starts with none; \<open>ws_last\<close> is the same for the character
  a string ends with, on the reversed bytes.
\<close>

definition ws_bytes :: "nat list \<Rightarrow> nat" where
  "ws_bytes b =
     (case b of
        [] \<Rightarrow> 0
      | a # r \<Rightarrow>
          if 9 \<le> a \<and> a \<le> 13 \<or> a = 32 then 1
          else (case r of
             [] \<Rightarrow> 0
           | x # r2 \<Rightarrow>
               if a = 0xC2 \<and> (x = 0x85 \<or> x = 0xA0) then 2
               else (case r2 of
                  [] \<Rightarrow> 0
                | y # _ \<Rightarrow>
                    if a = 0xE1 \<and> x = 0x9A \<and> y = 0x80
                       \<or> a = 0xE2 \<and> x = 0x80 \<and> (0x80 \<le> y \<and> y \<le> 0x8A \<or> y = 0xA8 \<or> y = 0xA9 \<or> y = 0xAF)
                       \<or> a = 0xE2 \<and> x = 0x81 \<and> y = 0x9F
                       \<or> a = 0xE3 \<and> x = 0x80 \<and> y = 0x80
                    then 3 else 0)))"

definition ws_head :: "string \<Rightarrow> nat" where
  "ws_head s = ws_bytes (map code (take 3 s))"

definition ws_last :: "string \<Rightarrow> nat" where
  "ws_last rs =
     (if ws_bytes (map code (rev (take 1 rs))) = 1 then 1
      else if ws_bytes (map code (rev (take 2 rs))) = 2 then 2
      else if ws_bytes (map code (rev (take 3 rs))) = 3 then 3 else 0)"

function trim_start :: "string \<Rightarrow> string" where
  "trim_start s = (if s \<noteq> [] \<and> 0 < ws_head s then trim_start (drop (ws_head s) s) else s)"
  by pat_completeness auto
termination
  by (relation "measure length") auto

declare trim_start.simps [simp del]

function trim_end_rev :: "string \<Rightarrow> string" where
  "trim_end_rev s = (if s \<noteq> [] \<and> 0 < ws_last s then trim_end_rev (drop (ws_last s) s) else s)"
  by pat_completeness auto
termination
  by (relation "measure length") auto

declare trim_end_rev.simps [simp del]

definition trim :: "string \<Rightarrow> string" where
  "trim s = rev (trim_end_rev (rev (trim_start s)))"

text \<open>\<open>split_whitespace\<close>: the maximal runs of characters that are not white space.\<close>

fun take_token :: "string \<Rightarrow> string \<times> string" where
  "take_token [] = ([], [])"
| "take_token (c # s) =
     (if 0 < ws_head (c # s) then ([], c # s)
      else (let (t, r) = take_token s in (c # t, r)))"

lemma length_trim_start: "length (trim_start s) \<le> length s"
proof (induction s rule: trim_start.induct)
  case (1 s)
  then show ?case by (subst trim_start.simps) (auto dest: le_trans)
qed

lemma trim_start_head: "trim_start s = c # r \<Longrightarrow> ws_head (c # r) = 0"
proof (induction s rule: trim_start.induct)
  case (1 s)
  then show ?case by (subst (asm) (2) trim_start.simps) (auto split: if_splits)
qed

lemma length_take_token: "length (snd (take_token s)) \<le> length s"
  by (induction s) (auto simp: case_prod_beta)

function split_whitespace :: "string \<Rightarrow> string list" where
  "split_whitespace s =
     (case trim_start s of
        [] \<Rightarrow> []
      | c # r \<Rightarrow> fst (take_token (c # r)) # split_whitespace (snd (take_token (c # r))))"
  by pat_completeness auto
termination
proof (relation "measure length")
  fix s c r
  assume s: "trim_start s = c # r"
  have "length (snd (take_token (c # r))) \<le> length r"
    using trim_start_head [OF s] length_take_token [of r] by (simp add: case_prod_beta)
  also have "length r < length s"
    using length_trim_start [of s] s by simp
  finally show "(snd (take_token (c # r)), s) \<in> measure length" by simp
qed simp

declare split_whitespace.simps [simp del]

text \<open>Visible ASCII bytes are never white space; with them the functions above are simple.\<close>

definition visible :: "char \<Rightarrow> bool" where
  "visible c \<longleftrightarrow> 33 \<le> code c \<and> code c < 127"

lemma ws_head_visible: "visible c \<Longrightarrow> ws_head (c # s) = 0"
  by (auto simp: visible_def ws_head_def ws_bytes_def numeral_3_eq_3 split: list.splits)

lemma ws_head_space: "ws_head (CHR '' '' # s) = 1"
  by (simp add: ws_head_def ws_bytes_def code_def)

lemma ws_bytes_ends_visible:
  assumes "33 \<le> b" and "b < 127"
  shows "ws_bytes [b] \<noteq> 1" "ws_bytes [a, b] \<noteq> 2" "ws_bytes [a, x, b] \<noteq> 3"
  using assms by (simp_all add: ws_bytes_def)

lemma ws_bytes_small: "ws_bytes [b] \<noteq> 2" "ws_bytes [b] \<noteq> 3" "ws_bytes [a, b] \<noteq> 3"
  by (simp_all add: ws_bytes_def)

lemma ws_last_visible: "visible c \<Longrightarrow> ws_last (c # s) = 0"
proof -
  assume "visible c"
  then have b: "33 \<le> code c" "code c < 127" by (simp_all add: visible_def)
  note no = ws_bytes_ends_visible [OF b]
  show ?thesis
  proof (cases s)
    case Nil
    then show ?thesis using no ws_bytes_small by (simp add: ws_last_def)
  next
    case (Cons d r)
    then show ?thesis
      using no ws_bytes_small by (cases r) (simp_all add: ws_last_def numeral_2_eq_2 numeral_3_eq_3)
  qed
qed

lemma trim_start_visible [simp]: "visible c \<Longrightarrow> trim_start (c # s) = c # s"
  by (subst trim_start.simps) (simp add: ws_head_visible)

lemma trim_start_Nil [simp]: "trim_start [] = []"
  by (subst trim_start.simps) simp

lemma trim_start_space [simp]: "trim_start (CHR '' '' # s) = trim_start s"
  by (subst trim_start.simps) (simp add: ws_head_space)

lemma trim_visible: "(\<And>c. c \<in> set s \<Longrightarrow> visible c) \<Longrightarrow> trim s = s"
proof -
  assume vis: "\<And>c. c \<in> set s \<Longrightarrow> visible c"
  have start: "trim_start s = s"
    using vis by (cases s) auto
  have "trim_end_rev (rev s) = rev s"
  proof (cases "rev s")
    case Nil
    then show ?thesis by (subst trim_end_rev.simps) simp
  next
    case (Cons c r)
    have "c \<in> set (rev s)" unfolding Cons by simp
    then have "ws_last (c # r) = 0" using vis by (simp add: ws_last_visible)
    then show ?thesis unfolding Cons by (subst trim_end_rev.simps) simp
  qed
  with start show ?thesis by (simp add: trim_def)
qed

lemma take_token_visible:
  "(\<And>c. c \<in> set t \<Longrightarrow> visible c) \<Longrightarrow> s = [] \<or> 0 < ws_head s \<Longrightarrow> take_token (t @ s) = (t, s)"
proof (induction t)
  case Nil
  then show ?case by (cases s) auto
next
  case (Cons c t)
  then show ?case by (auto simp: ws_head_visible)
qed

lemma digit_visible: "is_digit c \<Longrightarrow> visible c"
  by (simp add: is_digit_def visible_def)

lemma trim_dec [simp]: "trim (dec n) = dec n"
  by (rule trim_visible) (auto dest: dec_digits digit_visible)

lemma trim_newline: "trim (dec n @ [CHR 0x0A]) = dec n"
proof -
  obtain c s where dec: "dec n = c # s" by (cases "dec n") simp_all
  then have "is_digit c" using dec_digits [of c n] by simp
  then have start: "trim_start (dec n @ [CHR 0x0A]) = dec n @ [CHR 0x0A]"
    unfolding dec by (simp add: digit_visible)
  have "ws_last (CHR 0x0A # t) = 1" for t
    by (simp add: ws_last_def ws_bytes_def code_def)
  then have "trim_end_rev (CHR 0x0A # rev (dec n)) = trim_end_rev (rev (dec n))"
    by (subst trim_end_rev.simps) simp
  moreover have "trim_start (dec n) = dec n" unfolding dec using \<open>is_digit c\<close> by (simp add: digit_visible)
  ultimately show ?thesis using trim_dec [of n] by (simp add: trim_def start)
qed

lemma split_whitespace_Nil [simp]: "split_whitespace [] = []"
  by (subst split_whitespace.simps) simp

lemma split_whitespace_token:
  assumes "t \<noteq> []" and "\<And>c. c \<in> set t \<Longrightarrow> visible c" and "s = [] \<or> 0 < ws_head s"
  shows "split_whitespace (t @ s) = t # split_whitespace s"
proof -
  obtain c r where t: "t = c # r" using assms(1) by (cases t) auto
  have "trim_start (t @ s) = t @ s" using assms(2) by (simp add: t)
  moreover have "take_token (t @ s) = (t, s)"
    using assms(2,3) by (rule take_token_visible)
  ultimately show ?thesis
    by (subst split_whitespace.simps) (simp add: t del: take_token.simps)
qed

lemma split_whitespace_space [simp]: "split_whitespace (CHR '' '' # s) = split_whitespace s"
  by (subst (1 2) split_whitespace.simps) simp

end
