(* ===== verification/F64.thy ===== *)
theory F64
  imports Prelude
begin

text \<open>
  IEEE-754 binary64 as the agent uses it: comparison, subtraction, multiplication,
  \<open>f64::max\<close>, \<open>is_finite\<close>, \<open>floor\<close> and the saturating cast to \<open>u64\<close>. A finite value
  \<open>Fin m e\<close> is the number \<open>m * 2 ^ e\<close>; results are rounded to 53 significant bits, to the
  nearest, ties to even, with gradual underflow at exponent -1074 and overflow to infinity.
  The sign of a zero is not kept: no operation of the agent can tell 0.0 from -0.0.
\<close>

datatype f64 = NaN | Inf bool | Fin int int
  \<comment> \<open>\<open>Inf True\<close> is negative infinity\<close>

section \<open>Rounding\<close>

function nbits :: "int \<Rightarrow> nat" where
  "nbits n = (if n \<le> 0 then 0 else Suc (nbits (n div 2)))"
  by pat_completeness auto
termination
  by (relation "measure nat") auto

declare nbits.simps [simp del]

definition round_half_even :: "int \<Rightarrow> nat \<Rightarrow> int" where
  "round_half_even a k =
     (let q = a div 2 ^ k; r = a mod 2 ^ k in
      if 2 ^ k < 2 * r \<or> 2 * r = 2 ^ k \<and> odd q then q + 1 else q)"

definition f_overflow :: "int \<Rightarrow> int \<Rightarrow> f64" where
  "f_overflow m e = (if 1024 < int (nbits \<bar>m\<bar>) + e then Inf (m < 0) else Fin m e)"

definition f_round :: "int \<Rightarrow> int \<Rightarrow> f64" where
  "f_round m e =
     (if m = 0 then Fin 0 0
      else let a = \<bar>m\<bar>; sh = max (int (nbits a) - 53) (- 1074 - e) in
           if sh \<le> 0 then f_overflow m e
           else f_overflow (sgn m * round_half_even a (nat sh)) (e + sh))"

section \<open>Arithmetic and comparison\<close>

definition align :: "int \<Rightarrow> int \<Rightarrow> int \<Rightarrow> int" where
  "align m e k = m * 2 ^ nat (e - k)"

definition f_gt :: "f64 \<Rightarrow> f64 \<Rightarrow> bool" where
  "f_gt x y =
     (case x of
        NaN \<Rightarrow> False
      | Inf neg \<Rightarrow> (case y of NaN \<Rightarrow> False | Inf neg' \<Rightarrow> \<not> neg \<and> neg' | Fin _ _ \<Rightarrow> \<not> neg)
      | Fin m e \<Rightarrow> (case y of NaN \<Rightarrow> False | Inf neg' \<Rightarrow> neg'
                   | Fin m' e' \<Rightarrow> align m' e' (min e e') < align m e (min e e')))"

definition f_sub :: "f64 \<Rightarrow> f64 \<Rightarrow> f64" where
  "f_sub x y =
     (case x of
        NaN \<Rightarrow> NaN
      | Inf neg \<Rightarrow> (case y of NaN \<Rightarrow> NaN | Inf neg' \<Rightarrow> if neg = neg' then NaN else Inf neg
                   | Fin _ _ \<Rightarrow> Inf neg)
      | Fin m e \<Rightarrow> (case y of NaN \<Rightarrow> NaN | Inf neg' \<Rightarrow> Inf (\<not> neg')
                   | Fin m' e' \<Rightarrow>
                       f_round (align m e (min e e') - align m' e' (min e e')) (min e e')))"

definition f_mul :: "f64 \<Rightarrow> f64 \<Rightarrow> f64" where
  "f_mul x y =
     (case x of
        NaN \<Rightarrow> NaN
      | Inf neg \<Rightarrow> (case y of NaN \<Rightarrow> NaN | Inf neg' \<Rightarrow> Inf (neg \<noteq> neg')
                   | Fin m' _ \<Rightarrow> if m' = 0 then NaN else Inf (neg \<noteq> (m' < 0)))
      | Fin m e \<Rightarrow> (case y of NaN \<Rightarrow> NaN
                   | Inf neg' \<Rightarrow> if m = 0 then NaN else Inf ((m < 0) \<noteq> neg')
                   | Fin m' e' \<Rightarrow> f_round (m * m') (e + e')))"

text \<open>\<open>f64::max\<close>: a NaN operand is ignored.\<close>

definition f_max :: "f64 \<Rightarrow> f64 \<Rightarrow> f64" where
  "f_max x y = (if x = NaN then y else if y = NaN then x else if f_gt y x then y else x)"

definition f_is_finite :: "f64 \<Rightarrow> bool" where
  "f_is_finite x = (case x of Fin _ _ \<Rightarrow> True | _ \<Rightarrow> False)"

definition f_zero :: f64 where
  "f_zero = Fin 0 0"

definition f_one_and_half :: f64 where
  "f_one_and_half = Fin 3 (- 1)"

text \<open>\<open>x <= y\<close> on floats is \<open>x < y\<close> or equal: false when either is NaN.\<close>

definition f_le :: "f64 \<Rightarrow> f64 \<Rightarrow> bool" where
  "f_le x y = (x \<noteq> NaN \<and> y \<noteq> NaN \<and> \<not> f_gt x y)"

text \<open>\<open>v.floor() as u64\<close>: the cast saturates at both ends and sends NaN to 0.\<close>

definition fin_floor :: "int \<Rightarrow> int \<Rightarrow> int" where
  "fin_floor m e = (if 0 \<le> e then m * 2 ^ nat e else m div 2 ^ nat (- e))"

definition f_floor_as_u64 :: "f64 \<Rightarrow> u64" where
  "f_floor_as_u64 x =
     (case x of
        NaN \<Rightarrow> 0
      | Inf neg \<Rightarrow> if neg then 0 else - 1
      | Fin m e \<Rightarrow>
          if fin_floor m e < 0 then 0
          else if 2 ^ 64 \<le> fin_floor m e then - 1 else of_int (fin_floor m e))"

section \<open>Facts\<close>

lemma nbits_0 [simp]: "nbits 0 = 0"
  by (simp add: nbits.simps)

lemma nbits_le: "n < 2 ^ k \<Longrightarrow> nbits n \<le> k"
proof (induction n arbitrary: k rule: nbits.induct)
  case (1 n)
  show ?case
  proof (cases "n \<le> 0")
    case False
    with "1.prems" obtain j where k: "k = Suc j" by (cases k) auto
    with "1.prems" have "n div 2 < 2 ^ j" by auto
    with 1 False k show ?thesis by (simp add: nbits.simps [of n])
  qed (simp add: nbits.simps [of n])
qed

lemma nbits_bounds: "0 < n \<Longrightarrow> 2 ^ (nbits n - 1) \<le> n"
proof (induction n rule: nbits.induct)
  case (1 n)
  show ?case
  proof (cases "n div 2 \<le> 0")
    case True
    with "1.prems" show ?thesis by (simp add: nbits.simps [of n] nbits.simps [of "n div 2"])
  next
    case False
    then have "2 ^ (nbits (n div 2) - 1) \<le> n div 2" using 1 by simp
    moreover have "nbits (n div 2) = Suc (nbits (n div 2 div 2))"
      using False by (subst nbits.simps) (simp only: if_False)
    then have suc: "nbits (n div 2) = Suc (nbits (n div 2) - 1)" by simp
    ultimately have "2 * 2 ^ (nbits (n div 2) - 1) \<le> n" by linarith
    moreover have "2 ^ (nbits n - 1) = (2::int) * 2 ^ (nbits (n div 2) - 1)"
      using "1.prems" suc by (simp add: nbits.simps [of n]) (metis power_Suc)
    ultimately show ?thesis by simp
  qed
qed

text \<open>A number of at most 53 significant bits in the exponent range is not rounded.\<close>

lemma f_round_exact:
  assumes "\<bar>m\<bar> < 2 ^ 53" and "- 1074 \<le> e" and "e \<le> 971"
  shows "f_round m e = (if m = 0 then Fin 0 0 else Fin m e)"
  using nbits_le [OF assms(1)] assms(2,3) by (simp add: f_round_def f_overflow_def Let_def)

lemma round_half_even_ge: "a div 2 ^ k \<le> round_half_even a k"
  by (simp add: round_half_even_def Let_def)

text \<open>Rounding keeps the sign: a nonzero difference of two doubles never becomes zero.\<close>

lemma f_overflow_sign:
  assumes "m \<noteq> 0"
  shows "f_gt (f_overflow m e) f_zero \<longleftrightarrow> 0 < m" and "f_gt f_zero (f_overflow m e) \<longleftrightarrow> m < 0"
    and "f_overflow m e \<noteq> NaN"
  using assms
  by (auto simp: f_overflow_def f_gt_def f_zero_def align_def mult_less_0_iff
      zero_less_mult_iff)

lemma f_round_overflow:
  assumes "- 1074 \<le> e" and "m \<noteq> 0"
  obtains x y where "f_round m e = f_overflow x y" and "sgn x = sgn m"
proof (cases "max (int (nbits \<bar>m\<bar>) - 53) (- 1074 - e) \<le> 0")
  case True
  with assms(2) show ?thesis by (intro that [of m e]) (auto simp: f_round_def Let_def)
next
  case False
  let ?sh = "nat (max (int (nbits \<bar>m\<bar>) - 53) (- 1074 - e))"
  have "?sh \<le> nbits \<bar>m\<bar> - 1" using assms False by linarith
  then have "2 ^ ?sh \<le> (2::int) ^ (nbits \<bar>m\<bar> - 1)" by (simp add: power_increasing)
  also have "\<dots> \<le> \<bar>m\<bar>" using assms(2) by (intro nbits_bounds) simp
  finally have "0 < \<bar>m\<bar> div 2 ^ ?sh" by (simp add: pos_imp_zdiv_pos_iff)
  then have "0 < round_half_even \<bar>m\<bar> ?sh"
    using round_half_even_ge [of "\<bar>m\<bar>" ?sh] by linarith
  then have "sgn (sgn m * round_half_even \<bar>m\<bar> ?sh) = sgn m"
    by (simp add: sgn_mult)
  moreover have "f_round m e = f_overflow (sgn m * round_half_even \<bar>m\<bar> ?sh)
      (e + max (int (nbits \<bar>m\<bar>) - 53) (- 1074 - e))"
    using False assms(2) by (auto simp: f_round_def Let_def)
  ultimately show ?thesis by (rule that [rotated])
qed

lemma f_round_sign:
  assumes "- 1074 \<le> e"
  shows "f_gt (f_round m e) f_zero \<longleftrightarrow> 0 < m" and "f_gt f_zero (f_round m e) \<longleftrightarrow> m < 0"
    and "f_round m e \<noteq> NaN"
proof -
  have "(f_gt (f_round m e) f_zero \<longleftrightarrow> 0 < m) \<and> (f_gt f_zero (f_round m e) \<longleftrightarrow> m < 0)
      \<and> f_round m e \<noteq> NaN"
  proof (cases "m = 0")
    case True
    then show ?thesis by (simp add: f_round_def f_zero_def f_gt_def)
  next
    case False
    obtain x y where xy: "f_round m e = f_overflow x y" and sgn: "sgn x = sgn m"
      using f_round_overflow [OF assms False] .
    from sgn False have "x \<noteq> 0" "0 < x \<longleftrightarrow> 0 < m" "x < 0 \<longleftrightarrow> m < 0"
      by (auto simp: sgn_if split: if_splits)
    then show ?thesis by (simp add: xy f_overflow_sign)
  qed
  then show "f_gt (f_round m e) f_zero \<longleftrightarrow> 0 < m" "f_gt f_zero (f_round m e) \<longleftrightarrow> m < 0"
    "f_round m e \<noteq> NaN" by simp_all
qed

lemma f_max_zero_NaN [simp]: "f_max NaN f_zero = f_zero"
  by (simp add: f_max_def)

lemma f_gt_irrefl [simp]: "\<not> f_gt x x"
  by (simp add: f_gt_def split: f64.split)

lemma f_gt_int: "f_gt (Fin a 0) (Fin b 0) \<longleftrightarrow> b < a"
  by (simp add: f_gt_def align_def)

lemma f_sub_int:
  assumes "\<bar>a - b\<bar> < 2 ^ 53"
  shows "f_sub (Fin a 0) (Fin b 0) = Fin (a - b) 0"
  using f_round_exact [OF assms, of 0] by (simp add: f_sub_def align_def)

end
