(* ===== verification/Finding.thy ===== *)
theory Finding
  imports Rust_Text F64
begin

text \<open>
  \<open>crates/pgsleuth-core/src/finding.rs\<close>: the finding envelope, the only interface between the
  agent and the brain, and the two effects by which a rule reports one (a log record handed
  to the OTLP emitter when there is one, and a warning in the local log). \<open>json\<close> is the shape
  of the \<open>serde_json\<close> values the rules build as evidence; a \<open>datetime\<close> is what the agent
  reads of a \<open>chrono\<close> timestamp, its Unix seconds and its sub-second nanoseconds.
\<close>

section \<open>The envelope\<close>

record datetime =
  dt_timestamp :: i64
  dt_subsec_nanos :: u32

datatype json =
    JNull
  | JBool bool
  | JNum int
  | JFloat f64
  | JStr string
  | JArr "json list"
  | JObj "(string \<times> json) list"

definition FINDING_SCHEMA_VERSION :: u32 where
  "FINDING_SCHEMA_VERSION = 1"

datatype tier = Standard | CloudEnhanced | Deep

datatype severity = Info | Low | Medium | High | Critical

text \<open>Severities in the order the code lists them, from informational to paging.\<close>

fun severity_rank :: "severity \<Rightarrow> nat" where
  "severity_rank Info = 0"
| "severity_rank Low = 1"
| "severity_rank Medium = 2"
| "severity_rank High = 3"
| "severity_rank Critical = 4"

lemma severity_rank_inject: "severity_rank a = severity_rank b \<longleftrightarrow> a = b"
  by (cases a; cases b) simp_all

instantiation severity :: linorder
begin

definition less_eq_severity :: "severity \<Rightarrow> severity \<Rightarrow> bool" where
  "less_eq_severity a b = (severity_rank a \<le> severity_rank b)"

definition less_severity :: "severity \<Rightarrow> severity \<Rightarrow> bool" where
  "less_severity a b = (severity_rank a < severity_rank b)"

instance
  by standard (auto simp: less_eq_severity_def less_severity_def severity_rank_inject)

end

datatype pg_role = Primary | Replica | Role_Unknown

record pg_instance_ref =
  inst_id :: string
  inst_db_name :: "string option"
  inst_role :: pg_role

record remediation =
  rem_text :: string
  rem_knobs :: "string list"

datatype attribute_value = Attr_String string | Attr_Int i64 | Attr_Double f64 | Attr_Bool bool

record finding =
  f_schema_version :: u32
  f_rule_id :: string
  f_rule_version :: u32
  f_tier :: tier
  f_severity :: severity
  f_fired_at :: datetime
  f_pg_instance :: pg_instance_ref
  f_summary :: string
  f_evidence :: json
  f_remediation :: remediation
  f_otel_attributes :: "(string \<times> attribute_value) list"

text \<open>\<open>evidence["key"]\<close>: null when the value is no object or has no such key.\<close>

definition json_field :: "json \<Rightarrow> string \<Rightarrow> json" where
  "json_field j k =
     (case j of JObj m \<Rightarrow> (case map_of m k of Some v \<Rightarrow> v | None \<Rightarrow> JNull) | _ \<Rightarrow> JNull)"

section \<open>Reporting\<close>

datatype effect = Emit_Log finding | Log_Warn string

text \<open>
  \<open>if let Some(em) = emitter { em.emit(&finding); }\<close> then the local warning with the summary.
\<close>

definition report :: "bool \<Rightarrow> finding \<Rightarrow> effect list" where
  "report has_emitter f =
     (if has_emitter then [Emit_Log f] else []) @ [Log_Warn (''FINDING fired: '' @ f_summary f)]"

definition emitted :: "effect list \<Rightarrow> finding list" where
  "emitted es = concat (map (\<lambda>e. case e of Emit_Log f \<Rightarrow> [f] | Log_Warn _ \<Rightarrow> []) es)"

lemma emitted_simps [simp]:
  "emitted [] = []"
  "emitted (Emit_Log f # es) = f # emitted es"
  "emitted (Log_Warn s # es) = emitted es"
  "emitted (es @ es') = emitted es @ emitted es'"
  by (simp_all add: emitted_def)

lemma emitted_report [simp]: "emitted (report e f) = (if e then [f] else [])"
  by (simp add: report_def)

text \<open>A tick that reports a finding of the given rule, and does nothing else.\<close>

definition reports_rule :: "string \<Rightarrow> bool \<Rightarrow> effect list \<Rightarrow> bool" where
  "reports_rule rule em es \<longleftrightarrow> (\<exists>f. f_rule_id f = rule \<and> es = report em f)"

lemma reports_ruleI [intro]: "f_rule_id f = rule \<Longrightarrow> reports_rule rule em (report em f)"
  by (auto simp: reports_rule_def)

section \<open>Well-formed findings\<close>

text \<open>
  What the brain may assume of every finding of this agent: the current schema version, the
  first rule version, a named rule, at least one knob to turn, and attributes that form a map.
\<close>

definition wf_finding :: "finding \<Rightarrow> bool" where
  "wf_finding f \<longleftrightarrow>
     f_schema_version f = FINDING_SCHEMA_VERSION \<and> f_rule_version f = 1 \<and> f_rule_id f \<noteq> []
     \<and> rem_knobs (f_remediation f) \<noteq> [] \<and> f_evidence f \<noteq> JNull
     \<and> btree_wf (f_otel_attributes f)"

end
