(* ===== verification/Utf8.thy ===== *)
theory Utf8
  imports Rust_Text
begin

text \<open>
  UTF-8 in Rust's standard library: \<open>utf8_head\<close> reads one sequence the way the decoder of
  \<open>core::str\<close> does (how many bytes it consumes and whether they are one well-formed
  sequence), \<open>str::from_utf8\<close> accepts a byte string made of well-formed sequences only, and
  \<open>String::from_utf8_lossy\<close> replaces every maximal ill-formed piece by U+FFFD, the three
  bytes EF BF BD.
\<close>

definition byte_at :: "string \<Rightarrow> nat \<Rightarrow> nat" where
  "byte_at s i = (if i < length s then code (s ! i) else 0)"

definition is_cont :: "nat \<Rightarrow> bool" where
  "is_cont b \<longleftrightarrow> 0x80 \<le> b \<and> b \<le> 0xBF"

definition second_of_3 :: "nat \<Rightarrow> nat \<Rightarrow> bool" where
  "second_of_3 a b \<longleftrightarrow>
     a = 0xE0 \<and> 0xA0 \<le> b \<and> b \<le> 0xBF \<or> 0xE1 \<le> a \<and> a \<le> 0xEC \<and> is_cont b
     \<or> a = 0xED \<and> 0x80 \<le> b \<and> b \<le> 0x9F \<or> 0xEE \<le> a \<and> a \<le> 0xEF \<and> is_cont b"

definition second_of_4 :: "nat \<Rightarrow> nat \<Rightarrow> bool" where
  "second_of_4 a b \<longleftrightarrow>
     a = 0xF0 \<and> 0x90 \<le> b \<and> b \<le> 0xBF \<or> 0xF1 \<le> a \<and> a \<le> 0xF3 \<and> is_cont b
     \<or> a = 0xF4 \<and> 0x80 \<le> b \<and> b \<le> 0x8F"

definition lead_2 :: "nat \<Rightarrow> bool" where
  "lead_2 a \<longleftrightarrow> 0xC2 \<le> a \<and> a \<le> 0xDF"

definition lead_3 :: "nat \<Rightarrow> bool" where
  "lead_3 a \<longleftrightarrow> 0xE0 \<le> a \<and> a \<le> 0xEF"

definition lead_4 :: "nat \<Rightarrow> bool" where
  "lead_4 a \<longleftrightarrow> 0xF0 \<le> a \<and> a \<le> 0xF4"

definition utf8_seq :: "nat \<Rightarrow> nat \<Rightarrow> nat \<Rightarrow> nat \<Rightarrow> nat \<times> bool" where
  "utf8_seq a b c d =
     (if a < 0x80 then (1, True)
      else if lead_2 a then (if is_cont b then (2, True) else (1, False))
      else if lead_3 a then
        (if \<not> second_of_3 a b then (1, False)
         else if is_cont c then (3, True) else (2, False))
      else if lead_4 a then
        (if \<not> second_of_4 a b then (1, False)
         else if \<not> is_cont c then (2, False)
         else if is_cont d then (4, True) else (3, False))
      else (1, False))"

definition utf8_head :: "string \<Rightarrow> nat \<times> bool" where
  "utf8_head s = utf8_seq (byte_at s 0) (byte_at s 1) (byte_at s 2) (byte_at s 3)"

lemma utf8_head_pos: "0 < fst (utf8_head s)"
  by (simp add: utf8_head_def utf8_seq_def)

definition replacement :: string where
  "replacement = [CHR 0xEF, CHR 0xBF, CHR 0xBD]"

function from_utf8_lossy :: "string \<Rightarrow> string" where
  "from_utf8_lossy s =
     (if s = [] then []
      else (if snd (utf8_head s) then take (fst (utf8_head s)) s else replacement)
           @ from_utf8_lossy (drop (fst (utf8_head s)) s))"
  by pat_completeness auto
termination
  by (relation "measure length") (auto simp: utf8_head_pos)

declare from_utf8_lossy.simps [simp del]

function valid_utf8 :: "string \<Rightarrow> bool" where
  "valid_utf8 s =
     (if s = [] then True
      else snd (utf8_head s) \<and> valid_utf8 (drop (fst (utf8_head s)) s))"
  by pat_completeness auto
termination
  by (relation "measure length") (auto simp: utf8_head_pos)

declare valid_utf8.simps [simp del]

definition from_utf8 :: "string \<Rightarrow> string option" where
  "from_utf8 s = (if valid_utf8 s then Some s else None)"

definition trim_nuls :: "string \<Rightarrow> string" where
  "trim_nuls s = rev (dropWhile (\<lambda>c. c = CHR 0x00) (rev (dropWhile (\<lambda>c. c = CHR 0x00) s)))"

section \<open>Facts\<close>

lemma from_utf8_lossy_Nil [simp]: "from_utf8_lossy [] = []"
  by (subst from_utf8_lossy.simps) simp

lemma valid_utf8_Nil [simp]: "valid_utf8 []"
  by (subst valid_utf8.simps) simp

lemma valid_utf8_ascii: "\<forall>c\<in>set s. code c < 128 \<Longrightarrow> valid_utf8 s"
proof (induction s)
  case (Cons c s)
  then show ?case
    by (subst valid_utf8.simps) (simp add: utf8_head_def utf8_seq_def byte_at_def)
qed simp

lemma valid_utf8_lossy: "valid_utf8 s \<Longrightarrow> from_utf8_lossy s = s"
proof (induction s rule: from_utf8_lossy.induct)
  case (1 s)
  show ?case
  proof (cases "s = []")
    case False
    with "1.prems" have "snd (utf8_head s)" "valid_utf8 (drop (fst (utf8_head s)) s)"
      by (simp_all add: valid_utf8.simps [of s])
    then show ?thesis using 1 False by (simp add: from_utf8_lossy.simps [of s])
  qed simp
qed

text \<open>A well-formed sequence is recognised whatever follows it.\<close>

lemma byte_at_append: "i < length s \<Longrightarrow> byte_at (s @ t) i = byte_at s i"
  by (simp add: byte_at_def nth_append)

lemma byte_at_beyond: "length s \<le> i \<Longrightarrow> byte_at s i = 0"
  by (simp add: byte_at_def)

lemma not_cont_0 [simp]: "\<not> is_cont 0"
  by (simp add: is_cont_def)

lemma not_second_0 [simp]: "\<not> second_of_3 a 0" "\<not> second_of_4 a 0"
  by (simp_all add: second_of_3_def second_of_4_def)

lemma cont_in_range: "is_cont (byte_at s i) \<Longrightarrow> i < length s"
  by (rule ccontr) (simp add: byte_at_beyond)

lemma second_in_range: "second_of_3 a (byte_at s i) \<Longrightarrow> i < length s"
  "second_of_4 a (byte_at s i) \<Longrightarrow> i < length s"
  by (rule ccontr, simp add: byte_at_beyond)+

lemma utf8_seq_ok_cases:
  assumes "snd (utf8_seq a b c d)"
  obtains (ascii) "a < 0x80" "utf8_seq a b c d = (1, True)"
  | (two) "\<not> a < 0x80" "lead_2 a" "is_cont b" "utf8_seq a b c d = (2, True)"
  | (three) "\<not> a < 0x80" "\<not> lead_2 a" "lead_3 a" "second_of_3 a b" "is_cont c"
      "utf8_seq a b c d = (3, True)"
  | (four) "\<not> a < 0x80" "\<not> lead_2 a" "\<not> lead_3 a" "lead_4 a" "second_of_4 a b" "is_cont c"
      "is_cont d" "utf8_seq a b c d = (4, True)"
proof -
  consider "a < 0x80" | "\<not> a < 0x80" "lead_2 a" | "\<not> a < 0x80" "\<not> lead_2 a" "lead_3 a"
    | "\<not> a < 0x80" "\<not> lead_2 a" "\<not> lead_3 a" "lead_4 a"
    | "\<not> a < 0x80" "\<not> lead_2 a" "\<not> lead_3 a" "\<not> lead_4 a"
    by blast
  then show thesis
  proof cases
    case 1
    then show thesis by (intro ascii) (simp_all add: utf8_seq_def)
  next
    case 2
    then have "is_cont b" using assms by (simp add: utf8_seq_def split: if_splits)
    with 2 show thesis by (intro two) (simp_all add: utf8_seq_def)
  next
    case 3
    then have "second_of_3 a b" "is_cont c"
      using assms by (simp_all add: utf8_seq_def split: if_splits)
    with 3 show thesis by (intro three) (simp_all add: utf8_seq_def)
  next
    case 4
    then have "second_of_4 a b" "is_cont c" "is_cont d"
      using assms by (simp_all add: utf8_seq_def split: if_splits)
    with 4 show thesis by (intro four) (simp_all add: utf8_seq_def)
  next
    case 5
    then show thesis using assms by (simp add: utf8_seq_def)
  qed
qed

lemma utf8_head_in_range:
  assumes "s \<noteq> []" and "snd (utf8_head s)"
  shows "fst (utf8_head s) \<le> length s"
  using assms(2) unfolding utf8_head_def
proof (cases rule: utf8_seq_ok_cases)
  case ascii
  with assms(1) show "fst (utf8_seq (byte_at s 0) (byte_at s 1) (byte_at s 2) (byte_at s 3)) \<le> length s"
    by (simp add: Suc_le_eq)
qed (auto dest: cont_in_range)

lemma byte_at_take: "i < n \<Longrightarrow> byte_at (take n s) i = byte_at s i"
  by (simp add: byte_at_def)

lemma utf8_seq_local:
  assumes "snd (utf8_seq a b c d)" and "1 < fst (utf8_seq a b c d) \<Longrightarrow> b' = b"
    and "2 < fst (utf8_seq a b c d) \<Longrightarrow> c' = c" and "3 < fst (utf8_seq a b c d) \<Longrightarrow> d' = d"
  shows "utf8_seq a b' c' d' = utf8_seq a b c d"
  using assms(1)
proof (cases rule: utf8_seq_ok_cases)
  case ascii
  then show ?thesis by (simp add: utf8_seq_def)
next
  case two
  then show ?thesis using assms(2) by (simp add: utf8_seq_def)
next
  case three
  then show ?thesis using assms(2,3) by (simp add: utf8_seq_def)
next
  case four
  then show ?thesis using assms(2-4) by (simp add: utf8_seq_def)
qed

lemma utf8_head_take:
  assumes "snd (utf8_head s)" and "s \<noteq> []"
  shows "utf8_head (take (fst (utf8_head s)) s @ t) = utf8_head s"
proof -
  let ?n = "fst (utf8_head s)"
  have len: "length (take ?n s) = ?n"
    using utf8_head_in_range assms by simp
  have at: "byte_at (take ?n s @ t) i = byte_at s i" if "i < ?n" for i
    using that len by (simp add: byte_at_append byte_at_take)
  have "byte_at (take ?n s @ t) 0 = byte_at s 0"
    by (rule at [OF utf8_head_pos])
  then show ?thesis
    unfolding utf8_head_def [of "take ?n s @ t"]
    using utf8_seq_local [OF assms(1) [unfolded utf8_head_def], folded utf8_head_def]
      at [of 1] at [of 2] at [of 3]
    by simp
qed

lemma valid_utf8_seq:
  assumes "snd (utf8_head s)" and "s \<noteq> []"
  shows "valid_utf8 (take (fst (utf8_head s)) s @ t) = valid_utf8 t"
proof -
  have "length (take (fst (utf8_head s)) s) = fst (utf8_head s)"
    using utf8_head_in_range assms by simp
  moreover have "take (fst (utf8_head s)) s @ t \<noteq> []"
    using assms(2) utf8_head_pos [of s] by simp
  ultimately show ?thesis
    using utf8_head_take [OF assms, of t] assms(1) by (subst valid_utf8.simps) simp
qed

lemma valid_utf8_replacement: "valid_utf8 (replacement @ t) = valid_utf8 t"
proof -
  have head: "utf8_head (replacement @ t) = (3, True)"
    by (simp add: utf8_head_def utf8_seq_def replacement_def byte_at_def second_of_3_def is_cont_def code_def
        lead_2_def lead_3_def)
  then show ?thesis by (subst valid_utf8.simps) (simp add: replacement_def)
qed

lemma valid_from_utf8_lossy: "valid_utf8 (from_utf8_lossy s)"
proof (induction s rule: from_utf8_lossy.induct)
  case (1 s)
  show ?case
  proof (cases "s = []")
    case False
    with 1 have IH: "valid_utf8 (from_utf8_lossy (drop (fst (utf8_head s)) s))" by simp
    show ?thesis
    proof (cases "snd (utf8_head s)")
      case True
      then show ?thesis
        using IH False by (subst from_utf8_lossy.simps) (simp add: valid_utf8_seq)
    next
      case False
      then show ?thesis
        using IH \<open>s \<noteq> []\<close> by (subst from_utf8_lossy.simps) (simp add: valid_utf8_replacement)
    qed
  qed simp
qed

lemma from_utf8_lossy_set: "set (from_utf8_lossy s) \<subseteq> set s \<union> set replacement"
proof (induction s rule: from_utf8_lossy.induct)
  case (1 s)
  show ?case
  proof (cases "s = []")
    case False
    then have "set (from_utf8_lossy (drop (fst (utf8_head s)) s))
        \<subseteq> set (drop (fst (utf8_head s)) s) \<union> set replacement"
      using 1 by simp
    then show ?thesis
      using False set_drop_subset [of "fst (utf8_head s)" s] set_take_subset [of "fst (utf8_head s)" s]
      by (subst from_utf8_lossy.simps) auto
  qed simp
qed

lemma ascii_valid: "(\<And>c. c \<in> set s \<Longrightarrow> code c < 128) \<Longrightarrow> valid_utf8 s"
proof (induction s)
  case (Cons c s)
  then have "utf8_head (c # s) = (1, True)"
    by (simp add: utf8_head_def utf8_seq_def byte_at_def)
  with Cons show ?case by (subst valid_utf8.simps) simp
qed simp

lemma trim_nuls_no_ends: "trim_nuls s \<noteq> [] \<Longrightarrow> last (trim_nuls s) \<noteq> CHR 0x00"
  unfolding trim_nuls_def by (metis (mono_tags) hd_dropWhile last_rev rev_is_Nil_conv)

end
