(* ===== verification/Pg_Version.thy ===== *)
theory Pg_Version
  imports Rust_Text
begin

text \<open>
  \<open>pgsleuth_postgres::pg_version\<close> (\<open>crates/pgsleuth-postgres/src/lib.rs\<close>): the major version
  from \<open>SHOW server_version_num\<close>. The query result is a parameter: the text the server sent,
  or None when the query failed.
\<close>

text \<open>The errors a runtime of the agent ends with.\<close>

datatype agent_error =
    Connect_Failed string
  | Query_Failed string
  | Version_Unparsable string
  | Below_Minimum u32 u32
  | Extension_Missing
  | Missing_Argument
  | Io_Failed string

text \<open>
  How a runtime of the command-line program goes on: it returns an error before its loop; it panics
  at \<open>tokio::time::interval\<close>, which documents that it panics on a period of zero; or it is in its
  loop, which it never leaves, and has done what it did on its ticks.
\<close>

datatype 'o runtime =
    Rt_Failed agent_error
  | Rt_Panicked
  | Rt_Polls 'o

definition pg_major :: "string option \<Rightarrow> agent_error + u32" where
  "pg_major row =
     (case row of
        None \<Rightarrow> Inl (Query_Failed ''SHOW server_version_num failed'')
      | Some s \<Rightarrow>
          (case parse_uint (2 ^ 32) s of
             None \<Rightarrow> Inl (Version_Unparsable s)
           | Some n \<Rightarrow> Inr ((of_nat n :: u32) div 10000)))"

lemma pg_major_dec:
  assumes "n < 2 ^ 32"
  shows "pg_major (Some (dec n)) = Inr (of_nat (n div 10000))"
proof -
  have "unat ((of_nat n :: u32) div 10000) = unat (of_nat (n div 10000) :: u32)"
    using assms by (simp add: unat_div unsigned_of_nat take_bit_nat_eq_self)
  then show ?thesis
    using assms by (simp add: pg_major_def parse_uint_dec word_unat_eq_iff)
qed

end
