(* ===== verification/Temp_Spill.thy ===== *)
theory Temp_Spill
  imports Edge_Alarm Finding Utf8 Pg_Version "HOL-Library.Multiset"
begin

text \<open>
  \<open>crates/pgsleuth-cli/src/temp_spill.rs\<close>: the capacity half of the temp-spill alarm. The file
  system is a parameter: one tick is given what the directory walk, the two existence checks and
  \<open>statvfs\<close> answer (\<open>walkdir\<close> and \<open>nix\<close> are not part of the repository).
\<close>

section \<open>Configuration and samples\<close>

type_synonym u128 = "128 word"

record temp_spill_config =
  ts_pgdata :: string
  ts_footprint_threshold_bytes :: u64
  ts_free_threshold_pct :: u8
  ts_interval_ms :: u64
  ts_pg_instance_id :: string

record temp_spill_sample =
  sm_footprint_bytes :: u64
  sm_mount_total_bytes :: u64
  sm_mount_available_bytes :: u64

definition free_pct :: "temp_spill_sample \<Rightarrow> u8" where
  "free_pct s =
     (if sm_mount_total_bytes s = 0 then 100
      else
        let pct = sat_mul (ucast (sm_mount_available_bytes s) :: u128) 100
                    div ucast (sm_mount_total_bytes s)
        in if unat pct < 256 then of_nat (unat pct) else 255)"

datatype breach_reason = Footprint u64 u64 | FreeSpace u8 u8

definition breaches :: "temp_spill_sample \<Rightarrow> temp_spill_config \<Rightarrow> breach_reason option" where
  "breaches s cfg =
     (if ts_footprint_threshold_bytes cfg < sm_footprint_bytes s
      then Some (Footprint (sm_footprint_bytes s) (ts_footprint_threshold_bytes cfg))
      else if 0 < ts_free_threshold_pct cfg \<and> free_pct s < ts_free_threshold_pct cfg
      then Some (FreeSpace (free_pct s) (ts_free_threshold_pct cfg))
      else None)"

section \<open>Sampling the file system\<close>

text \<open>An entry of the walk: an error, or its file type and the length its metadata gives.\<close>

datatype walk_entry = Walk_Error | Walk_Entry bool "u64 option"

record statvfs_info =
  sv_fragment_size :: u64
  sv_blocks :: u64
  sv_blocks_available :: u64

record temp_fs =
  tf_exists_at_walk :: "string \<Rightarrow> bool"
  tf_walk :: "string \<Rightarrow> walk_entry list"
  tf_exists_at_stat :: "string \<Rightarrow> bool"
  tf_statvfs :: "string \<Rightarrow> statvfs_info option"

definition path_join :: "string \<Rightarrow> string \<Rightarrow> string" where
  "path_join base rel =
     (if base = [] \<or> last base = CHR ''/'' then base @ rel else base @ CHR ''/'' # rel)"

fun add_entry :: "u64 \<Rightarrow> walk_entry \<Rightarrow> u64" where
  "add_entry tot (Walk_Entry True (Some len)) = sat_add tot len"
| "add_entry tot _ = tot"

definition footprint :: "temp_fs \<Rightarrow> string \<Rightarrow> u64" where
  "footprint fs pgdata =
     (let tmp_dir = path_join pgdata ''base/pgsql_tmp'' in
      if \<not> tf_exists_at_walk fs tmp_dir then 0
      else foldl add_entry 0 (tf_walk fs tmp_dir))"

definition mount_capacity :: "temp_fs \<Rightarrow> string \<Rightarrow> agent_error + u64 \<times> u64" where
  "mount_capacity fs pgdata =
     (let tmp_dir = path_join pgdata ''base/pgsql_tmp'';
          target = if tf_exists_at_stat fs tmp_dir then tmp_dir else path_join pgdata ''base''
      in case tf_statvfs fs target of
           None \<Rightarrow> Inl (Io_Failed (''statvfs('' @ from_utf8_lossy target @ '') failed''))
         | Some v \<Rightarrow>
             Inr (sat_mul (sv_fragment_size v) (sv_blocks v),
                  sat_mul (sv_fragment_size v) (sv_blocks_available v)))"

definition temp_sample :: "temp_fs \<Rightarrow> string \<Rightarrow> agent_error + temp_spill_sample" where
  "temp_sample fs pgdata =
     (let footprint_bytes = footprint fs pgdata in
      case mount_capacity fs pgdata of
        Inl e \<Rightarrow> Inl e
      | Inr (tot, available) \<Rightarrow>
          Inr \<lparr>sm_footprint_bytes = footprint_bytes, sm_mount_total_bytes = tot,
               sm_mount_available_bytes = available\<rparr>)"

section \<open>The finding\<close>

fun rule_suffix :: "breach_reason \<Rightarrow> string" where
  "rule_suffix (Footprint _ _) = ''footprint''"
| "rule_suffix (FreeSpace _ _) = ''free_space''"

fun temp_summary :: "temp_spill_sample \<Rightarrow> breach_reason \<Rightarrow> string" where
  "temp_summary snap (Footprint bytes threshold_bytes) =
     ''pgsql_tmp/ footprint '' @ dec (unat bytes) @ '' bytes > '' @ dec (unat threshold_bytes)
     @ '' bytes threshold (free='' @ dec (unat (free_pct snap)) @ ''%, total=''
     @ dec (unat (sm_mount_total_bytes snap)) @ '' bytes)''"
| "temp_summary snap (FreeSpace pct threshold_pct) =
     ''Free space '' @ dec (unat pct) @ ''% < '' @ dec (unat threshold_pct)
     @ ''% threshold on pgsql_tmp/ mount (footprint='' @ dec (unat (sm_footprint_bytes snap))
     @ '' bytes, total='' @ dec (unat (sm_mount_total_bytes snap)) @ '' bytes)''"

fun temp_evidence :: "temp_spill_sample \<Rightarrow> breach_reason \<Rightarrow> json" where
  "temp_evidence snap (Footprint bytes threshold_bytes) = JObj
     [(''trigger'', JStr ''footprint''),
      (''footprint_bytes'', JNum (uint bytes)),
      (''footprint_threshold_bytes'', JNum (uint threshold_bytes)),
      (''mount_total_bytes'', JNum (uint (sm_mount_total_bytes snap))),
      (''mount_available_bytes'', JNum (uint (sm_mount_available_bytes snap))),
      (''free_pct'', JNum (uint (free_pct snap)))]"
| "temp_evidence snap (FreeSpace pct threshold_pct) = JObj
     [(''trigger'', JStr ''free_space''),
      (''free_pct'', JNum (uint pct)),
      (''free_threshold_pct'', JNum (uint threshold_pct)),
      (''mount_available_bytes'', JNum (uint (sm_mount_available_bytes snap))),
      (''mount_total_bytes'', JNum (uint (sm_mount_total_bytes snap))),
      (''footprint_bytes'', JNum (uint (sm_footprint_bytes snap)))]"

definition temp_build_finding ::
  "datetime \<Rightarrow> temp_spill_config \<Rightarrow> temp_spill_sample \<Rightarrow> breach_reason \<Rightarrow> finding" where
  "temp_build_finding now cfg snap reason =
     \<lparr>f_schema_version = FINDING_SCHEMA_VERSION,
      f_rule_id = ''storage.temp_spill.capacity'',
      f_rule_version = 1,
      f_tier = Standard,
      f_severity = High,
      f_fired_at = now,
      f_pg_instance =
        \<lparr>inst_id = ts_pg_instance_id cfg, inst_db_name = None, inst_role = Role_Unknown\<rparr>,
      f_summary = temp_summary snap reason,
      f_evidence = temp_evidence snap reason,
      f_remediation =
        \<lparr>rem_text =
           ''Investigate the queries causing the spill (`pg_stat_database.temp_bytes`, `log_temp_files`). Resize the temp tablespace volume if traffic is expected to grow. Consider raising `work_mem` for the offending sessions to keep sorts/hashes in memory.'',
         rem_knobs = [''work_mem'', ''temp_tablespaces'', ''temp_file_limit'']\<rparr>,
      f_otel_attributes =
        btree_insert ''pgsleuth.temp_spill.trigger'' (Attr_String (rule_suffix reason))
          (btree_insert ''pgsleuth.pgdata'' (Attr_String (from_utf8_lossy (ts_pgdata cfg))) [])\<rparr>"

section \<open>The polling loop\<close>

definition temp_tick ::
  "temp_spill_config \<Rightarrow> bool \<Rightarrow> bool \<Rightarrow> temp_fs \<times> datetime \<Rightarrow> bool \<times> effect list" where
  "temp_tick cfg emitter firing inp =
     (case temp_sample (fst inp) (ts_pgdata cfg) of
        Inl _ \<Rightarrow> (firing, [])
      | Inr snap \<Rightarrow>
          (case (breaches snap cfg, firing) of
             (Some reason, False) \<Rightarrow>
               (True, report emitter (temp_build_finding (snd inp) cfg snap reason))
           | (None, True) \<Rightarrow> (False, [])
           | _ \<Rightarrow> (firing, [])))"

definition temp_spill_run ::
  "temp_spill_config \<Rightarrow> bool \<Rightarrow> (temp_fs \<times> datetime) list \<Rightarrow> effect list list runtime" where
  "temp_spill_run cfg emitter ticks =
     (if ts_interval_ms cfg = 0 then Rt_Panicked
      else Rt_Polls (tick_outs (temp_tick cfg emitter) False ticks))"

section \<open>Arithmetic of a sample\<close>

lemma unat_ucast_u128: "unat (ucast w :: u128) = unat w" for w :: u64
proof -
  have "unat w < 2 ^ 128"
    by (rule order.strict_trans2 [OF unat_less_pow]) simp
  then show ?thesis by (simp add: unsigned_ucast_eq take_bit_nat_eq_self)
qed

lemma unat_free_pct:
  "unat (free_pct s) =
     (if sm_mount_total_bytes s = 0 then 100
      else min 255 (unat (sm_mount_available_bytes s) * 100 div unat (sm_mount_total_bytes s)))"
proof -
  have "unat (sat_mul (ucast (sm_mount_available_bytes s) :: u128) 100) =
      unat (sm_mount_available_bytes s) * 100"
    using unat_u64_less [of "sm_mount_available_bytes s"]
    by (simp add: unat_simps unat_ucast_u128 del: unat_u64_less)
  then show ?thesis
    by (simp add: free_pct_def Let_def unat_div unat_ucast_u128 min_def unsigned_of_nat
        take_bit_nat_eq_self not_less)
qed

lemma free_pct_below:
  "free_pct s < thr \<longleftrightarrow>
     (if sm_mount_total_bytes s = 0 then 100 < unat thr
      else unat (sm_mount_available_bytes s) * 100 < unat thr * unat (sm_mount_total_bytes s))"
proof (cases "sm_mount_total_bytes s = 0")
  case True
  then show ?thesis by (simp add: word_less_nat_alt unat_free_pct)
next
  case False
  then have pos: "0 < unat (sm_mount_total_bytes s)" by (simp add: unat_gt_0)
  have "unat thr \<le> 255" using unat_u8_less [of thr] by linarith
  then have "free_pct s < thr \<longleftrightarrow>
      unat (sm_mount_available_bytes s) * 100 div unat (sm_mount_total_bytes s) < unat thr"
    using False by (auto simp: word_less_nat_alt unat_free_pct)
  then show ?thesis using False pos by (simp add: div_less_iff_less_mult)
qed

text \<open>The lengths the walk can see: regular files whose metadata can be read.\<close>

fun entry_len :: "walk_entry \<Rightarrow> nat" where
  "entry_len (Walk_Entry True (Some len)) = unat len"
| "entry_len _ = 0"

lemma unat_add_entry: "unat (add_entry a e) = min (2 ^ 64 - 1) (unat a + entry_len e)"
proof -
  have "unat a \<le> 2 ^ 64 - 1" using unat_le_max [of a] by simp
  then show ?thesis by (cases "(a, e)" rule: add_entry.cases) (simp_all add: unat_simps)
qed

lemma unat_fold_entries:
  "unat (foldl add_entry a es) = min (2 ^ 64 - 1) (unat a + sum_list (map entry_len es))"
proof (induction es arbitrary: a)
  case Nil
  have "unat a \<le> 2 ^ 64 - 1" using unat_le_max [of a] by simp
  then show ?case by simp
next
  case (Cons e es)
  then show ?case by (simp add: unat_add_entry min_def)
qed

section \<open>The loop against the history of samples\<close>

text \<open>What each successful sample of a history says, in order.\<close>

definition sample_reasons ::
  "temp_spill_config \<Rightarrow> (temp_fs \<times> datetime) list \<Rightarrow> breach_reason option list" where
  "sample_reasons cfg ts =
     concat (map (\<lambda>t. case temp_sample (fst t) (ts_pgdata cfg) of
       Inl _ \<Rightarrow> [] | Inr s \<Rightarrow> [breaches s cfg]) ts)"

definition latch_abs :: "temp_spill_config \<Rightarrow> (temp_fs \<times> datetime) list \<Rightarrow> bool" where
  "latch_abs cfg ts =
     (sample_reasons cfg ts \<noteq> [] \<and> last (sample_reasons cfg ts) \<noteq> None)"

definition temp_effects ::
  "temp_spill_config \<Rightarrow> bool \<Rightarrow> (temp_fs \<times> datetime) list \<Rightarrow> effect list" where
  "temp_effects cfg em ts =
     (case temp_sample (fst (last ts)) (ts_pgdata cfg) of
        Inl _ \<Rightarrow> []
      | Inr snap \<Rightarrow>
          (case breaches snap cfg of
             None \<Rightarrow> []
           | Some reason \<Rightarrow>
               if latch_abs cfg (butlast ts) then []
               else report em (temp_build_finding (snd (last ts)) cfg snap reason)))"

lemma temp_tick_abs:
  "temp_tick cfg em (latch_abs cfg ts) t = (latch_abs cfg (ts @ [t]), temp_effects cfg em (ts @ [t]))"
  by (cases "temp_sample (fst t) (ts_pgdata cfg)"; cases "latch_abs cfg ts")
    (auto simp: temp_tick_def temp_effects_def latch_abs_def sample_reasons_def
      split: option.splits)

interpretation temp_history: history_detector "temp_tick cfg em" False "latch_abs cfg"
  "temp_effects cfg em" for cfg em
proof unfold_locales
  show "latch_abs cfg [] = False" by (simp add: latch_abs_def sample_reasons_def)
qed (rule temp_tick_abs)

interpretation temp_sustained: sustained_alarm "temp_tick cfg em" False "latch_abs cfg"
  "temp_effects cfg em" "\<lambda>ts. if latch_abs cfg ts then 1 else 0" 1
  "reports_rule ''storage.temp_spill.capacity'' em" for cfg em
proof unfold_locales
  fix ts t
  assume "(if latch_abs cfg ts then 1 else 0) < (1 :: nat)"
    and "1 \<le> (if latch_abs cfg (ts @ [t]) then 1 else (0 :: nat))"
  then show "reports_rule ''storage.temp_spill.capacity'' em (temp_effects cfg em (ts @ [t]))"
    by (cases "temp_sample (fst t) (ts_pgdata cfg)")
      (auto simp: latch_abs_def sample_reasons_def temp_effects_def temp_build_finding_def
        split: if_splits option.splits)
qed (simp add: latch_abs_def sample_reasons_def)

definition temp_reports ::
  "temp_spill_config \<Rightarrow> bool \<Rightarrow> bool \<Rightarrow> temp_fs \<times> datetime \<Rightarrow> bool" where
  "temp_reports cfg em firing inp \<longleftrightarrow> snd (temp_tick cfg em firing inp) \<noteq> []"

definition back_under :: "temp_spill_config \<Rightarrow> bool \<Rightarrow> temp_fs \<times> datetime \<Rightarrow> bool" where
  "back_under cfg firing inp \<longleftrightarrow>
     firing \<and> (case temp_sample (fst inp) (ts_pgdata cfg) of
       Inl _ \<Rightarrow> False | Inr s \<Rightarrow> breaches s cfg = None)"

interpretation temp_alarm: edge_alarm "temp_tick cfg em" "temp_reports cfg em" Not
  "back_under cfg" for cfg em
  by unfold_locales
    (auto simp: temp_reports_def back_under_def temp_tick_def report_def
      split: sum.splits option.splits bool.splits)

section \<open>Properties\<close>

text \<open>
  C34. The thresholds, exactly: a sample breaches by footprint when the temporary files exceed the
  footprint threshold; otherwise by free space exactly when the free-space rule is on and
  \<open>100 * available < threshold * total\<close>, in exact arithmetic on volumes of any size (a mount of
  size zero counts as 100 percent free); otherwise not at all.
\<close>

theorem breaches_exact:
  "(breaches s cfg = Some (Footprint b t) \<longleftrightarrow>
      unat (ts_footprint_threshold_bytes cfg) < unat (sm_footprint_bytes s)
      \<and> b = sm_footprint_bytes s \<and> t = ts_footprint_threshold_bytes cfg) \<and>
   (breaches s cfg = Some (FreeSpace p q) \<longleftrightarrow>
      unat (sm_footprint_bytes s) \<le> unat (ts_footprint_threshold_bytes cfg)
      \<and> p = free_pct s \<and> q = ts_free_threshold_pct cfg \<and> 0 < unat q
      \<and> (if sm_mount_total_bytes s = 0 then 100 < unat q
         else 100 * unat (sm_mount_available_bytes s) < unat q * unat (sm_mount_total_bytes s)))"
proof
  show "breaches s cfg = Some (Footprint b t) \<longleftrightarrow>
      unat (ts_footprint_threshold_bytes cfg) < unat (sm_footprint_bytes s)
      \<and> b = sm_footprint_bytes s \<and> t = ts_footprint_threshold_bytes cfg"
    by (auto simp: breaches_def word_less_nat_alt)
  show "breaches s cfg = Some (FreeSpace p q) \<longleftrightarrow>
      unat (sm_footprint_bytes s) \<le> unat (ts_footprint_threshold_bytes cfg)
      \<and> p = free_pct s \<and> q = ts_free_threshold_pct cfg \<and> 0 < unat q
      \<and> (if sm_mount_total_bytes s = 0 then 100 < unat q
         else 100 * unat (sm_mount_available_bytes s) < unat q * unat (sm_mount_total_bytes s))"
    using free_pct_below [of s "ts_free_threshold_pct cfg"]
    by (auto simp: breaches_def word_less_nat_alt mult.commute unat_gt_0)
qed

text \<open>
  C35. The footprint is the sum of the lengths of the regular files whose metadata the walk could
  read, capped at \<open>u64::MAX\<close>, and 0 when the directory does not exist; unreadable entries and
  directories contribute nothing, and the order of the walk does not matter.
\<close>

theorem footprint_is_capped_sum:
  "unat (footprint fs pgdata) =
     (if tf_exists_at_walk fs (path_join pgdata ''base/pgsql_tmp'')
      then min (2 ^ 64 - 1)
        (\<Sum>e\<in>#mset (tf_walk fs (path_join pgdata ''base/pgsql_tmp'')). entry_len e)
      else 0)"
  by (simp add: footprint_def Let_def unat_fold_entries sum_mset_sum_list flip: mset_map)

text \<open>
  C8. The capacity alarm as a whole panics on an interval of zero; otherwise it never leaves its loop
  and reports on rising edges: a tick reports exactly when its sample
  could be taken and breaches, and the last successful sample before it (if any) did not. The
  finding carries this tick's sample and reason.
\<close>

theorem temp_spill_run_refines:
  "temp_spill_run cfg em ticks =
     (if ts_interval_ms cfg = 0 then Rt_Panicked
      else Rt_Polls (map (\<lambda>i. temp_effects cfg em (take (Suc i) ticks)) [0..<length ticks]))"
  by (simp add: temp_spill_run_def temp_history.outs_history)

text \<open>
  One finding per episode: over any list of ticks, the number of findings is at most one more
  than the number of successful samples that came back under both thresholds while the latch
  was set. A breach that lasts is reported once, also when it changes its reason.
\<close>

lemma temp_spill_reports_bounded:
  "temp_spill_run cfg em ticks = Rt_Polls outs \<Longrightarrow>
   length (filter (\<lambda>es. es \<noteq> []) outs) \<le>
     Suc (count_ticks (temp_tick cfg em) (back_under cfg) False ticks)"
proof -
  assume run: "temp_spill_run cfg em ticks = Rt_Polls outs"
  have "length (filter (\<lambda>es. es \<noteq> []) (tick_outs (temp_tick cfg em) s ticks)) =
      count_ticks (temp_tick cfg em) (temp_reports cfg em) s ticks" for s
    by (induction ticks arbitrary: s) (simp_all add: temp_reports_def)
  then show ?thesis
    using temp_alarm.fires_bounded [of cfg em False ticks] run
    by (auto simp: temp_spill_run_def split: if_splits)
qed

end
