(* ===== verification/Window.thy ===== *)
theory Window
  imports Edge_Alarm
begin

text \<open>
  \<open>crates/pgsleuth-core/src/window.rs\<close>: the consecutive-breach counter used by the
  fsync-jitter, connection-storm and cgroup-throttle rules. The reference it is proved against
  is the length of the run of breaches that ends the whole history of observations.
\<close>

section \<open>The counter\<close>

record breach_counter =
  bc_streak :: u32
  bc_fired_this_run :: bool

definition breach_counter_default :: breach_counter where
  "breach_counter_default = \<lparr>bc_streak = 0, bc_fired_this_run = False\<rparr>"

datatype breach_state = Building u32 | JustFired u32 | StillFiring u32 | Reset

definition observe :: "u32 \<Rightarrow> breach_counter \<Rightarrow> bool \<Rightarrow> breach_counter \<times> breach_state" where
  "observe fire_after c breached =
     (if \<not> breached then (c\<lparr>bc_streak := 0, bc_fired_this_run := False\<rparr>, Reset)
      else
        let c = c\<lparr>bc_streak := sat_add (bc_streak c) 1\<rparr> in
        if bc_streak c < fire_after then (c, Building (bc_streak c))
        else if bc_fired_this_run c then (c, StillFiring (bc_streak c))
        else (c\<lparr>bc_fired_this_run := True\<rparr>, JustFired (bc_streak c)))"

definition counter_streak :: "breach_counter \<Rightarrow> u32" where
  "counter_streak c = bc_streak c"

definition counter_is_firing :: "breach_counter \<Rightarrow> bool" where
  "counter_is_firing c = bc_fired_this_run c"

definition just_fired :: "breach_state \<Rightarrow> bool" where
  "just_fired s = (case s of JustFired _ \<Rightarrow> True | _ \<Rightarrow> False)"

lemma just_fired_simps [simp]:
  "just_fired (JustFired n)" "\<not> just_fired (Building n)" "\<not> just_fired (StillFiring n)"
  "\<not> just_fired Reset"
  by (simp_all add: just_fired_def)

section \<open>The reference: the breach run that ends a history\<close>

definition run_len :: "bool list \<Rightarrow> nat" where
  "run_len bs = length (takeWhile id (rev bs))"

lemma run_len_simps [simp]:
  "run_len [] = 0"
  "run_len (bs @ [True]) = Suc (run_len bs)"
  "run_len (bs @ [False]) = 0"
  by (simp_all add: run_len_def)

lemma run_len_snoc: "run_len (bs @ [b]) = (if b then Suc (run_len bs) else 0)"
  by (cases b) simp_all

lemma run_len_mono:
  "\<forall>x\<in>set xs. P x \<longrightarrow> Q x \<Longrightarrow> run_len (map P xs) \<le> run_len (map Q xs)"
  by (induction xs rule: rev_induct) (auto simp: run_len_snoc)

definition u32_cap :: "nat \<Rightarrow> u32" where
  "u32_cap n = of_nat (min n (2 ^ 32 - 1))"

lemma unat_u32_cap [unat_simps]: "unat (u32_cap n) = min n (2 ^ 32 - 1)"
  using unat_of_nat_min [where 'a = 32] by (simp add: u32_cap_def)

lemma u32_cap_0 [simp]: "u32_cap 0 = 0"
  by (simp add: u32_cap_def)

lemma sat_add_u32_cap: "sat_add (u32_cap n) 1 = u32_cap (Suc n)"
proof -
  have "unat (sat_add (u32_cap n) 1) = unat (u32_cap (Suc n))"
    by (simp add: unat_simps)
  then show ?thesis by (simp only: word_unat_eq_iff)
qed

lemma u32_cap_less: "u32_cap n < m \<longleftrightarrow> n < unat m"
  using unat_u32_less [of m] by (auto simp del: unat_u32_less simp: word_less_nat_alt unat_simps)

text \<open>The state and the answer the counter must have after a history of observations.\<close>

definition counter_abs :: "u32 \<Rightarrow> bool list \<Rightarrow> breach_counter" where
  "counter_abs fire_after bs =
     \<lparr>bc_streak = u32_cap (run_len bs),
      bc_fired_this_run = (0 < run_len bs \<and> unat fire_after \<le> run_len bs)\<rparr>"

definition counter_answer :: "u32 \<Rightarrow> bool list \<Rightarrow> breach_state" where
  "counter_answer fire_after bs =
     (let r = run_len bs; n = max 1 (unat fire_after) in
      if r = 0 then Reset
      else if r < n then Building (u32_cap r)
      else if r = n then JustFired (u32_cap r)
      else StillFiring (u32_cap r))"

lemma counter_abs_default: "counter_abs n [] = breach_counter_default"
  by (simp add: counter_abs_def breach_counter_default_def)

lemma observe_abs:
  "observe n (counter_abs n bs) b = (counter_abs n (bs @ [b]), counter_answer n (bs @ [b]))"
  by (auto simp: observe_def counter_abs_def counter_answer_def Let_def run_len_snoc
      sat_add_u32_cap u32_cap_less not_less max_def)

interpretation breach_history: history_detector "observe n" breach_counter_default
  "counter_abs n" "counter_answer n" for n
  by unfold_locales (simp_all add: counter_abs_default observe_abs)

interpretation breach_alarm: edge_alarm "observe n"
  "\<lambda>c b. just_fired (snd (observe n c b))" "\<lambda>c. \<not> bc_fired_this_run c" "\<lambda>c b. \<not> b" for n
  by unfold_locales (auto simp: observe_def Let_def split: if_splits)

lemma just_fired_answer:
  "just_fired (counter_answer n bs) \<longleftrightarrow> run_len bs = max 1 (unat n)"
  by (auto simp: counter_answer_def Let_def)

lemma counter_answer_JustFired:
  "counter_answer n bs = JustFired s \<longleftrightarrow> run_len bs = max 1 (unat n) \<and> s = u32_cap (run_len bs)"
  by (auto simp: counter_answer_def Let_def)

lemma counter_answer_JustFired_streak:
  "counter_answer n bs = JustFired s \<Longrightarrow> s = max 1 n"
  using unat_u32_less [of n]
  by (auto simp del: unat_u32_less simp: counter_answer_JustFired word_unat_eq_iff unat_simps max_def word_le_nat_alt)

text \<open>
  How the rules use the counter: they act when the answer is \<open>JustFired\<close>, which is when the run of
  breaches ends at exactly \<open>max 1 fire_after\<close>, and the streak they are given is that number.
\<close>

lemma case_JustFired:
  "(case counter_answer n bs of JustFired s \<Rightarrow> f s | _ \<Rightarrow> []) =
     (if run_len bs = max 1 (unat n) then f (max 1 n) else [])"
proof (cases "run_len bs = max 1 (unat n)")
  case True
  then have fired: "counter_answer n bs = JustFired (u32_cap (run_len bs))"
    by (simp add: counter_answer_JustFired)
  then have "u32_cap (run_len bs) = max 1 n" by (rule counter_answer_JustFired_streak)
  with True fired show ?thesis by simp
next
  case False
  then have "\<not> just_fired (counter_answer n bs)" by (simp add: just_fired_answer)
  with False show ?thesis by (auto simp: just_fired_def split: breach_state.splits)
qed

text \<open>A run of breaches that reaches the due length is answered by \<open>JustFired\<close>.\<close>

lemma run_len_reaches:
  "run_len bs < m \<Longrightarrow> m \<le> run_len (bs @ [b]) \<Longrightarrow> run_len (bs @ [b]) = m"
  by (simp add: run_len_snoc split: if_splits)

interpretation breach_sustained: sustained_alarm "observe n" breach_counter_default
  "counter_abs n" "counter_answer n" run_len "max 1 (unat n)" just_fired for n
proof unfold_locales
  fix bs b
  assume "run_len bs < max 1 (unat n)" and "max 1 (unat n) \<le> run_len (bs @ [b])"
  then have "run_len (bs @ [b]) = max 1 (unat n)" by (rule run_len_reaches)
  then show "just_fired (counter_answer n (bs @ [b]))" by (simp only: just_fired_answer)
qed simp

section \<open>Properties\<close>

text \<open>
  C1. The counter computes what its documentation promises of the whole history: after any list of
  observations, the answer to the last one depends only on the length \<open>r\<close> of the run of breaches
  that ends the list. It is Reset for \<open>r = 0\<close>, Building below \<open>max 1 fire_after\<close>, JustFired at
  exactly that length, StillFiring beyond; the streak shown is \<open>r\<close>, capped at \<open>u32::MAX\<close>.
\<close>

theorem observe_refines_run_length:
  "tick_outs (observe n) breach_counter_default bs =
     map (\<lambda>i. counter_answer n (take (Suc i) bs)) [0..<length bs]"
  by (rule breach_history.outs_history)

text \<open>
  The accessors agree with the history: \<open>streak()\<close> is the length of the run of breaches that
  ends the history (capped at \<open>u32::MAX\<close>), and \<open>is_firing()\<close> holds exactly when that run is not
  empty and has reached \<open>fire_after\<close>.
\<close>

lemma counter_accessors:
  "unat (counter_streak (after (observe n) breach_counter_default bs)) = min (run_len bs) (2 ^ 32 - 1)
   \<and> counter_is_firing (after (observe n) breach_counter_default bs) =
       (0 < run_len bs \<and> unat n \<le> run_len bs)"
  by (simp only: breach_history.after_init)
    (simp add: counter_streak_def counter_is_firing_def counter_abs_def unat_simps)

text \<open>
  Re-arming: between two \<open>JustFired\<close> answers there is an observation without a breach, whatever
  the state the counter started in; so one sustained breach makes one finding.
\<close>

lemma one_fire_per_run:
  assumes "just_fired (snd (observe n c b))"
    and "just_fired (snd (observe n (after (observe n) (fst (observe n c b)) bs) b'))"
  shows "False \<in> set (bs @ [b'])"
proof -
  have count: "count_ticks (observe n) (\<lambda>_ b. \<not> b) c xs = 0" if "False \<notin> set xs" for c xs
    using that by (induction xs arbitrary: c) auto
  show ?thesis
    using breach_alarm.rearm_between_fires [OF assms] count by (cases "False \<in> set (bs @ [b'])") force+
qed

lemma one_fire_per_run_witness:
  "False \<in> set ([False] @ [True])"
proof (rule one_fire_per_run)
  show "just_fired (snd (observe 1 breach_counter_default True))"
    by (simp add: observe_def breach_counter_default_def sat_add_def)
  show "just_fired (snd (observe 1 (after (observe 1)
      (fst (observe 1 breach_counter_default True)) [False]) True))"
    by (simp add: observe_def breach_counter_default_def sat_add_def)
qed

end
