(* ===== verification/Cgroup_Throttle.thy ===== *)
theory Cgroup_Throttle
  imports Window Finding Pg_Version
begin

text \<open>
  \<open>crates/pgsleuth-cli/src/cgroup_throttle.rs\<close>: reading \<open>cpu.stat\<close>, the throttle rate of an
  interval, and the polling loop of the cgroup-throttle alarm. The file system is a parameter:
  a tick is given the contents of the file, or None when it could not be read.
\<close>

section \<open>\<open>cpu.stat\<close>\<close>

record cpu_stat =
  nr_periods :: u64
  nr_throttled :: u64
  throttled_usec :: u64

definition cpu_stat_default :: cpu_stat where
  "cpu_stat_default = \<lparr>nr_periods = 0, nr_throttled = 0, throttled_usec = 0\<rparr>"

definition cpu_stat_line :: "cpu_stat \<Rightarrow> string \<Rightarrow> cpu_stat" where
  "cpu_stat_line out line =
     (case split_whitespace line of
        key # val # _ \<Rightarrow>
          (case parse_uint (2 ^ 64) val of
             None \<Rightarrow> out
           | Some n \<Rightarrow>
               if key = ''nr_periods'' then out\<lparr>nr_periods := of_nat n\<rparr>
               else if key = ''nr_throttled'' then out\<lparr>nr_throttled := of_nat n\<rparr>
               else if key = ''throttled_usec'' then out\<lparr>throttled_usec := of_nat n\<rparr>
               else out)
      | _ \<Rightarrow> out)"

definition cpu_stat_parse :: "string \<Rightarrow> cpu_stat" where
  "cpu_stat_parse s = foldl cpu_stat_line cpu_stat_default (lines s)"

definition read_cpu_stat :: "string \<Rightarrow> string option \<Rightarrow> agent_error + cpu_stat" where
  "read_cpu_stat path contents =
     (case contents of
        None \<Rightarrow> Inl (Io_Failed (''failed to read '' @ path))
      | Some s \<Rightarrow> Inr (cpu_stat_parse s))"

section \<open>The rate of an interval\<close>

record breach_value =
  bv_throttled_usec_delta :: u64
  bv_throttled_ms_per_sec :: u64
  bv_periods_delta :: u64
  bv_throttled_periods_delta :: u64

definition breach_value_of :: "cpu_stat option \<Rightarrow> cpu_stat \<Rightarrow> u64 \<Rightarrow> breach_value option" where
  "breach_value_of prev cur interval_ms =
     (case prev of
        None \<Rightarrow> None
      | Some p \<Rightarrow>
          let throttled_usec_delta = sat_sub (throttled_usec cur) (throttled_usec p);
              throttled_ms_per_sec =
                (case checked_div throttled_usec_delta interval_ms of None \<Rightarrow> 0 | Some q \<Rightarrow> q)
          in Some
            \<lparr>bv_throttled_usec_delta = throttled_usec_delta,
             bv_throttled_ms_per_sec = throttled_ms_per_sec,
             bv_periods_delta = sat_sub (nr_periods cur) (nr_periods p),
             bv_throttled_periods_delta = sat_sub (nr_throttled cur) (nr_throttled p)\<rparr>)"

definition cgroup_build_finding ::
  "datetime \<Rightarrow> string \<Rightarrow> breach_value \<Rightarrow> u64 \<Rightarrow> u32 \<Rightarrow> u64 \<Rightarrow> finding" where
  "cgroup_build_finding now pg_instance b threshold streak interval_ms =
     \<lparr>f_schema_version = FINDING_SCHEMA_VERSION,
      f_rule_id = ''cpu.cgroup.throttle'',
      f_rule_version = 1,
      f_tier = Standard,
      f_severity = High,
      f_fired_at = now,
      f_pg_instance = \<lparr>inst_id = pg_instance, inst_db_name = None, inst_role = Role_Unknown\<rparr>,
      f_summary =
        ''Cgroup throttled '' @ dec (unat (bv_throttled_ms_per_sec b)) @ ''ms/sec > ''
        @ dec (unat threshold) @ ''ms/sec threshold for '' @ dec (unat streak)
        @ '' consecutive '' @ dec (unat interval_ms) @ ''ms intervals'',
      f_evidence = JObj
        [(''throttled_ms_per_sec'', JNum (uint (bv_throttled_ms_per_sec b))),
         (''throttled_usec_delta'', JNum (uint (bv_throttled_usec_delta b))),
         (''periods_delta'', JNum (uint (bv_periods_delta b))),
         (''throttled_periods_delta'', JNum (uint (bv_throttled_periods_delta b))),
         (''threshold_ms_per_sec'', JNum (uint threshold)),
         (''streak_intervals'', JNum (uint streak)),
         (''interval_ms'', JNum (uint interval_ms)),
         (''eBPF_correlation'', JBool False)],
      f_remediation =
        \<lparr>rem_text =
           ''Raise the cgroup's CFS CPU quota or migrate to a node with more CPU headroom. Latency spikes correlated with throttle windows are root-cause; inside-PG metrics will look healthy.'',
         rem_knobs = [''cpu.max'', ''limits.cpu (K8s)'']\<rparr>,
      f_otel_attributes =
        btree_insert ''pgsleuth.cgroup.throttle.eBPF_correlation'' (Attr_Bool False) []\<rparr>"

section \<open>The polling loop\<close>

record cgroup_loop =
  cgl_counter :: breach_counter
  cgl_prev :: "cpu_stat option"

definition cgroup_loop_init :: cgroup_loop where
  "cgroup_loop_init = \<lparr>cgl_counter = breach_counter_default, cgl_prev = None\<rparr>"

definition over_threshold :: "u64 \<Rightarrow> breach_value option \<Rightarrow> bool" where
  "over_threshold threshold breach =
     (case breach of None \<Rightarrow> False | Some b \<Rightarrow> threshold < bv_throttled_ms_per_sec b)"

definition cgroup_tick ::
  "string \<Rightarrow> u64 \<Rightarrow> u64 \<Rightarrow> u32 \<Rightarrow> string \<Rightarrow> bool \<Rightarrow> cgroup_loop \<Rightarrow> string option \<times> datetime
   \<Rightarrow> cgroup_loop \<times> effect list" where
  "cgroup_tick cpu_stat_path interval_ms threshold fire_after pg_instance_id emitter st inp =
     (case read_cpu_stat cpu_stat_path (fst inp) of
        Inl _ \<Rightarrow> (st, [])
      | Inr cur \<Rightarrow>
          let breach = breach_value_of (cgl_prev st) cur interval_ms;
              breached = over_threshold threshold breach;
              r = observe fire_after (cgl_counter st) breached
          in (\<lparr>cgl_counter = fst r, cgl_prev = Some cur\<rparr>,
              case snd r of
                JustFired streak \<Rightarrow>
                  (case breach of
                     None \<Rightarrow> []
                   | Some b \<Rightarrow>
                       report emitter
                         (cgroup_build_finding (snd inp) pg_instance_id b threshold streak interval_ms))
              | _ \<Rightarrow> []))"

definition cgroup_throttle_run ::
  "string \<Rightarrow> u64 \<Rightarrow> u64 \<Rightarrow> u32 \<Rightarrow> string \<Rightarrow> bool \<Rightarrow> (string option \<times> datetime) list
   \<Rightarrow> effect list list runtime" where
  "cgroup_throttle_run cpu_stat_path interval_ms threshold fire_after pg_instance_id emitter ticks =
     (if interval_ms = 0 then Rt_Panicked
      else Rt_Polls (tick_outs
        (cgroup_tick cpu_stat_path interval_ms threshold fire_after pg_instance_id emitter)
        cgroup_loop_init ticks))"

section \<open>Reading what the kernel wrote\<close>

definition stat_line :: "string \<times> nat \<Rightarrow> string" where
  "stat_line kv = fst kv @ CHR '' '' # dec (snd kv) @ [CHR 0x0A]"

definition last_value :: "string \<Rightarrow> (string \<times> nat) list \<Rightarrow> u64" where
  "last_value k kvs = (case map_of (rev kvs) k of None \<Rightarrow> 0 | Some n \<Rightarrow> of_nat n)"

definition stat_entry :: "string \<times> nat \<Rightarrow> bool" where
  "stat_entry kv \<longleftrightarrow> fst kv \<noteq> [] \<and> list_all visible (fst kv) \<and> snd kv < 2 ^ 64"

lemma visible_no_newline: "visible c \<Longrightarrow> c \<noteq> CHR 0x0A \<and> c \<noteq> CHR 0x0D"
  by (auto simp: visible_def code_def)

lemma dec_visible: "c \<in> set (dec n) \<Longrightarrow> visible c"
  by (blast dest: dec_digits digit_visible)

lemma lines_stat_line:
  assumes "stat_entry kv"
  shows "lines (stat_line kv @ s) = (fst kv @ CHR '' '' # dec (snd kv)) # lines s"
proof -
  let ?l = "fst kv @ CHR '' '' # dec (snd kv)"
  have vis: "visible c \<or> c = CHR '' ''" if "c \<in> set ?l" for c
    using that assms dec_visible by (auto simp: stat_entry_def list_all_iff)
  then have "CHR 0x0A \<notin> set ?l" using visible_no_newline by fastforce
  then have "lines (?l @ CHR 0x0A # s) = strip_cr ?l # lines s" by (rule lines_line)
  moreover have "last ?l \<noteq> CHR 0x0D"
    using visible_no_newline [OF dec_visible [OF last_in_set [OF dec_not_Nil]], of "snd kv"]
    by simp
  ultimately show ?thesis by (simp add: stat_line_def strip_cr_def)
qed

lemma split_stat_line:
  assumes "stat_entry kv"
  shows "split_whitespace (fst kv @ CHR '' '' # dec (snd kv)) = [fst kv, dec (snd kv)]"
proof -
  have "split_whitespace (fst kv @ CHR '' '' # dec (snd kv)) =
      fst kv # split_whitespace (CHR '' '' # dec (snd kv))"
    using assms
    by (intro split_whitespace_token) (auto simp: stat_entry_def list_all_iff ws_head_space)
  also have "split_whitespace (CHR '' '' # dec (snd kv)) = [dec (snd kv)]"
    using split_whitespace_token [of "dec (snd kv)" "[]"] by (auto dest: dec_visible)
  finally show ?thesis .
qed

definition stat_of :: "(string \<times> nat) list \<Rightarrow> cpu_stat" where
  "stat_of kvs =
     \<lparr>nr_periods = last_value ''nr_periods'' kvs,
      nr_throttled = last_value ''nr_throttled'' kvs,
      throttled_usec = last_value ''throttled_usec'' kvs\<rparr>"

lemma stat_of_snoc:
  assumes "stat_entry kv"
  shows "cpu_stat_line (stat_of kvs) (fst kv @ CHR '' '' # dec (snd kv)) = stat_of (kvs @ [kv])"
proof -
  have "parse_uint (2 ^ 64) (dec (snd kv)) = Some (snd kv)"
    using assms by (intro parse_uint_dec) (simp add: stat_entry_def)
  then show ?thesis
    by (auto simp: cpu_stat_line_def split_stat_line [OF assms] stat_of_def last_value_def)
qed

lemma parse_lines_stat:
  assumes "\<forall>kv\<in>set kvs. stat_entry kv"
  shows "foldl cpu_stat_line (stat_of done) (lines (concat (map stat_line kvs))) = stat_of (done @ kvs)"
  using assms
proof (induction kvs arbitrary: "done")
  case (Cons kv kvs)
  then show ?case
    using Cons.IH [of "done @ [kv]"] by (simp add: lines_stat_line stat_of_snoc)
qed simp

lemma parse_stat_of:
  assumes "\<forall>kv\<in>set kvs. stat_entry kv"
  shows "cpu_stat_parse (concat (map stat_line kvs)) = stat_of kvs"
proof -
  have "stat_of [] = cpu_stat_default"
    by (simp add: stat_of_def last_value_def cpu_stat_default_def)
  then show ?thesis
    using parse_lines_stat [OF assms, of "[]"] by (simp add: cpu_stat_parse_def)
qed

section \<open>The loop against the history of reads\<close>

definition good_reads :: "(string option \<times> datetime) list \<Rightarrow> cpu_stat list" where
  "good_reads ts = map cpu_stat_parse (somes (map fst ts))"

text \<open>The interval values of a list of reads: the first read has none, each later one the
  difference to the read before it.\<close>

definition interval_values :: "u64 \<Rightarrow> cpu_stat list \<Rightarrow> breach_value option list" where
  "interval_values interval_ms rs =
     map (\<lambda>i. breach_value_of (if i = 0 then None else Some (rs ! (i - 1))) (rs ! i) interval_ms)
       [0..<length rs]"

lemma interval_values_Nil [simp]: "interval_values iv [] = []"
  by (simp add: interval_values_def)

lemma interval_values_snoc:
  "interval_values iv (rs @ [r]) =
     interval_values iv rs
     @ [breach_value_of (if rs = [] then None else Some (last rs)) r iv]"
  by (auto simp: interval_values_def nth_append last_conv_nth)

definition cgroup_breaches :: "u64 \<Rightarrow> u64 \<Rightarrow> (string option \<times> datetime) list \<Rightarrow> bool list" where
  "cgroup_breaches iv thr ts = map (over_threshold thr) (interval_values iv (good_reads ts))"

definition cgroup_loop_abs ::
  "u64 \<Rightarrow> u64 \<Rightarrow> u32 \<Rightarrow> (string option \<times> datetime) list \<Rightarrow> cgroup_loop" where
  "cgroup_loop_abs iv thr n ts =
     \<lparr>cgl_counter = counter_abs n (cgroup_breaches iv thr ts),
      cgl_prev = (if good_reads ts = [] then None else Some (last (good_reads ts)))\<rparr>"

definition cgroup_effects ::
  "u64 \<Rightarrow> u64 \<Rightarrow> u32 \<Rightarrow> string \<Rightarrow> bool \<Rightarrow> (string option \<times> datetime) list \<Rightarrow> effect list" where
  "cgroup_effects iv thr n inst em ts =
     (if fst (last ts) \<noteq> None \<and> run_len (cgroup_breaches iv thr ts) = max 1 (unat n) then
        (case last (interval_values iv (good_reads ts)) of
           None \<Rightarrow> []
         | Some b \<Rightarrow> report em (cgroup_build_finding (snd (last ts)) inst b thr (max 1 n) iv))
      else [])"

lemma good_reads_snoc:
  "good_reads (ts @ [t]) =
     good_reads ts @ (case fst t of None \<Rightarrow> [] | Some s \<Rightarrow> [cpu_stat_parse s])"
  by (cases "fst t") (simp_all add: good_reads_def)

lemma cgroup_tick_abs:
  "cgroup_tick path iv thr n inst em (cgroup_loop_abs iv thr n ts) t =
     (cgroup_loop_abs iv thr n (ts @ [t]), cgroup_effects iv thr n inst em (ts @ [t]))"
proof (cases "fst t")
  case None
  then show ?thesis
    by (simp add: cgroup_tick_def read_cpu_stat_def cgroup_effects_def cgroup_loop_abs_def
        cgroup_breaches_def good_reads_snoc)
next
  case (Some s)
  let ?v = "breach_value_of (cgl_prev (cgroup_loop_abs iv thr n ts)) (cpu_stat_parse s) iv"
  have vals: "interval_values iv (good_reads (ts @ [t])) = interval_values iv (good_reads ts) @ [?v]"
    using Some by (simp add: good_reads_snoc interval_values_snoc cgroup_loop_abs_def)
  then have bs: "cgroup_breaches iv thr (ts @ [t]) =
      cgroup_breaches iv thr ts @ [over_threshold thr ?v]"
    by (simp add: cgroup_breaches_def)
  have "cgroup_tick path iv thr n inst em (cgroup_loop_abs iv thr n ts) t =
      (\<lparr>cgl_counter = counter_abs n (cgroup_breaches iv thr (ts @ [t])),
        cgl_prev = Some (cpu_stat_parse s)\<rparr>,
       if run_len (cgroup_breaches iv thr (ts @ [t])) = max 1 (unat n)
       then (case ?v of None \<Rightarrow> []
         | Some b \<Rightarrow> report em (cgroup_build_finding (snd t) inst b thr (max 1 n) iv))
       else [])"
    using Some
    by (simp add: cgroup_tick_def read_cpu_stat_def Let_def cgroup_loop_abs_def observe_abs
        case_JustFired bs)
  then show ?thesis
    using Some
    by (simp add: cgroup_effects_def vals cong: option.case_cong)
      (simp add: cgroup_loop_abs_def good_reads_snoc)
qed

interpretation cgroup_history: history_detector "cgroup_tick path iv thr n inst em"
  cgroup_loop_init "cgroup_loop_abs iv thr n" "cgroup_effects iv thr n inst em"
  for path iv thr n inst em
proof unfold_locales
  show "cgroup_loop_abs iv thr n [] = cgroup_loop_init"
    by (simp add: cgroup_loop_abs_def cgroup_loop_init_def good_reads_def cgroup_breaches_def
        counter_abs_default)
qed (rule cgroup_tick_abs)

interpretation cgroup_sustained: sustained_alarm "cgroup_tick path iv thr n inst em"
  cgroup_loop_init "cgroup_loop_abs iv thr n" "cgroup_effects iv thr n inst em"
  "\<lambda>ts. run_len (cgroup_breaches iv thr ts)" "max 1 (unat n)"
  "reports_rule ''cpu.cgroup.throttle'' em" for path iv thr n inst em
proof unfold_locales
  fix ts t
  let ?m = "max 1 (unat n)" and ?bs = "cgroup_breaches iv thr"
  assume below: "run_len (?bs ts) < ?m" and due: "?m \<le> run_len (?bs (ts @ [t]))"
  from less_le_trans [OF this] obtain s where s: "fst t = Some s"
    by (cases "fst t") (simp_all add: cgroup_breaches_def good_reads_snoc)
  define v where "v = last (interval_values iv (good_reads (ts @ [t])))"
  have bs: "?bs (ts @ [t]) = ?bs ts @ [over_threshold thr v]"
    using s by (simp add: v_def cgroup_breaches_def good_reads_snoc interval_values_snoc)
  then have len: "run_len (?bs (ts @ [t])) = ?m"
    using run_len_reaches [of _ ?m] below due by (simp only:)
  then have "over_threshold thr v" using bs by (cases "over_threshold thr v") simp_all
  then obtain b where "v = Some b" by (cases v) (simp_all add: over_threshold_def)
  then show "reports_rule ''cpu.cgroup.throttle'' em (cgroup_effects iv thr n inst em (ts @ [t]))"
    using s len by (auto simp: cgroup_effects_def v_def cgroup_build_finding_def)
qed (simp add: cgroup_breaches_def good_reads_def)

lemma over_threshold_iff:
  "over_threshold thr (Some b) \<longleftrightarrow> unat thr < unat (bv_throttled_ms_per_sec b)"
  by (simp add: over_threshold_def word_less_nat_alt)

lemma failed_reads_keep_state:
  "after (cgroup_tick path iv thr n inst em) st (map (\<lambda>now. (None, now)) nows) = st"
  by (induction nows) (simp_all add: cgroup_tick_def read_cpu_stat_def)

section \<open>Properties\<close>

text \<open>
  C29. Reading back what the kernel writes: on any sequence of \<open>key value\<close> lines (keys of visible
  ASCII, 64-bit values), in any order and with any number of keys the agent does not know, the
  parser returns the last value given for each of the three keys it knows, and 0 for a missing one.
\<close>

theorem cpu_stat_parse_roundtrip:
  assumes "\<forall>kv\<in>set kvs. stat_entry kv"
  shows "cpu_stat_parse (concat (map stat_line kvs)) =
    \<lparr>nr_periods = last_value ''nr_periods'' kvs,
     nr_throttled = last_value ''nr_throttled'' kvs,
     throttled_usec = last_value ''throttled_usec'' kvs\<rparr>"
  using parse_stat_of [OF assms] by (simp add: stat_of_def)

theorem cpu_stat_parse_roundtrip_witness:
  "cpu_stat_parse (concat (map stat_line
      [(''usage_usec'', 12345), (''nr_periods'', 1000), (''nr_throttled'', 5),
       (''throttled_usec'', 250000)])) =
    \<lparr>nr_periods = 1000, nr_throttled = 5, throttled_usec = 250000\<rparr>"
  by (subst cpu_stat_parse_roundtrip)
    (simp_all add: stat_entry_def visible_def code_def last_value_def)

text \<open>
  C9. The cgroup-throttle alarm as a whole: it panics on an interval of zero; otherwise it never leaves
  its loop and, from its start, the outputs of every tick are a
  function of the contents read so far. A tick reports exactly when its read succeeded and ends a
  run of exactly \<open>max 1 fire_after\<close> consecutive readable intervals above the threshold; the
  finding carries that last interval's values. Failed reads neither extend nor break the run.
\<close>

theorem cgroup_throttle_run_refines:
  "cgroup_throttle_run path iv thr n inst em ticks =
     (if iv = 0 then Rt_Panicked
      else Rt_Polls (map (\<lambda>i. cgroup_effects iv thr n inst em (take (Suc i) ticks))
                       [0..<length ticks]))"
  by (simp add: cgroup_throttle_run_def cgroup_history.outs_history)

text \<open>
  C33. What counts as a breach: between two reads with the given polling interval, an interval is
  above the threshold exactly when the throttled time grew by at least
  \<open>(threshold + 1) * interval_ms\<close> microseconds, and never when the interval is zero (the division
  is checked) or the counter went backwards. The rate is truncated to whole milliseconds per second
  before it is compared, so a rate above the threshold by less than one does not breach, although
  the help of \<open>--throttled-ms-per-sec-threshold\<close> says that the alarm fires when the threshold is
  exceeded: 50500 us in an interval of 1000 ms do not exceed a threshold of 50.
\<close>

theorem cgroup_breach_exact:
  "over_threshold thr (breach_value_of (Some p) cur iv) \<longleftrightarrow>
     iv \<noteq> 0 \<and> unat (throttled_usec p) + (unat thr + 1) * unat iv \<le> unat (throttled_usec cur)"
proof (cases "iv = 0")
  case True
  then show ?thesis
    by (simp add: over_threshold_def breach_value_of_def Let_def checked_div_def)
next
  case False
  then have pos: "0 < unat iv" by (simp add: unat_gt_0)
  have "over_threshold thr (breach_value_of (Some p) cur iv) \<longleftrightarrow>
      unat thr < (unat (throttled_usec cur) - unat (throttled_usec p)) div unat iv"
    using False
    by (simp add: over_threshold_iff breach_value_of_def Let_def checked_div_def unat_div
        unat_simps)
  also have "\<dots> \<longleftrightarrow> (unat thr + 1) * unat iv
      \<le> unat (throttled_usec cur) - unat (throttled_usec p)"
    using less_eq_div_iff_mult_less_eq [OF pos, of "unat thr + 1"] by (simp add: Suc_le_eq)
  also have "\<dots> \<longleftrightarrow> unat (throttled_usec p) + (unat thr + 1) * unat iv \<le> unat (throttled_usec cur)"
    using pos by auto
  finally show ?thesis using False by simp
qed

text \<open>
  C38. The rate is not normalised over failed reads: when \<open>k\<close> reads fail between two good ones and
  the cgroup is throttled for \<open>d\<close> microseconds in each interval, the rate the next good read is
  judged by is \<open>(k + 1) * d\<close> divided by the length of one interval, \<open>k + 1\<close> times the true one.
\<close>

theorem skipped_reads_inflate_rate:
  assumes "cgl_prev st = Some p"
    and "length nows = k"
    and "iv \<noteq> 0"
    and "unat (throttled_usec cur) = unat (throttled_usec p) + (k + 1) * d"
  shows "map_option (\<lambda>b. unat (bv_throttled_ms_per_sec b))
      (breach_value_of
        (cgl_prev (after (cgroup_tick path iv thr n inst em) st (map (\<lambda>now. (None, now)) nows)))
        cur iv) =
    Some ((k + 1) * d div unat iv)"
  using assms
  by (simp add: failed_reads_keep_state breach_value_of_def Let_def checked_div_def unat_div
      unat_simps)

theorem skipped_reads_inflate_rate_witness:
  "map_option (\<lambda>b. unat (bv_throttled_ms_per_sec b))
      (breach_value_of
        (cgl_prev (after (cgroup_tick ''cpu.stat'' 1000 50 3 ''pg'' True)
           \<lparr>cgl_counter = breach_counter_default, cgl_prev = Some cpu_stat_default\<rparr>
           (map (\<lambda>now. (None, now)) (replicate 3 \<lparr>dt_timestamp = 0, dt_subsec_nanos = 0\<rparr>))))
        \<lparr>nr_periods = 0, nr_throttled = 0, throttled_usec = 120000\<rparr> 1000) =
    Some ((3 + 1) * 30000 div unat (1000 :: u64))"
  by (rule skipped_reads_inflate_rate [where p = cpu_stat_default])
    (simp_all add: cpu_stat_default_def)

end
