(* ===== verification/Stat_Checkpointer.thy ===== *)
theory Stat_Checkpointer
  imports F64 Pg_Version
begin

text \<open>
  \<open>crates/pgsleuth-postgres/src/stat_checkpointer.rs\<close>: the snapshot of the checkpointer's
  cumulative counters and the classifier that turns two consecutive snapshots into one of
  four buckets. The database is a parameter: a poll is given the row the query returned, or
  None when the query failed. The reference for the classifier works on whole milliseconds
  without floating point.
\<close>

section \<open>Snapshots\<close>

definition CHECKPOINTER_MIN_PG_VERSION :: u32 where
  "CHECKPOINTER_MIN_PG_VERSION = 17"

record checkpointer_snapshot =
  cs_num_timed :: u64
  cs_num_requested :: u64
  cs_write_time_ms :: f64
  cs_sync_time_ms :: f64
  cs_buffers_written :: u64
  cs_wal_fpi :: u64

record checkpointer_row =
  cr_num_timed :: i64
  cr_num_requested :: i64
  cr_write_time_ms :: f64
  cr_sync_time_ms :: f64
  cr_buffers_written :: i64
  cr_wal_fpi :: i64

definition checkpointer_poll :: "checkpointer_row option \<Rightarrow> checkpointer_snapshot option" where
  "checkpointer_poll row =
     map_option (\<lambda>r.
       \<lparr>cs_num_timed = u64_of_i64_or_0 (cr_num_timed r),
        cs_num_requested = u64_of_i64_or_0 (cr_num_requested r),
        cs_write_time_ms = cr_write_time_ms r,
        cs_sync_time_ms = cr_sync_time_ms r,
        cs_buffers_written = u64_of_i64_or_0 (cr_buffers_written r),
        cs_wal_fpi = u64_of_i64_or_0 (cr_wal_fpi r)\<rparr>) row"

section \<open>Buckets\<close>

datatype checkpoint_bucket = WritePhaseDominant | SyncPhaseDominant | Forced | FpwFlood

fun recommendation_text :: "checkpoint_bucket \<Rightarrow> string" where
  "recommendation_text WritePhaseDominant =
     ''Write phase dominates '' @ [CHR 0xE2, CHR 0x80, CHR 0x94]
     @ '' too many dirty pages. Raise checkpoint_completion_target or lower max_wal_size.''"
| "recommendation_text SyncPhaseDominant =
     ''Sync phase dominates '' @ [CHR 0xE2, CHR 0x80, CHR 0x94]
     @ '' storage is the bottleneck. Overlaps with the fsync-jitter alarm; investigate the WAL device.''"
| "recommendation_text Forced =
     ''WAL is filling faster than checkpoint_timeout '' @ [CHR 0xE2, CHR 0x80, CHR 0x94]
     @ '' raise max_wal_size.''"
| "recommendation_text FpwFlood =
     ''FPI traffic is high right after the checkpoint '' @ [CHR 0xE2, CHR 0x80, CHR 0x94]
     @ '' checkpoints are too frequent. Extend checkpoint_timeout.''"

fun bucket_knobs :: "checkpoint_bucket \<Rightarrow> string list" where
  "bucket_knobs WritePhaseDominant = [''checkpoint_completion_target'', ''max_wal_size'']"
| "bucket_knobs SyncPhaseDominant = [''wal_sync_method'', ''synchronous_commit'']"
| "bucket_knobs Forced = [''max_wal_size'']"
| "bucket_knobs FpwFlood = [''checkpoint_timeout'', ''full_page_writes'']"

fun bucket_slug :: "checkpoint_bucket \<Rightarrow> string" where
  "bucket_slug WritePhaseDominant = ''write_phase''"
| "bucket_slug SyncPhaseDominant = ''sync_phase''"
| "bucket_slug Forced = ''forced''"
| "bucket_slug FpwFlood = ''fpw_flood''"

section \<open>The classifier\<close>

definition classify ::
  "checkpointer_snapshot \<Rightarrow> checkpointer_snapshot \<Rightarrow> checkpoint_bucket option" where
  "classify prev cur =
     (let timed_d = sat_sub (cs_num_timed cur) (cs_num_timed prev);
          req_d = sat_sub (cs_num_requested cur) (cs_num_requested prev);
          checkpoints_in_interval = sat_add timed_d req_d in
      if checkpoints_in_interval = 0 then None
      else if timed_d < req_d then Some Forced
      else
        let write_d = f_max (f_sub (cs_write_time_ms cur) (cs_write_time_ms prev)) f_zero;
            sync_d = f_max (f_sub (cs_sync_time_ms cur) (cs_sync_time_ms prev)) f_zero;
            fpi_d = sat_sub (cs_wal_fpi cur) (cs_wal_fpi prev) in
        if f_gt write_d (f_mul sync_d f_one_and_half) then Some WritePhaseDominant
        else if f_gt sync_d (f_mul write_d f_one_and_half) then Some SyncPhaseDominant
        else if 1000 \<le> fpi_d div max checkpoints_in_interval 1 then Some FpwFlood
        else None)"

section \<open>The reference: whole milliseconds, natural numbers\<close>

text \<open>
  With \<open>timed\<close>, \<open>req\<close>, \<open>write\<close>, \<open>sync\<close> and \<open>fpi\<close> the increases between the two polls: no
  checkpoint, no bucket; more requested than timed checkpoints is Forced; otherwise the phase
  that took more than one and a half times the other; otherwise a flood of at least 1000
  full-page images per checkpoint.
\<close>

definition classify_spec :: "nat \<Rightarrow> nat \<Rightarrow> nat \<Rightarrow> nat \<Rightarrow> nat \<Rightarrow> checkpoint_bucket option" where
  "classify_spec timed req write sync fpi =
     (if timed + req = 0 then None
      else if timed < req then Some Forced
      else if 3 * sync < 2 * write then Some WritePhaseDominant
      else if 3 * write < 2 * sync then Some SyncPhaseDominant
      else if 1000 * (timed + req) \<le> fpi then Some FpwFlood
      else None)"

text \<open>A snapshot whose two times are whole numbers of milliseconds below \<open>2 ^ 50\<close>.\<close>

definition ms_times :: "checkpointer_snapshot \<Rightarrow> nat \<Rightarrow> nat \<Rightarrow> bool" where
  "ms_times s write sync \<longleftrightarrow>
     cs_write_time_ms s = Fin (int write) 0 \<and> cs_sync_time_ms s = Fin (int sync) 0
     \<and> write < 2 ^ 50 \<and> sync < 2 ^ 50"

lemma f_max_sub_ms:
  assumes "a < 2 ^ 50" and "b < 2 ^ 50"
  shows "f_max (f_sub (Fin (int a) 0) (Fin (int b) 0)) f_zero = Fin (int (a - b)) 0"
proof -
  have "f_sub (Fin (int a) 0) (Fin (int b) 0) = Fin (int a - int b) 0"
    using assms by (intro f_sub_int) simp
  then show ?thesis by (simp add: f_max_def f_zero_def f_gt_int)
qed

lemma f_gt_one_and_half_ms:
  assumes "b < 2 ^ 50"
  shows "f_gt (Fin (int a) 0) (f_mul (Fin (int b) 0) f_one_and_half) \<longleftrightarrow> 3 * b < 2 * a"
proof -
  have "f_mul (Fin (int b) 0) f_one_and_half = (if b = 0 then Fin 0 0 else Fin (int b * 3) (- 1))"
    using f_round_exact [of "int b * 3" "- 1"] assms by (simp add: f_mul_def f_one_and_half_def)
  then show ?thesis by (auto simp: f_gt_def align_def)
qed

text \<open>The saturated sum of the two counts is only ever compared, so saturation is harmless.\<close>

lemma checkpoint_counts:
  fixes timed_d req_d fpi_d :: u64
  assumes "0 < unat timed_d + unat req_d"
  shows "1000 \<le> fpi_d div max (sat_add timed_d req_d) 1 \<longleftrightarrow>
    1000 * (unat timed_d + unat req_d) \<le> unat fpi_d"
proof -
  let ?n = "unat timed_d + unat req_d" and ?m = "unat (sat_add timed_d req_d)"
  have m: "?m = min (2 ^ 64 - 1) ?n" by (simp add: unat_simps)
  with assms have pos: "0 < ?m" by auto
  then have "max (sat_add timed_d req_d) 1 = sat_add timed_d req_d"
    by (intro max_absorb1) (simp add: word_le_nat_alt)
  then have "1000 \<le> fpi_d div max (sat_add timed_d req_d) 1 \<longleftrightarrow> 1000 * ?m \<le> unat fpi_d"
    using pos by (simp add: word_le_nat_alt unat_div less_eq_div_iff_mult_less_eq)
  also have "\<dots> \<longleftrightarrow> 1000 * ?n \<le> unat fpi_d"
    using m unat_u64_less [of fpi_d]
    by (auto simp del: unat_u64_less simp: min_def split: if_splits)
  finally show ?thesis .
qed

lemma no_checkpoints: "sat_add timed_d req_d = 0 \<longleftrightarrow> unat timed_d + unat req_d = 0"
  for timed_d req_d :: u64
proof -
  have "sat_add timed_d req_d = 0 \<longleftrightarrow> unat (sat_add timed_d req_d) = 0" by (simp add: unat_eq_0)
  then show ?thesis by (auto simp: unat_simps min_def split: if_splits)
qed

lemma classify_ms:
  assumes "ms_times prev pw ps" and "ms_times cur cw cs"
  shows "classify prev cur =
    classify_spec (unat (cs_num_timed cur) - unat (cs_num_timed prev))
      (unat (cs_num_requested cur) - unat (cs_num_requested prev))
      (cw - pw) (cs - ps) (unat (cs_wal_fpi cur) - unat (cs_wal_fpi prev))"
proof -
  let ?t = "sat_sub (cs_num_timed cur) (cs_num_timed prev)"
    and ?r = "sat_sub (cs_num_requested cur) (cs_num_requested prev)"
    and ?f = "sat_sub (cs_wal_fpi cur) (cs_wal_fpi prev)"
  have bounds: "cw - pw < 2 ^ 50" "cs - ps < 2 ^ 50"
    using assms by (auto simp: ms_times_def)
  have w: "f_max (f_sub (cs_write_time_ms cur) (cs_write_time_ms prev)) f_zero = Fin (int (cw - pw)) 0"
    and s: "f_max (f_sub (cs_sync_time_ms cur) (cs_sync_time_ms prev)) f_zero = Fin (int (cs - ps)) 0"
    using assms f_max_sub_ms by (simp_all add: ms_times_def)
  show ?thesis
  proof (cases "unat ?t + unat ?r = 0")
    case True
    then show ?thesis by (simp add: classify_def classify_spec_def no_checkpoints unat_simps)
  next
    case False
    then have flood: "1000 \<le> ?f div max (sat_add ?t ?r) 1 \<longleftrightarrow> 1000 * (unat ?t + unat ?r) \<le> unat ?f"
      by (intro checkpoint_counts) simp
    show ?thesis
      by (simp only: classify_def classify_spec_def Let_def w s no_checkpoints flood
          f_gt_one_and_half_ms bounds word_less_nat_alt unat_sat_sub)
  qed
qed

section \<open>Properties\<close>

text \<open>
  C7. On snapshots whose times are whole milliseconds (below \<open>2 ^ 50\<close>, about 35,000 years) the
  floating-point classifier is exactly the integer rule: counts compared as naturals, the
  1.5 margin as \<open>3 * sync < 2 * write\<close>, the flood as \<open>1000 * checkpoints \<le> full-page
  images\<close>; counters that went backwards (a statistics reset) count as no increase.
\<close>

theorem classify_refines_spec:
  assumes "ms_times prev pw ps" and "ms_times cur cw cs"
  shows "classify prev cur =
    classify_spec (unat (cs_num_timed cur) - unat (cs_num_timed prev))
      (unat (cs_num_requested cur) - unat (cs_num_requested prev))
      (cw - pw) (cs - ps) (unat (cs_wal_fpi cur) - unat (cs_wal_fpi prev))"
  using assms by (rule classify_ms)

theorem classify_refines_spec_witness:
  "classify
     \<lparr>cs_num_timed = 10, cs_num_requested = 0, cs_write_time_ms = Fin 100 0,
      cs_sync_time_ms = Fin 50 0, cs_buffers_written = 0, cs_wal_fpi = 0\<rparr>
     \<lparr>cs_num_timed = 11, cs_num_requested = 0, cs_write_time_ms = Fin 200 0,
      cs_sync_time_ms = Fin 50 0, cs_buffers_written = 0, cs_wal_fpi = 0\<rparr> =
   Some WritePhaseDominant"
  by (subst classify_refines_spec [where pw = 100 and ps = 50 and cw = 200 and cs = 50])
    (simp_all add: ms_times_def classify_spec_def)

end
