(* ===== verification/Checkpoint_Storm.thy ===== *)
theory Checkpoint_Storm
  imports Window Stat_Checkpointer Finding
begin

text \<open>
  \<open>crates/pgsleuth-cli/src/checkpoint_storm.rs\<close>: the dominant-pattern streak over checkpoint
  buckets and the polling loop of the checkpoint-storm alarm. The reference for the streak is
  the run of equal buckets that ends the list of classified intervals; intervals without a
  classification do not appear in it.
\<close>

section \<open>The streak\<close>

record dominant_streak =
  ds_current :: "checkpoint_bucket option"
  ds_streak :: u32
  ds_fired_for :: "checkpoint_bucket option"

definition dominant_streak_default :: dominant_streak where
  "dominant_streak_default = \<lparr>ds_current = None, ds_streak = 0, ds_fired_for = None\<rparr>"

datatype streak_state =
    Streak_Building checkpoint_bucket u32
  | Streak_JustFired checkpoint_bucket u32
  | Streak_StillFiring checkpoint_bucket u32
  | NoClassification

definition streak_observe ::
  "u32 \<Rightarrow> dominant_streak \<Rightarrow> checkpoint_bucket option \<Rightarrow> dominant_streak \<times> streak_state" where
  "streak_observe fire_after s bucket =
     (case bucket of
        None \<Rightarrow> (s, NoClassification)
      | Some b \<Rightarrow>
          let s = (if ds_current s = Some b
                   then s\<lparr>ds_streak := sat_add (ds_streak s) 1\<rparr>
                   else s\<lparr>ds_current := Some b, ds_streak := 1, ds_fired_for := None\<rparr>) in
          if ds_streak s < fire_after then (s, Streak_Building b (ds_streak s))
          else if ds_fired_for s = Some b then (s, Streak_StillFiring b (ds_streak s))
          else (s\<lparr>ds_fired_for := Some b\<rparr>, Streak_JustFired b (ds_streak s)))"

section \<open>The finding\<close>

definition checkpoint_build_finding ::
  "datetime \<Rightarrow> string \<Rightarrow> checkpoint_bucket \<Rightarrow> u32 \<Rightarrow> u64 \<Rightarrow> finding" where
  "checkpoint_build_finding now pg_instance bucket streak interval_ms =
     \<lparr>f_schema_version = FINDING_SCHEMA_VERSION,
      f_rule_id = ''storage.checkpoint.storm'',
      f_rule_version = 1,
      f_tier = Standard,
      f_severity = High,
      f_fired_at = now,
      f_pg_instance = \<lparr>inst_id = pg_instance, inst_db_name = None, inst_role = Role_Unknown\<rparr>,
      f_summary =
        ''Checkpoint storm '' @ [CHR 0xE2, CHR 0x80, CHR 0x94] @ '' `'' @ bucket_slug bucket
        @ ''` bucket dominant for '' @ dec (unat streak) @ '' consecutive ''
        @ dec (unat interval_ms) @ ''ms intervals'',
      f_evidence = JObj
        [(''bucket'', JStr (bucket_slug bucket)),
         (''streak_intervals'', JNum (uint streak)),
         (''interval_ms'', JNum (uint interval_ms))],
      f_remediation =
        \<lparr>rem_text = recommendation_text bucket, rem_knobs = bucket_knobs bucket\<rparr>,
      f_otel_attributes =
        btree_insert ''pgsleuth.checkpoint.bucket'' (Attr_String (bucket_slug bucket)) []\<rparr>"

section \<open>The polling loop\<close>

record checkpoint_loop =
  ckl_prev :: "checkpointer_snapshot option"
  ckl_streak :: dominant_streak

definition checkpoint_loop_init :: checkpoint_loop where
  "checkpoint_loop_init = \<lparr>ckl_prev = None, ckl_streak = dominant_streak_default\<rparr>"

text \<open>
  One tick: the row the poll returned (None: the query failed) and the time \<open>Utc::now()\<close> gives
  if a finding is built.
\<close>

definition checkpoint_tick ::
  "u64 \<Rightarrow> u32 \<Rightarrow> string \<Rightarrow> bool \<Rightarrow> checkpoint_loop \<Rightarrow> checkpointer_row option \<times> datetime
   \<Rightarrow> checkpoint_loop \<times> effect list" where
  "checkpoint_tick interval_ms fire_after pg_instance_id emitter st inp =
     (case checkpointer_poll (fst inp) of
        None \<Rightarrow> (st, [])
      | Some cur \<Rightarrow>
          let bucket = Option.bind (ckl_prev st) (\<lambda>p. classify p cur);
              (streak, state) = streak_observe fire_after (ckl_streak st) bucket;
              effects =
                (case state of
                   Streak_JustFired b s \<Rightarrow>
                     report emitter (checkpoint_build_finding (snd inp) pg_instance_id b s interval_ms)
                 | _ \<Rightarrow> [])
          in (\<lparr>ckl_prev = Some cur, ckl_streak = streak\<rparr>, effects))"

text \<open>The runtime: connect, check the server version, then poll on every tick.\<close>

definition checkpoint_storm_run ::
  "string \<Rightarrow> u64 \<Rightarrow> u32 \<Rightarrow> string \<Rightarrow> bool \<Rightarrow> bool \<Rightarrow> string option
   \<Rightarrow> (checkpointer_row option \<times> datetime) list \<Rightarrow> effect list list runtime" where
  "checkpoint_storm_run pg_conn interval_ms fire_after pg_instance_id emitter connects version ticks =
     (if \<not> connects then Rt_Failed (Connect_Failed pg_conn)
      else case pg_major version of
          Inl e \<Rightarrow> Rt_Failed e
        | Inr major \<Rightarrow>
            if major < CHECKPOINTER_MIN_PG_VERSION
            then Rt_Failed (Below_Minimum major CHECKPOINTER_MIN_PG_VERSION)
            else if interval_ms = 0 then Rt_Panicked
            else Rt_Polls (tick_outs (checkpoint_tick interval_ms fire_after pg_instance_id emitter)
                             checkpoint_loop_init ticks))"

section \<open>The reference: runs of equal buckets\<close>

definition streak_abs :: "u32 \<Rightarrow> checkpoint_bucket option list \<Rightarrow> dominant_streak" where
  "streak_abs fire_after hist =
     (let bs = somes hist in
      if bs = [] then dominant_streak_default
      else \<lparr>ds_current = Some (last bs), ds_streak = u32_cap (same_run bs),
            ds_fired_for = (if unat fire_after \<le> same_run bs then Some (last bs) else None)\<rparr>)"

definition streak_answer :: "u32 \<Rightarrow> checkpoint_bucket option list \<Rightarrow> streak_state" where
  "streak_answer fire_after hist =
     (if hist = [] \<or> last hist = None then NoClassification
      else let bs = somes hist; b = last bs; r = same_run bs; n = max 1 (unat fire_after) in
        if r < n then Streak_Building b (u32_cap r)
        else if r = n then Streak_JustFired b (u32_cap r)
        else Streak_StillFiring b (u32_cap r))"

lemma u32_cap_1: "u32_cap (Suc 0) = 1"
  by (simp add: u32_cap_def)

lemma streak_abs_Nil: "streak_abs n [] = dominant_streak_default"
  by (simp add: streak_abs_def)

lemma streak_observe_abs:
  "streak_observe n (streak_abs n hist) x = (streak_abs n (hist @ [x]), streak_answer n (hist @ [x]))"
proof (cases x)
  case None
  then show ?thesis by (simp add: streak_observe_def streak_abs_def streak_answer_def Let_def)
next
  case (Some b)
  show ?thesis
  proof (cases "somes hist \<noteq> [] \<and> last (somes hist) = b")
    case True
    then have "0 < same_run (somes hist)" by (simp add: same_run_pos)
    with True Some show ?thesis
      by (auto simp: streak_observe_def streak_abs_def streak_answer_def Let_def same_run_snoc
          sat_add_u32_cap u32_cap_less max_def not_less)
  next
    case False
    with Some show ?thesis
      by (auto simp: streak_observe_def streak_abs_def streak_answer_def Let_def same_run_snoc
          dominant_streak_default_def u32_cap_1 word_less_nat_alt max_def not_less)
  qed
qed

interpretation streak_history: history_detector "streak_observe n" dominant_streak_default
  "streak_abs n" "streak_answer n" for n
  by unfold_locales (rule streak_abs_Nil, rule streak_observe_abs)

definition streak_fires :: "u32 \<Rightarrow> dominant_streak \<Rightarrow> checkpoint_bucket option \<Rightarrow> bool" where
  "streak_fires n s x =
     (case snd (streak_observe n s x) of Streak_JustFired _ _ \<Rightarrow> True | _ \<Rightarrow> False)"

definition bucket_changes :: "dominant_streak \<Rightarrow> checkpoint_bucket option \<Rightarrow> bool" where
  "bucket_changes s x = (case x of None \<Rightarrow> False | Some b \<Rightarrow> ds_current s \<noteq> Some b)"

interpretation streak_alarm: edge_alarm "streak_observe n" "streak_fires n"
  "\<lambda>s. ds_fired_for s \<noteq> ds_current s" bucket_changes for n
  by unfold_locales
    (auto simp: streak_fires_def streak_observe_def bucket_changes_def Let_def
      split: option.splits if_splits)

section \<open>The loop against the reference\<close>

text \<open>The classification of each successful poll against the successful poll before it.\<close>

fun bucket_history ::
  "checkpointer_snapshot option \<Rightarrow> checkpointer_snapshot list \<Rightarrow> checkpoint_bucket option list" where
  "bucket_history prev [] = []"
| "bucket_history prev (c # cs) =
     Option.bind prev (\<lambda>p. classify p c) # bucket_history (Some c) cs"

definition good_polls :: "(checkpointer_row option \<times> datetime) list \<Rightarrow> checkpointer_snapshot list" where
  "good_polls ticks = somes (map (checkpointer_poll \<circ> fst) ticks)"

definition last_opt :: "'a list \<Rightarrow> 'a option" where
  "last_opt xs = (if xs = [] then None else Some (last xs))"

lemma bucket_history_snoc:
  "bucket_history prev (cs @ [c]) =
     bucket_history prev cs @
     [Option.bind (if cs = [] then prev else Some (last cs)) (\<lambda>p. classify p c)]"
  by (induction cs arbitrary: prev) auto

definition checkpoint_due :: "u32 \<Rightarrow> checkpoint_bucket option list \<Rightarrow> bool" where
  "checkpoint_due fire_after hist \<longleftrightarrow>
     hist \<noteq> [] \<and> last hist \<noteq> None \<and> same_run (somes hist) = max 1 (unat fire_after)"

lemma streak_answer_JustFired:
  "streak_answer n hist = Streak_JustFired b s \<longleftrightarrow>
     checkpoint_due n hist \<and> b = last (somes hist) \<and> s = u32_cap (same_run (somes hist))"
  by (auto simp: streak_answer_def checkpoint_due_def Let_def)

definition checkpoint_loop_abs ::
  "u32 \<Rightarrow> (checkpointer_row option \<times> datetime) list \<Rightarrow> checkpoint_loop" where
  "checkpoint_loop_abs n ts =
     \<lparr>ckl_prev = last_opt (good_polls ts),
      ckl_streak = streak_abs n (bucket_history None (good_polls ts))\<rparr>"

definition checkpoint_effects ::
  "u64 \<Rightarrow> u32 \<Rightarrow> string \<Rightarrow> bool \<Rightarrow> (checkpointer_row option \<times> datetime) list \<Rightarrow> effect list" where
  "checkpoint_effects interval_ms fire_after inst emitter ts =
     (let hist = bucket_history None (good_polls ts); bs = somes hist in
      if fst (last ts) \<noteq> None \<and> checkpoint_due fire_after hist
      then report emitter
        (checkpoint_build_finding (snd (last ts)) inst (last bs) (u32_cap (same_run bs)) interval_ms)
      else [])"

lemma answer_effects:
  "(case streak_answer n hist of Streak_JustFired b s \<Rightarrow> f b s | _ \<Rightarrow> []) =
     (if checkpoint_due n hist then f (last (somes hist)) (u32_cap (same_run (somes hist))) else [])"
proof (cases "checkpoint_due n hist")
  case True
  then have "streak_answer n hist =
      Streak_JustFired (last (somes hist)) (u32_cap (same_run (somes hist)))"
    by (simp add: streak_answer_JustFired)
  with True show ?thesis by simp
next
  case False
  then have "streak_answer n hist \<noteq> Streak_JustFired b s" for b s
    by (simp add: streak_answer_JustFired)
  with False show ?thesis by (simp split: streak_state.split)
qed

lemma poll_None: "checkpointer_poll row = None \<longleftrightarrow> row = None"
  by (simp add: checkpointer_poll_def)

lemma checkpoint_tick_abs:
  "checkpoint_tick iv n inst em (checkpoint_loop_abs n ts) t =
     (checkpoint_loop_abs n (ts @ [t]), checkpoint_effects iv n inst em (ts @ [t]))"
proof (cases "checkpointer_poll (fst t)")
  case None
  then show ?thesis
    by (simp add: checkpoint_tick_def checkpoint_loop_abs_def checkpoint_effects_def good_polls_def
        checkpointer_poll_def Let_def)
next
  case (Some cur)
  let ?hist = "bucket_history None (good_polls ts)"
  let ?x = "Option.bind (last_opt (good_polls ts)) (\<lambda>p. classify p cur)"
  have polls: "good_polls (ts @ [t]) = good_polls ts @ [cur]"
    using Some by (simp add: good_polls_def)
  have hist: "bucket_history None (good_polls (ts @ [t])) = ?hist @ [?x]"
    by (simp add: polls bucket_history_snoc last_opt_def)
  have row: "fst t \<noteq> None" using Some poll_None [of "fst t"] by auto
  show ?thesis
    using Some row
    by (simp add: checkpoint_tick_def checkpoint_loop_abs_def checkpoint_effects_def hist Let_def
        streak_observe_abs answer_effects)
      (simp add: polls last_opt_def)
qed

interpretation checkpoint_history: history_detector "checkpoint_tick iv n inst em"
  checkpoint_loop_init "checkpoint_loop_abs n" "checkpoint_effects iv n inst em" for iv n inst em
proof unfold_locales
  show "checkpoint_loop_abs n [] = checkpoint_loop_init"
    by (simp add: checkpoint_loop_abs_def checkpoint_loop_init_def good_polls_def last_opt_def
        streak_abs_Nil)
qed (rule checkpoint_tick_abs)

interpretation checkpoint_sustained: sustained_alarm "checkpoint_tick iv n inst em"
  checkpoint_loop_init "checkpoint_loop_abs n" "checkpoint_effects iv n inst em"
  "\<lambda>ts. same_run (somes (bucket_history None (good_polls ts)))" "max 1 (unat n)"
  "reports_rule ''storage.checkpoint.storm'' em" for iv n inst em
proof unfold_locales
  fix ts t
  let ?m = "max 1 (unat n)"
  let ?hist = "\<lambda>ts. bucket_history None (good_polls ts)"
  assume below: "same_run (somes (?hist ts)) < ?m" and due: "?m \<le> same_run (somes (?hist (ts @ [t])))"
  note more = less_le_trans [OF this]
  then obtain cur where cur: "checkpointer_poll (fst t) = Some cur"
    by (cases "checkpointer_poll (fst t)") (simp_all add: good_polls_def)
  define x where "x = last (?hist (ts @ [t]))"
  have hist: "?hist (ts @ [t]) = ?hist ts @ [x]"
    using cur by (simp add: x_def good_polls_def bucket_history_snoc)
  with more obtain b where x: "x = Some b" by (cases x) simp_all
  have "same_run (somes (?hist (ts @ [t]))) = ?m"
    using below due more by (simp add: hist x same_run_snoc split: if_splits)
  then have "checkpoint_due n (?hist (ts @ [t]))" by (simp add: checkpoint_due_def hist x)
  moreover have "fst t \<noteq> None" using cur poll_None [of "fst t"] by auto
  ultimately show "reports_rule ''storage.checkpoint.storm'' em (checkpoint_effects iv n inst em (ts @ [t]))"
    by (auto simp: checkpoint_effects_def checkpoint_build_finding_def Let_def)
qed (simp add: good_polls_def)

section \<open>Edge triggering of the loop\<close>

definition loop_bucket :: "checkpoint_loop \<Rightarrow> checkpointer_row option \<Rightarrow> checkpoint_bucket option" where
  "loop_bucket st row =
     Option.bind (checkpointer_poll row) (\<lambda>cur. Option.bind (ckl_prev st) (\<lambda>p. classify p cur))"

definition loop_bucket_changes ::
  "checkpoint_loop \<Rightarrow> checkpointer_row option \<times> datetime \<Rightarrow> bool" where
  "loop_bucket_changes st inp = bucket_changes (ckl_streak st) (loop_bucket st (fst inp))"

definition loop_reports ::
  "u64 \<Rightarrow> u32 \<Rightarrow> string \<Rightarrow> bool \<Rightarrow> checkpoint_loop \<Rightarrow> checkpointer_row option \<times> datetime \<Rightarrow> bool" where
  "loop_reports iv n inst em st inp \<longleftrightarrow> snd (checkpoint_tick iv n inst em st inp) \<noteq> []"

lemma report_not_Nil [simp]: "report em f \<noteq> []"
  by (simp add: report_def)

lemma checkpoint_tick_streak:
  "ckl_streak (fst (checkpoint_tick iv n inst em st inp)) =
     (if fst inp = None then ckl_streak st
      else fst (streak_observe n (ckl_streak st) (loop_bucket st (fst inp))))"
  by (cases "checkpointer_poll (fst inp)")
    (auto simp: checkpoint_tick_def loop_bucket_def Let_def case_prod_beta
      simp flip: poll_None)

lemma loop_reports_fires:
  "loop_reports iv n inst em st inp \<longleftrightarrow>
     fst inp \<noteq> None \<and> streak_fires n (ckl_streak st) (loop_bucket st (fst inp))"
  by (cases "checkpointer_poll (fst inp)")
    (auto simp: loop_reports_def checkpoint_tick_def loop_bucket_def streak_fires_def Let_def
      case_prod_beta simp flip: poll_None split: streak_state.splits)

interpretation checkpoint_alarm: edge_alarm "checkpoint_tick iv n inst em"
  "loop_reports iv n inst em"
  "\<lambda>st. ds_fired_for (ckl_streak st) \<noteq> ds_current (ckl_streak st)" loop_bucket_changes
  for iv n inst em
  by unfold_locales
    (use streak_alarm.fires_armed streak_alarm.fires_disarms streak_alarm.stays_disarmed
      in \<open>auto simp: loop_reports_fires checkpoint_tick_streak loop_bucket_changes_def\<close>)

section \<open>Properties\<close>

text \<open>
  C4. The checkpoint-storm runtime as a whole: it refuses to start when it cannot connect, cannot
  read the version or the server is older than 17, and then panics on an interval of zero;
  otherwise it never leaves its loop and the outputs of every tick are a
  function of the polls so far: a tick reports exactly when its poll succeeded, was classified,
  and ends a run of exactly \<open>max 1 fire_after\<close> equal buckets in the list of classified
  intervals, and the finding carries that bucket and that run length.
\<close>

theorem checkpoint_storm_run_refines:
  "checkpoint_storm_run conn iv n inst em connects version ticks =
     (if \<not> connects then Rt_Failed (Connect_Failed conn)
      else case pg_major version of
          Inl e \<Rightarrow> Rt_Failed e
        | Inr major \<Rightarrow>
            if major < 17 then Rt_Failed (Below_Minimum major 17)
            else if iv = 0 then Rt_Panicked
            else Rt_Polls (map (\<lambda>i. checkpoint_effects iv n inst em (take (Suc i) ticks))
                             [0..<length ticks]))"
  by (simp add: checkpoint_storm_run_def CHECKPOINTER_MIN_PG_VERSION_def
      checkpoint_history.outs_history split: sum.split)

text \<open>
  Firing is edge-triggered: over any list of ticks, from the start of the loop, the number of
  ticks that report a finding is at most the number of ticks at which the classified bucket
  changed. A storm that stays in one bucket is reported once, however long it lasts.
\<close>

lemma checkpoint_reports_bounded:
  "count_ticks (checkpoint_tick iv n inst em) (loop_reports iv n inst em) checkpoint_loop_init ticks
     \<le> count_ticks (checkpoint_tick iv n inst em) loop_bucket_changes checkpoint_loop_init ticks"
  using checkpoint_alarm.fires_bounded [of iv n inst em checkpoint_loop_init ticks]
  by (simp add: checkpoint_loop_init_def dominant_streak_default_def)

text \<open>
  An interval without a classification does not re-arm the alarm: when the streak has just
  fired for a bucket, any number of unclassified intervals followed by the same bucket is still
  the same episode and stays quiet.
\<close>

lemma unclassified_does_not_rearm:
  assumes "snd (streak_observe n (after (streak_observe n) dominant_streak_default hist) (Some b)) =
    Streak_JustFired b s"
  shows "snd (streak_observe n
      (after (streak_observe n) dominant_streak_default (hist @ [Some b] @ replicate k None)) (Some b)) =
    Streak_StillFiring b (sat_add s 1)"
proof -
  have "checkpoint_due n (hist @ [Some b])" and s: "s = u32_cap (same_run (somes hist @ [b]))"
    using assms by (simp_all add: streak_history.answer_after streak_answer_JustFired)
  then have run: "same_run (somes hist @ [b]) = max 1 (unat n)"
    by (simp add: checkpoint_due_def)
  have "same_run ((somes hist @ [b]) @ [b]) = Suc (same_run (somes hist @ [b]))"
    by (subst same_run_snoc) simp
  then show ?thesis
    using run s
    by (simp add: streak_history.answer_after streak_answer_def Let_def sat_add_u32_cap
        del: after_append)
qed

lemma unclassified_does_not_rearm_witness:
  "snd (streak_observe 2 (after (streak_observe 2) dominant_streak_default
      ([Some Forced] @ [Some Forced] @ replicate 3 None)) (Some Forced)) =
    Streak_StillFiring Forced (sat_add 2 1)"
  by (rule unclassified_does_not_rearm)
    (simp add: streak_observe_def dominant_streak_default_def sat_add_def)

text \<open>
  The version gate: given the decimal \<open>server_version_num\<close> the server reports, the runtime ends with
  an error when it is not connected or the number is below 170000 (PostgreSQL 17).
\<close>

lemma checkpoint_storm_gate:
  assumes "num < 2 ^ 32"
  shows "checkpoint_storm_run conn iv n inst em connects (Some (dec num)) ticks =
    (if \<not> connects then Rt_Failed (Connect_Failed conn)
     else if num < 170000 then Rt_Failed (Below_Minimum (of_nat (num div 10000)) 17)
     else if iv = 0 then Rt_Panicked
     else Rt_Polls (map (\<lambda>i. checkpoint_effects iv n inst em (take (Suc i) ticks))
                      [0..<length ticks]))"
proof -
  have "(of_nat (num div 10000) :: u32) < 17 \<longleftrightarrow> num < 170000"
    using assms
    by (auto simp: word_less_nat_alt unsigned_of_nat take_bit_nat_eq_self div_less_iff_less_mult)
  then show ?thesis
    using assms
    by (simp add: checkpoint_storm_run_def pg_major_dec CHECKPOINTER_MIN_PG_VERSION_def
        checkpoint_history.outs_history)
qed

end
