(* ===== verification/Stat_Activity.thy ===== *)
theory Stat_Activity
  imports Pg_Version "HOL-Library.Sublist"
begin

text \<open>
  \<open>crates/pgsleuth-postgres/src/stat_activity.rs\<close>: the session snapshot and its two derived
  counts. The database is a parameter: for each of the four queries of a poll the rows it
  returned, or None when it failed; the last query depends on the threshold it is given.
\<close>

record session_snapshot =
  ss_client_backends :: u64
  ss_by_state :: "(string \<times> u64) list"
  ss_by_wait :: "((string \<times> string) \<times> u64) list"
  ss_long_running_xacts :: u64

definition idle_in_xact :: "session_snapshot \<Rightarrow> u64" where
  "idle_in_xact s =
     foldl (\<lambda>total (state, count).
       if prefix ''idle in transaction'' state then sat_add total count else total)
       0 (ss_by_state s)"

text \<open>\<open>Iterator::sum\<close> wraps in a release build.\<close>

definition active_waiting_on_lock :: "session_snapshot \<Rightarrow> u64" where
  "active_waiting_on_lock s =
     sum_list (map snd (filter (\<lambda>((cat, _), _). cat = ''Lock'') (ss_by_wait s)))"

record activity_db =
  ad_count :: "i64 option"
  ad_states :: "(string \<times> i64) list option"
  ad_waits :: "((string \<times> string) \<times> i64) list option"
  ad_long :: "i64 \<Rightarrow> i64 option"

definition count_rows :: "('k::linorder \<times> i64) list \<Rightarrow> ('k \<times> u64) list" where
  "count_rows rows = foldl (\<lambda>m (k, n). btree_insert k (u64_of_i64_or_0 n) m) [] rows"

definition activity_poll :: "activity_db \<Rightarrow> u64 \<Rightarrow> agent_error + session_snapshot" where
  "activity_poll db long_xact_threshold_seconds =
     (case ad_count db of
        None \<Rightarrow> Inl (Query_Failed ''pg_stat_activity backend count query failed'')
      | Some backends \<Rightarrow>
     (case ad_states db of
        None \<Rightarrow> Inl (Query_Failed ''pg_stat_activity state grouping failed'')
      | Some state_rows \<Rightarrow>
     (case ad_waits db of
        None \<Rightarrow> Inl (Query_Failed ''pg_stat_activity wait_event grouping failed'')
      | Some wait_rows \<Rightarrow>
     (case ad_long db (i64_of_u64_or_max long_xact_threshold_seconds) of
        None \<Rightarrow> Inl (Query_Failed ''pg_stat_activity long_running_xacts query failed'')
      | Some long_running_xacts \<Rightarrow> Inr
          \<lparr>ss_client_backends = u64_of_i64_or_0 backends,
           ss_by_state = count_rows state_rows,
           ss_by_wait = count_rows wait_rows,
           ss_long_running_xacts = u64_of_i64_or_0 long_running_xacts\<rparr>))))"

section \<open>Facts\<close>

lemma count_rows_snoc:
  "count_rows (rows @ [(k, n)]) = btree_insert k (u64_of_i64_or_0 n) (count_rows rows)"
  by (simp add: count_rows_def)

lemma count_rows_wf: "btree_wf (count_rows rows)"
proof (induction rows rule: rev_induct)
  case (snoc r rows)
  then show ?case by (cases r) (simp add: count_rows_snoc btree_wf_insert)
qed (simp add: count_rows_def)

text \<open>The map of a grouped query: the last row of a key wins, negatives are clamped to 0.\<close>

lemma count_rows_lookup:
  "map_of (count_rows rows) k = map_option u64_of_i64_or_0 (map_of (rev rows) k)"
proof (induction rows rule: rev_induct)
  case (snoc r rows)
  then show ?case
    by (cases r) (simp add: count_rows_snoc map_of_btree_insert count_rows_wf)
qed (simp add: count_rows_def)

lemma count_rows_distinct:
  "distinct (map fst rows) \<Longrightarrow>
     map_of (count_rows rows) k = map_option u64_of_i64_or_0 (map_of rows k)"
proof -
  assume dist: "distinct (map fst rows)"
  then have "map_of (rev rows) = map_of rows"
    by (subst map_of_inject_set) (simp_all flip: rev_map)
  then show ?thesis by (simp add: count_rows_lookup)
qed

lemma idle_fold:
  "unat (foldl (\<lambda>total (state, count).
       if prefix p state then sat_add total count else total) (a :: u64) m) =
     min (2 ^ 64 - 1) (unat a + sum_list (map (unat \<circ> snd) (filter (prefix p \<circ> fst) m)))"
proof (induction m arbitrary: a)
  case Nil
  then show ?case using unat_u64_less [of a] by (simp del: unat_u64_less add: min_def)
next
  case (Cons x m)
  then show ?case by (cases x) (auto simp: unat_simps)
qed

section \<open>Properties\<close>

text \<open>
  What a successful poll says: when the database groups by distinct keys, the counts per state
  and per wait event are the database's rows, one entry per key in key order, with a negative
  count read as 0; the two totals are the clamped query results.
\<close>

lemma activity_poll_faithful:
  assumes "activity_poll db thr = Inr s" and "ad_states db = Some st" and "ad_waits db = Some wt"
    and "distinct (map fst st)" and "distinct (map fst wt)"
  shows "map_of (ss_by_state s) k = map_option u64_of_i64_or_0 (map_of st k)
    \<and> map_of (ss_by_wait s) w = map_option u64_of_i64_or_0 (map_of wt w)
    \<and> btree_wf (ss_by_state s) \<and> btree_wf (ss_by_wait s)
    \<and> Some (uint (ss_client_backends s)) = map_option (\<lambda>n. max 0 (sint n)) (ad_count db)"
  using assms
  by (auto simp: activity_poll_def count_rows_distinct count_rows_wf uint_u64_of_i64_or_0
      split: option.splits)

lemma activity_poll_faithful_witness:
  "map_of (ss_by_state
      \<lparr>ss_client_backends = 7,
       ss_by_state = count_rows [(''idle'', 4), (''active'', 3)],
       ss_by_wait = count_rows [((''Lock'', ''tuple''), 2)],
       ss_long_running_xacts = 0\<rparr>) ''idle'' = Some 4"
proof -
  let ?db = "\<lparr>ad_count = Some 7, ad_states = Some [(''idle'', 4), (''active'', 3)],
    ad_waits = Some [((''Lock'', ''tuple''), 2)], ad_long = (\<lambda>_. Some 0)\<rparr>"
  let ?s = "\<lparr>ss_client_backends = 7, ss_by_state = count_rows [(''idle'', 4), (''active'', 3)],
    ss_by_wait = count_rows [((''Lock'', ''tuple''), 2)], ss_long_running_xacts = 0\<rparr>"
  have "activity_poll ?db 60 = Inr ?s"
    by (simp add: activity_poll_def u64_of_i64_or_0_def)
  from activity_poll_faithful [OF this, of "[(''idle'', 4), (''active'', 3)]"
      "[((''Lock'', ''tuple''), 2)]" "''idle''"]
  show ?thesis by (simp add: u64_of_i64_or_0_def)
qed

text \<open>
  The idle-in-transaction count is the sum of the counts of exactly the states whose name starts
  with \<open>idle in transaction\<close> (the aborted variant included), saturating at \<open>u64::MAX\<close>.
\<close>

lemma idle_in_xact_sums_matching_states:
  "unat (idle_in_xact s) =
     min (2 ^ 64 - 1)
       (sum_list (map (unat \<circ> snd) (filter (prefix ''idle in transaction'' \<circ> fst) (ss_by_state s))))"
  using idle_fold [of "''idle in transaction''" 0 "ss_by_state s"] by (simp add: idle_in_xact_def)

end
