(* ===== verification/Connection_Storm.thy ===== *)
theory Connection_Storm
  imports Window Stat_Activity Finding
begin

text \<open>
  \<open>crates/pgsleuth-cli/src/connection_storm.rs\<close> and
  \<open>crates/pgsleuth-cli/src/collect_pg_activity.rs\<close>: the connection-storm alarm, which feeds the
  breach counter with "more client backends than the threshold" once per successful poll, and
  the collector that logs the same snapshot.
\<close>

section \<open>The finding\<close>

definition connection_build_finding ::
  "datetime \<Rightarrow> string \<Rightarrow> u64 \<Rightarrow> u64 \<Rightarrow> u32 \<Rightarrow> u64 \<Rightarrow> finding" where
  "connection_build_finding now pg_instance backends threshold streak interval_ms =
     \<lparr>f_schema_version = FINDING_SCHEMA_VERSION,
      f_rule_id = ''storage.conn.storm'',
      f_rule_version = 1,
      f_tier = Standard,
      f_severity = High,
      f_fired_at = now,
      f_pg_instance = \<lparr>inst_id = pg_instance, inst_db_name = None, inst_role = Role_Unknown\<rparr>,
      f_summary =
        ''Client backend count '' @ dec (unat backends) @ '' > '' @ dec (unat threshold)
        @ '' for '' @ dec (unat streak) @ '' consecutive '' @ dec (unat interval_ms)
        @ ''ms intervals (eBPF churn signal pending)'',
      f_evidence = JObj
        [(''client_backends'', JNum (uint backends)),
         (''backend_threshold'', JNum (uint threshold)),
         (''streak_intervals'', JNum (uint streak)),
         (''interval_ms'', JNum (uint interval_ms)),
         (''churn_observed'', JBool False)],
      f_remediation =
        \<lparr>rem_text =
           ''Investigate connection pool sizing and any client retry storms. PG's process-per-connection model makes high concurrent counts expensive even when idle.'',
         rem_knobs = [''max_connections'', ''tcp_keepalives_idle'', ''tcp_keepalives_interval'']\<rparr>,
      f_otel_attributes = btree_insert ''pgsleuth.conn.churn_observed'' (Attr_Bool False) []\<rparr>"

section \<open>The polling loop\<close>

definition connection_tick ::
  "u64 \<Rightarrow> u64 \<Rightarrow> u64 \<Rightarrow> u32 \<Rightarrow> string \<Rightarrow> bool \<Rightarrow> breach_counter \<Rightarrow> activity_db \<times> datetime
   \<Rightarrow> breach_counter \<times> effect list" where
  "connection_tick interval_ms backend_threshold long_xact_threshold_seconds fire_after
     pg_instance_id emitter counter inp =
     (case activity_poll (fst inp) long_xact_threshold_seconds of
        Inl _ \<Rightarrow> (counter, [])
      | Inr snap \<Rightarrow>
          let breached = backend_threshold < ss_client_backends snap;
              r = observe fire_after counter breached
          in (fst r,
              case snd r of
                JustFired streak \<Rightarrow>
                  report emitter
                    (connection_build_finding (snd inp) pg_instance_id (ss_client_backends snap)
                       backend_threshold streak interval_ms)
              | _ \<Rightarrow> []))"

definition connection_storm_run ::
  "string \<Rightarrow> u64 \<Rightarrow> u64 \<Rightarrow> u64 \<Rightarrow> u32 \<Rightarrow> string \<Rightarrow> bool \<Rightarrow> bool \<Rightarrow> (activity_db \<times> datetime) list
   \<Rightarrow> effect list list runtime" where
  "connection_storm_run pg_conn interval_ms backend_threshold long_xact_threshold_seconds
     fire_after pg_instance_id emitter connects ticks =
     (if \<not> connects then Rt_Failed (Connect_Failed pg_conn)
      else if interval_ms = 0 then Rt_Panicked
      else Rt_Polls (tick_outs
        (connection_tick interval_ms backend_threshold long_xact_threshold_seconds fire_after
           pg_instance_id emitter)
        breach_counter_default ticks))"

section \<open>The \<open>pg_stat_activity\<close> collector\<close>

text \<open>One log line per successful poll, with the two derived counts.\<close>

datatype activity_log = Activity_Log u64 u64 u64 u64 "(string \<times> u64) list"

definition log_snapshot :: "session_snapshot \<Rightarrow> activity_log" where
  "log_snapshot s =
     Activity_Log (ss_client_backends s) (idle_in_xact s) (active_waiting_on_lock s)
       (ss_long_running_xacts s) (ss_by_state s)"

definition collect_activity_run ::
  "string \<Rightarrow> u64 \<Rightarrow> u64 \<Rightarrow> bool \<Rightarrow> activity_db list \<Rightarrow> activity_log list runtime" where
  "collect_activity_run pg_conn interval_ms long_xact_threshold_seconds connects ticks =
     (if \<not> connects then Rt_Failed (Connect_Failed pg_conn)
      else if interval_ms = 0 then Rt_Panicked
      else Rt_Polls (concat (map (\<lambda>db.
        case activity_poll db long_xact_threshold_seconds of
          Inl _ \<Rightarrow> [] | Inr snap \<Rightarrow> [log_snapshot snap]) ticks)))"

section \<open>The loop against the history of polls\<close>

definition poll_ok :: "'e + 'a \<Rightarrow> 'a option" where
  "poll_ok r = (case r of Inl _ \<Rightarrow> None | Inr a \<Rightarrow> Some a)"

lemma poll_ok_simps [simp]: "poll_ok (Inl e) = None" "poll_ok (Inr a) = Some a"
  by (simp_all add: poll_ok_def)

definition backend_counts :: "u64 \<Rightarrow> (activity_db \<times> datetime) list \<Rightarrow> u64 list" where
  "backend_counts long_thr ts =
     map ss_client_backends (somes (map (\<lambda>t. poll_ok (activity_poll (fst t) long_thr)) ts))"

definition connection_effects ::
  "u64 \<Rightarrow> u64 \<Rightarrow> u64 \<Rightarrow> u32 \<Rightarrow> string \<Rightarrow> bool \<Rightarrow> (activity_db \<times> datetime) list \<Rightarrow> effect list" where
  "connection_effects interval_ms threshold long_thr fire_after inst emitter ts =
     (let counts = backend_counts long_thr ts in
      if poll_ok (activity_poll (fst (last ts)) long_thr) \<noteq> None
         \<and> run_len (map (\<lambda>n. threshold < n) counts) = max 1 (unat fire_after)
      then report emitter
        (connection_build_finding (snd (last ts)) inst (last counts) threshold (max 1 fire_after)
           interval_ms)
      else [])"

lemma connection_tick_abs:
  "connection_tick iv thr lt n inst em
     (counter_abs n (map (\<lambda>c. thr < c) (backend_counts lt ts))) t =
   (counter_abs n (map (\<lambda>c. thr < c) (backend_counts lt (ts @ [t]))),
    connection_effects iv thr lt n inst em (ts @ [t]))"
proof (cases "activity_poll (fst t) lt")
  case (Inl e)
  then show ?thesis by (simp add: connection_tick_def connection_effects_def backend_counts_def)
next
  case (Inr snap)
  then have "backend_counts lt (ts @ [t]) = backend_counts lt ts @ [ss_client_backends snap]"
    by (simp add: backend_counts_def)
  with Inr show ?thesis
    by (simp add: connection_tick_def connection_effects_def observe_abs case_JustFired Let_def)
qed

interpretation connection_history: history_detector "connection_tick iv thr lt n inst em"
  breach_counter_default "\<lambda>ts. counter_abs n (map (\<lambda>c. thr < c) (backend_counts lt ts))"
  "connection_effects iv thr lt n inst em" for iv thr lt n inst em
proof unfold_locales
  show "counter_abs n (map (\<lambda>c. thr < c) (backend_counts lt [])) = breach_counter_default"
    by (simp add: backend_counts_def counter_abs_default)
qed (rule connection_tick_abs)

interpretation connection_sustained: sustained_alarm "connection_tick iv thr lt n inst em"
  breach_counter_default "\<lambda>ts. counter_abs n (map (\<lambda>c. thr < c) (backend_counts lt ts))"
  "connection_effects iv thr lt n inst em"
  "\<lambda>ts. run_len (map (\<lambda>c. thr < c) (backend_counts lt ts))" "max 1 (unat n)"
  "reports_rule ''storage.conn.storm'' em" for iv thr lt n inst em
proof unfold_locales
  fix ts t
  let ?m = "max 1 (unat n)"
  let ?level = "\<lambda>ts. run_len (map (\<lambda>c. thr < c) (backend_counts lt ts))"
  assume below: "?level ts < ?m" and due: "?m \<le> ?level (ts @ [t])"
  from less_le_trans [OF this] obtain snap where snap: "activity_poll (fst t) lt = Inr snap"
    by (cases "activity_poll (fst t) lt") (simp_all add: backend_counts_def)
  then have "backend_counts lt (ts @ [t]) = backend_counts lt ts @ [ss_client_backends snap]"
    by (simp add: backend_counts_def)
  then have "?level (ts @ [t]) = ?m"
    using run_len_reaches [of _ ?m] below due by (simp only: map_append list.map)
  with snap show "reports_rule ''storage.conn.storm'' em (connection_effects iv thr lt n inst em (ts @ [t]))"
    by (auto simp: connection_effects_def connection_build_finding_def Let_def)
qed (simp add: backend_counts_def)

text \<open>
  The connection-storm alarm as a whole: once connected, with a positive interval, a tick reports exactly when its poll
  succeeded and ends a run of exactly \<open>max 1 fire_after\<close> consecutive successful polls with more
  client backends than the threshold; the finding carries that last count and that run length.
  Failed polls are skipped: they neither extend nor break the run.
\<close>

lemma connection_storm_run_refines:
  "connection_storm_run conn iv thr lt n inst em connects ticks =
     (if \<not> connects then Rt_Failed (Connect_Failed conn)
      else if iv = 0 then Rt_Panicked
      else Rt_Polls (map (\<lambda>i. connection_effects iv thr lt n inst em (take (Suc i) ticks))
                       [0..<length ticks]))"
  by (simp add: connection_storm_run_def connection_history.outs_history)

end
