(* ===== verification/Stat_Statements.thy ===== *)
theory Stat_Statements
  imports Pg_Version F64
begin

text \<open>
  \<open>crates/pgsleuth-postgres/src/stat_statements.rs\<close>: the probe and the poll of
  \<open>pg_stat_statements\<close>. The database is a parameter: the version it reports, what the extension
  query returned (the SQLSTATE of an error, or the number of rows) and the rows of the view.
\<close>

definition STATEMENTS_MIN_PG_VERSION :: u32 where
  "STATEMENTS_MIN_PG_VERSION = 13"

record statement_sample =
  sp_queryid :: i64
  sp_database :: string
  sp_username :: string
  sp_calls :: u64
  sp_total_exec_time_ms :: f64
  sp_rows :: u64
  sp_shared_blks_hit :: u64
  sp_shared_blks_read :: u64

datatype probe_outcome = Ready | ExtensionMissing | PgVersionTooOld u32

text \<open>\<open>query_one\<close> succeeds on exactly one row.\<close>

datatype ext_query = Ext_Rows nat | Ext_Error "string option"

definition probe :: "string option \<Rightarrow> ext_query \<Rightarrow> agent_error + probe_outcome" where
  "probe version ext =
     (case pg_major version of
        Inl e \<Rightarrow> Inl e
      | Inr major \<Rightarrow>
          if major < STATEMENTS_MIN_PG_VERSION then Inr (PgVersionTooOld major)
          else
            (case ext of
               Ext_Rows n \<Rightarrow> if n = 1 then Inr Ready else Inr ExtensionMissing
             | Ext_Error c \<Rightarrow> if c = Some ''42P01'' then Inr ExtensionMissing
                 else Inr ExtensionMissing))"

record statement_row =
  rw_queryid :: i64
  rw_database :: string
  rw_username :: string
  rw_calls :: i64
  rw_total_exec_time_ms :: f64
  rw_rows :: i64
  rw_shared_blks_hit :: i64
  rw_shared_blks_read :: i64

definition sample_of_row :: "statement_row \<Rightarrow> statement_sample" where
  "sample_of_row r =
     \<lparr>sp_queryid = rw_queryid r,
      sp_database = rw_database r,
      sp_username = rw_username r,
      sp_calls = u64_of_i64_or_0 (rw_calls r),
      sp_total_exec_time_ms = rw_total_exec_time_ms r,
      sp_rows = u64_of_i64_or_0 (rw_rows r),
      sp_shared_blks_hit = u64_of_i64_or_0 (rw_shared_blks_hit r),
      sp_shared_blks_read = u64_of_i64_or_0 (rw_shared_blks_read r)\<rparr>"

definition statements_poll :: "statement_row list option \<Rightarrow> agent_error + statement_sample list" where
  "statements_poll rows =
     (case rows of
        None \<Rightarrow> Inl (Query_Failed ''pg_stat_statements query failed'')
      | Some rs \<Rightarrow> Inr (map sample_of_row rs))"

lemma statements_poll_simps [simp]:
  "statements_poll None = Inl (Query_Failed ''pg_stat_statements query failed'')"
  "statements_poll (Some rs) = Inr (map sample_of_row rs)"
  by (simp_all add: statements_poll_def)

text \<open>The sample a row must give, field by field, in exact arithmetic.\<close>

definition sample_matches :: "statement_row \<Rightarrow> statement_sample \<Rightarrow> bool" where
  "sample_matches r s \<longleftrightarrow>
     sp_queryid s = rw_queryid r \<and> sp_database s = rw_database r
     \<and> sp_username s = rw_username r \<and> sp_total_exec_time_ms s = rw_total_exec_time_ms r
     \<and> uint (sp_calls s) = max 0 (sint (rw_calls r))
     \<and> uint (sp_rows s) = max 0 (sint (rw_rows r))
     \<and> uint (sp_shared_blks_hit s) = max 0 (sint (rw_shared_blks_hit r))
     \<and> uint (sp_shared_blks_read s) = max 0 (sint (rw_shared_blks_read r))"

lemma sample_matches_eq: "sample_matches = (\<lambda>r s. s = sample_of_row r)"
proof (intro ext)
  show "sample_matches r s = (s = sample_of_row r)" for r s
    by (cases s)
      (auto simp: sample_matches_def sample_of_row_def word_uint_eq_iff uint_u64_of_i64_or_0)
qed

lemma probe_dec:
  assumes "num < 2 ^ 32"
  shows "probe (Some (dec num)) ext =
    (if num < 130000 then Inr (PgVersionTooOld (of_nat (num div 10000)))
     else if ext = Ext_Rows 1 then Inr Ready
     else Inr ExtensionMissing)"
proof -
  have "(of_nat (num div 10000) :: u32) < 13 \<longleftrightarrow> num < 130000"
    using assms
    by (auto simp: word_less_nat_alt unsigned_of_nat take_bit_nat_eq_self div_less_iff_less_mult)
  then show ?thesis
    using assms
    by (auto simp: probe_def pg_major_dec STATEMENTS_MIN_PG_VERSION_def split: ext_query.split)
qed

section \<open>Properties\<close>

text \<open>
  Polling keeps every row of the view and clamps: there is one sample per row, in the view's
  order, with the row's labels and execution time, and each of the four integer counters is the
  row's value, or 0 when the row's value is negative.
\<close>

lemma statements_poll_clamps:
  "statements_poll (Some rs) = Inr ss \<longleftrightarrow> list_all2 sample_matches rs ss"
proof -
  have "list_all2 (\<lambda>r s. s = sample_of_row r) rs ss \<longleftrightarrow> ss = map sample_of_row rs"
    by (induction rs arbitrary: ss) (auto simp: list_all2_Cons1)
  then show ?thesis by (auto simp: sample_matches_eq)
qed

end
