(* ===== verification/Otel_Mapping.thy ===== *)
theory Otel_Mapping
  imports Finding
begin

text \<open>
  \<open>crates/pgsleuth-otel/src/mapping.rs\<close> and the log half of \<open>crates/pgsleuth-otel/src/lib.rs\<close>:
  how a finding becomes one OpenTelemetry log record. \<open>serde_json\<close> is not part of the
  repository: the rendering of the evidence (\<open>Value::to_string\<close>) and of the remediation
  (\<open>serde_json::to_string\<close>, which may fail) are the parameters \<open>show_json\<close> and \<open>show_rem\<close>.
\<close>

section \<open>The mapped record\<close>

definition MAPPING_VERSION :: u32 where
  "MAPPING_VERSION = 1"

datatype otel_severity = Sev_Info | Sev_Info4 | Sev_Warn | Sev_Error | Sev_Fatal

datatype any_value = Any_Int i64 | Any_Double f64 | Any_String string | Any_Boolean bool

text \<open>The OpenTelemetry \<open>SeverityNumber\<close> of each name the code uses.\<close>

fun severity_number :: "otel_severity \<Rightarrow> nat" where
  "severity_number Sev_Info = 9"
| "severity_number Sev_Info4 = 12"
| "severity_number Sev_Warn = 13"
| "severity_number Sev_Error = 17"
| "severity_number Sev_Fatal = 21"

text \<open>A \<open>SystemTime\<close> as its distance from \<open>UNIX_EPOCH\<close> in seconds and nanoseconds.\<close>

type_synonym system_time = "int \<times> nat"

record mapped_finding =
  mf_timestamp :: system_time
  mf_severity_number :: otel_severity
  mf_severity_text :: string
  mf_body :: string
  mf_attributes :: "(string \<times> any_value) list"

text \<open>
  \<open>UNIX_EPOCH + Duration::new(secs, nanos)\<close>: \<open>Duration::new\<close> carries whole seconds out of the
  nanoseconds (a chrono leap second has up to 1_999_999_999 of them), and the addition panics
  (None) when the seconds leave \<open>i64\<close>.
\<close>

definition chrono_to_system_time :: "datetime \<Rightarrow> system_time option" where
  "chrono_to_system_time dt =
     (let secs = sint (dt_timestamp dt); nanos = unat (dt_subsec_nanos dt) in
      if 0 \<le> secs
      then (let s = secs + int (nanos div 1000000000) in
            if s < 2 ^ 63 then Some (s, nanos mod 1000000000) else None)
      else Some (0, 0))"

fun map_severity :: "severity \<Rightarrow> otel_severity \<times> string" where
  "map_severity Info = (Sev_Info, ''INFO'')"
| "map_severity Low = (Sev_Info4, ''INFO4'')"
| "map_severity Medium = (Sev_Warn, ''WARN'')"
| "map_severity High = (Sev_Error, ''ERROR'')"
| "map_severity Critical = (Sev_Fatal, ''FATAL'')"

fun tier_str :: "tier \<Rightarrow> string" where
  "tier_str Standard = ''standard''"
| "tier_str CloudEnhanced = ''cloud_enhanced''"
| "tier_str Deep = ''deep''"

fun role_str :: "pg_role \<Rightarrow> string" where
  "role_str Primary = ''primary''"
| "role_str Replica = ''replica''"
| "role_str Role_Unknown = ''unknown''"

fun attribute_to_any :: "attribute_value \<Rightarrow> any_value" where
  "attribute_to_any (Attr_String s) = Any_String s"
| "attribute_to_any (Attr_Int i) = Any_Int i"
| "attribute_to_any (Attr_Double d) = Any_Double d"
| "attribute_to_any (Attr_Bool b) = Any_Boolean b"

definition map_attributes ::
  "(json \<Rightarrow> string) \<Rightarrow> (remediation \<Rightarrow> string option) \<Rightarrow> finding \<Rightarrow> (string \<times> any_value) list" where
  "map_attributes show_json show_rem f =
     [(''pgsleuth.schema.version'', Any_Int (ucast (f_schema_version f))),
      (''pgsleuth.mapping.version'', Any_Int (ucast MAPPING_VERSION)),
      (''pgsleuth.finding.schema.version'', Any_Int (ucast FINDING_SCHEMA_VERSION)),
      (''pgsleuth.rule.id'', Any_String (f_rule_id f)),
      (''pgsleuth.rule.version'', Any_Int (ucast (f_rule_version f))),
      (''pgsleuth.tier'', Any_String (tier_str (f_tier f))),
      (''pgsleuth.pg.instance'', Any_String (inst_id (f_pg_instance f))),
      (''pgsleuth.pg.role'', Any_String (role_str (inst_role (f_pg_instance f))))]
     @ (case inst_db_name (f_pg_instance f) of
          Some d \<Rightarrow> [(''db.name'', Any_String d)] | None \<Rightarrow> [])
     @ (if f_evidence f \<noteq> JNull
        then [(''pgsleuth.evidence'', Any_String (show_json (f_evidence f)))] else [])
     @ (case show_rem (f_remediation f) of
          Some r \<Rightarrow> [(''pgsleuth.remediation'', Any_String r)] | None \<Rightarrow> [])
     @ map (\<lambda>(k, v). (k, attribute_to_any v)) (f_otel_attributes f)"

definition map_finding ::
  "(json \<Rightarrow> string) \<Rightarrow> (remediation \<Rightarrow> string option) \<Rightarrow> finding \<Rightarrow> mapped_finding option" where
  "map_finding show_json show_rem f =
     (case chrono_to_system_time (f_fired_at f) of
        None \<Rightarrow> None
      | Some t \<Rightarrow> Some
          \<lparr>mf_timestamp = t,
           mf_severity_number = fst (map_severity (f_severity f)),
           mf_severity_text = snd (map_severity (f_severity f)),
           mf_body = f_summary f,
           mf_attributes = map_attributes show_json show_rem f\<rparr>)"

section \<open>The log record handed to the batch processor\<close>

definition INSTRUMENTATION_SCOPE :: string where
  "INSTRUMENTATION_SCOPE = ''pgsleuth''"

record log_record =
  lr_scope :: string
  lr_timestamp :: system_time
  lr_observed :: system_time
  lr_severity_number :: otel_severity
  lr_severity_text :: string
  lr_body :: any_value
  lr_attributes :: "(string \<times> any_value) list"

definition emit ::
  "(json \<Rightarrow> string) \<Rightarrow> (remediation \<Rightarrow> string option) \<Rightarrow> system_time \<Rightarrow> finding \<Rightarrow> log_record option" where
  "emit show_json show_rem now f =
     map_option (\<lambda>m.
       \<lparr>lr_scope = INSTRUMENTATION_SCOPE,
        lr_timestamp = mf_timestamp m,
        lr_observed = now,
        lr_severity_number = mf_severity_number m,
        lr_severity_text = mf_severity_text m,
        lr_body = Any_String (mf_body m),
        lr_attributes = mf_attributes m\<rparr>) (map_finding show_json show_rem f)"

section \<open>The resource of a pipeline\<close>

datatype otel_value = Val_String string | Val_I64 i64 | Val_F64 f64 | Val_Bool bool

record emitter_config =
  ec_otlp_endpoint :: string
  ec_service_name :: string
  ec_resource_attributes :: "(string \<times> attribute_value) list"

text \<open>The configuration every binary of the agent builds from its endpoint argument.\<close>

definition agent_emitter_config :: "string \<Rightarrow> emitter_config" where
  "agent_emitter_config otlp_endpoint =
     \<lparr>ec_otlp_endpoint = otlp_endpoint, ec_service_name = ''pgsleuth-agent'',
      ec_resource_attributes = []\<rparr>"

fun attribute_to_otel :: "attribute_value \<Rightarrow> otel_value" where
  "attribute_to_otel (Attr_String s) = Val_String s"
| "attribute_to_otel (Attr_Int i) = Val_I64 i"
| "attribute_to_otel (Attr_Double d) = Val_F64 d"
| "attribute_to_otel (Attr_Bool b) = Val_Bool b"

definition build_resource :: "emitter_config \<Rightarrow> (string \<times> otel_value) list" where
  "build_resource c =
     (''service.name'', Val_String (ec_service_name c))
     # map (\<lambda>(k, v). (k, attribute_to_otel v)) (ec_resource_attributes c)"

text \<open>
  Building the log pipeline, which the SDK may refuse, and shutting it down: its error is logged and
  goes no further.
\<close>

record log_pipeline =
  lp_resource :: "(string \<times> otel_value) list"
  lp_endpoint :: string

definition emitter_try_new :: "(log_pipeline \<Rightarrow> 'p option) \<Rightarrow> emitter_config \<Rightarrow> string + 'p" where
  "emitter_try_new install_batch config =
     (case install_batch
         \<lparr>lp_resource = build_resource config, lp_endpoint = ec_otlp_endpoint config\<rparr> of
        None \<Rightarrow> Inl ''failed to install `OTLP` log pipeline''
      | Some provider \<Rightarrow> Inr provider)"

definition emitter_shutdown :: "string option \<Rightarrow> string list" where
  "emitter_shutdown err =
     (case err of None \<Rightarrow> [] | Some e \<Rightarrow> [''`OTel` logger provider shutdown reported an error: '' @ e])"

section \<open>Facts\<close>

definition stable_keys :: "string list" where
  "stable_keys =
     [''pgsleuth.schema.version'', ''pgsleuth.mapping.version'',
      ''pgsleuth.finding.schema.version'', ''pgsleuth.rule.id'', ''pgsleuth.rule.version'',
      ''pgsleuth.tier'', ''pgsleuth.pg.instance'', ''pgsleuth.pg.role'', ''db.name'',
      ''pgsleuth.evidence'', ''pgsleuth.remediation'']"

lemma tier_str_inject [simp]: "tier_str a = tier_str b \<longleftrightarrow> a = b"
  by (cases a; cases b) simp_all

lemma role_str_inject [simp]: "role_str a = role_str b \<longleftrightarrow> a = b"
  by (cases a; cases b) simp_all

lemma map_severity_inject [simp]: "map_severity a = map_severity b \<longleftrightarrow> a = b"
  by (cases a; cases b) simp_all

lemma map_severity_number_inject [simp]:
  "fst (map_severity a) = fst (map_severity b) \<longleftrightarrow> a = b"
  by (cases a; cases b) simp_all

lemma attribute_to_any_inject [simp]: "attribute_to_any a = attribute_to_any b \<longleftrightarrow> a = b"
  by (cases a; cases b) simp_all

lemma chrono_in_range:
  assumes "sint (dt_timestamp dt) < 2 ^ 62"
  shows "chrono_to_system_time dt \<noteq> None"
proof -
  have "unat (dt_subsec_nanos dt) div 1000000000 < 5"
    using unat_u32_less [of "dt_subsec_nanos dt"] by linarith
  with assms show ?thesis by (simp add: chrono_to_system_time_def Let_def)
qed

lemma map_finding_Some:
  "map_finding sj sr f = Some m \<Longrightarrow> mf_attributes m = map_attributes sj sr f"
  by (auto simp: map_finding_def split: option.splits)

lemma stable_prefix_keys:
  "map fst (map_attributes sj sr f) =
     [''pgsleuth.schema.version'', ''pgsleuth.mapping.version'',
      ''pgsleuth.finding.schema.version'', ''pgsleuth.rule.id'', ''pgsleuth.rule.version'',
      ''pgsleuth.tier'', ''pgsleuth.pg.instance'', ''pgsleuth.pg.role'']
     @ (if inst_db_name (f_pg_instance f) = None then [] else [''db.name''])
     @ (if f_evidence f = JNull then [] else [''pgsleuth.evidence''])
     @ (if sr (f_remediation f) = None then [] else [''pgsleuth.remediation''])
     @ map fst (f_otel_attributes f)"
  by (auto simp: map_attributes_def case_prod_beta split: option.split)

lemma map_of_map_snd: "map_of (map (\<lambda>(k, v). (k, g v)) m) k = map_option g (map_of m k)"
  by (induction m) auto

lemma map_attributes_lookup:
  assumes "set stable_keys \<inter> fst ` set (f_otel_attributes f) = {}"
  shows
    "map_of (map_attributes sj sr f) ''pgsleuth.schema.version'' =
       Some (Any_Int (ucast (f_schema_version f)))"
    "map_of (map_attributes sj sr f) ''pgsleuth.rule.id'' = Some (Any_String (f_rule_id f))"
    "map_of (map_attributes sj sr f) ''pgsleuth.rule.version'' =
       Some (Any_Int (ucast (f_rule_version f)))"
    "map_of (map_attributes sj sr f) ''pgsleuth.tier'' = Some (Any_String (tier_str (f_tier f)))"
    "map_of (map_attributes sj sr f) ''pgsleuth.pg.instance'' =
       Some (Any_String (inst_id (f_pg_instance f)))"
    "map_of (map_attributes sj sr f) ''pgsleuth.pg.role'' =
       Some (Any_String (role_str (inst_role (f_pg_instance f))))"
    "map_of (map_attributes sj sr f) ''db.name'' =
       map_option Any_String (inst_db_name (f_pg_instance f))"
    "map_of (map_attributes sj sr f) ''pgsleuth.evidence'' =
       (if f_evidence f = JNull then None else Some (Any_String (sj (f_evidence f))))"
    "map_of (map_attributes sj sr f) ''pgsleuth.remediation'' =
       map_option Any_String (sr (f_remediation f))"
proof -
  have none: "map_of (f_otel_attributes f) k = None" if "k \<in> set stable_keys" for k
    using assms that by (auto simp: map_of_eq_None_iff)
  have stable: "''db.name'' \<in> set stable_keys" "''pgsleuth.evidence'' \<in> set stable_keys"
    "''pgsleuth.remediation'' \<in> set stable_keys"
    by (simp_all add: stable_keys_def)
  show
    "map_of (map_attributes sj sr f) ''pgsleuth.schema.version'' =
       Some (Any_Int (ucast (f_schema_version f)))"
    "map_of (map_attributes sj sr f) ''pgsleuth.rule.id'' = Some (Any_String (f_rule_id f))"
    "map_of (map_attributes sj sr f) ''pgsleuth.rule.version'' =
       Some (Any_Int (ucast (f_rule_version f)))"
    "map_of (map_attributes sj sr f) ''pgsleuth.tier'' = Some (Any_String (tier_str (f_tier f)))"
    "map_of (map_attributes sj sr f) ''pgsleuth.pg.instance'' =
       Some (Any_String (inst_id (f_pg_instance f)))"
    "map_of (map_attributes sj sr f) ''pgsleuth.pg.role'' =
       Some (Any_String (role_str (inst_role (f_pg_instance f))))"
    by (simp_all add: map_attributes_def)
  show "map_of (map_attributes sj sr f) ''db.name'' =
      map_option Any_String (inst_db_name (f_pg_instance f))"
    by (simp add: map_attributes_def map_of_map_snd none stable split: option.split)
  show "map_of (map_attributes sj sr f) ''pgsleuth.evidence'' =
      (if f_evidence f = JNull then None else Some (Any_String (sj (f_evidence f))))"
    by (simp add: map_attributes_def map_of_map_snd none stable split: option.split)
  show "map_of (map_attributes sj sr f) ''pgsleuth.remediation'' =
      map_option Any_String (sr (f_remediation f))"
    by (simp add: map_attributes_def map_of_map_snd none stable split: option.split)
qed

lemma map_attributes_rest:
  assumes "set stable_keys \<inter> fst ` set (f_otel_attributes f) = {}"
  shows "filter (\<lambda>kv. fst kv \<notin> set stable_keys) (map_attributes sj sr f) =
    map (\<lambda>(k, v). (k, attribute_to_any v)) (f_otel_attributes f)"
proof -
  have "filter (\<lambda>kv. fst kv \<notin> set stable_keys)
      (map (\<lambda>(k, v). (k, attribute_to_any v)) (f_otel_attributes f)) =
    map (\<lambda>(k, v). (k, attribute_to_any v)) (f_otel_attributes f)"
    using assms by (force simp: filter_id_conv)
  then show ?thesis by (simp add: map_attributes_def stable_keys_def split: option.split)
qed

lemma ucast_u32_inject: "(ucast a :: i64) = ucast b \<longleftrightarrow> a = b" for a b :: u32
proof -
  have "unat (ucast w :: i64) = unat w" for w :: u32
  proof -
    have "unat w < 2 ^ 64" by (rule order.strict_trans2 [OF unat_less_pow]) simp
    then show ?thesis by (simp add: unsigned_ucast_eq take_bit_nat_eq_self)
  qed
  then show ?thesis by (metis word_unat_eq_iff)
qed

lemma map_pairs_inject:
  assumes "map (\<lambda>(k, v). (k, attribute_to_any v)) xs = map (\<lambda>(k, v). (k, attribute_to_any v)) ys"
  shows "xs = (ys :: (string \<times> attribute_value) list)"
proof -
  have "inj (\<lambda>(k :: string, v). (k, attribute_to_any v))" by (auto intro: injI)
  then show ?thesis using assms by (simp add: inj_map_eq_map)
qed

lemma chrono_inject:
  assumes "chrono_to_system_time a = chrono_to_system_time b" and "chrono_to_system_time a \<noteq> None"
    and "0 \<le> sint (dt_timestamp a) \<and> unat (dt_subsec_nanos a) < 1000000000"
    and "0 \<le> sint (dt_timestamp b) \<and> unat (dt_subsec_nanos b) < 1000000000"
  shows "a = (b :: datetime)"
proof -
  have "sint (dt_timestamp a) = sint (dt_timestamp b)"
    "unat (dt_subsec_nanos a) = unat (dt_subsec_nanos b)"
    using assms by (auto simp: chrono_to_system_time_def Let_def split: if_splits)
  then have "dt_timestamp a = dt_timestamp b" "dt_subsec_nanos a = dt_subsec_nanos b"
    by (auto intro: signed_word_eqI word_unat_eq_iff [THEN iffD2])
  then show ?thesis by (intro datetime.equality) simp_all
qed

section \<open>Properties\<close>

text \<open>
  C11. Nothing of a finding is lost on the wire: when the JSON renderings tell the
  two findings apart and succeed, the rules' own attributes avoid the agent's keys, and the timestamps are ordinary ones
  (after 1970, no leap second), then two findings with the same log record are the same finding.
\<close>

theorem mapping_lossless:
  assumes "map_finding sj sr f = Some m" and "map_finding sj sr g = Some m"
    and "sj (f_evidence f) = sj (f_evidence g) \<Longrightarrow> f_evidence f = f_evidence g"
    and "sr (f_remediation f) \<noteq> None \<and> (sr (f_remediation f) = sr (f_remediation g) \<longrightarrow>
      f_remediation f = f_remediation g)"
    and "set stable_keys \<inter> fst ` set (f_otel_attributes f) = {}"
    and "set stable_keys \<inter> fst ` set (f_otel_attributes g) = {}"
    and "\<forall>dt\<in>{f_fired_at f, f_fired_at g}.
      0 \<le> sint (dt_timestamp dt) \<and> unat (dt_subsec_nanos dt) < 1000000000"
  shows "f = g"
proof -
  have attrs: "map_attributes sj sr f = map_attributes sj sr g"
    using assms(1,2) by (metis map_finding_Some)
  note look = map_attributes_lookup [OF assms(5), of sj sr] map_attributes_lookup [OF assms(6), of sj sr]
  have "f_schema_version f = f_schema_version g" "f_rule_id f = f_rule_id g"
    "f_rule_version f = f_rule_version g" "f_tier f = f_tier g"
    "inst_id (f_pg_instance f) = inst_id (f_pg_instance g)"
    "inst_role (f_pg_instance f) = inst_role (f_pg_instance g)"
    using look attrs by (simp_all add: ucast_u32_inject)
  moreover have "inst_db_name (f_pg_instance f) = inst_db_name (f_pg_instance g)"
    using look(7,16) attrs by (cases "inst_db_name (f_pg_instance f)";
      cases "inst_db_name (f_pg_instance g)") simp_all
  moreover have "f_evidence f = f_evidence g"
    using look(8,17) attrs assms(3) by (auto split: if_splits)
  moreover have "f_remediation f = f_remediation g"
  proof -
    have "map_option Any_String (sr (f_remediation f)) = map_option Any_String (sr (f_remediation g))"
      using look(9,18) attrs by simp
    then have "sr (f_remediation f) = sr (f_remediation g)"
      by (cases "sr (f_remediation f)"; cases "sr (f_remediation g)") simp_all
    then show ?thesis using assms(4) by simp
  qed
  moreover have "f_otel_attributes f = f_otel_attributes g"
    using map_attributes_rest [OF assms(5), of sj sr] map_attributes_rest [OF assms(6), of sj sr] attrs
    by (intro map_pairs_inject) simp
  moreover have "f_severity f = f_severity g" "f_summary f = f_summary g"
  proof -
    have "fst (map_severity (f_severity f)) = fst (map_severity (f_severity g))"
      "f_summary f = f_summary g"
      using assms(1,2) by (auto simp: map_finding_def split: option.splits)
    then show "f_severity f = f_severity g" "f_summary f = f_summary g" by simp_all
  qed
  moreover have "f_fired_at f = f_fired_at g"
  proof -
    have "chrono_to_system_time (f_fired_at f) = chrono_to_system_time (f_fired_at g)"
      "chrono_to_system_time (f_fired_at f) \<noteq> None"
      using assms(1,2) by (auto simp: map_finding_def split: option.splits)
    then show ?thesis using assms(7) by (intro chrono_inject) simp_all
  qed
  moreover have "f_pg_instance f = f_pg_instance g"
    using calculation by (intro pg_instance_ref.equality) simp_all
  ultimately show ?thesis by (intro finding.equality) simp_all
qed

text \<open>A finding and two renderings, for the witnesses.\<close>

definition example_finding :: finding where
  "example_finding =
     \<lparr>f_schema_version = 1, f_rule_id = ''replica.lag.high'', f_rule_version = 1,
      f_tier = Standard, f_severity = High,
      f_fired_at = \<lparr>dt_timestamp = 1781276400, dt_subsec_nanos = 5\<rparr>,
      f_pg_instance = \<lparr>inst_id = ''prod-main'', inst_db_name = Some ''app'', inst_role = Replica\<rparr>,
      f_summary = ''Replica prod-main lag'',
      f_evidence = JStr ''lag'',
      f_remediation = \<lparr>rem_text = ''Investigate'', rem_knobs = [''max_wal_senders'']\<rparr>,
      f_otel_attributes = [(''pgsleuth.replica.id'', Attr_String ''replica-2'')]\<rparr>"

definition example_show_json :: "json \<Rightarrow> string" where
  "example_show_json j = (case j of JStr s \<Rightarrow> CHR 0x22 # s @ [CHR 0x22] | _ \<Rightarrow> ''{}'')"

definition example_show_rem :: "remediation \<Rightarrow> string option" where
  "example_show_rem r = Some (rem_text r)"

lemmas example_finding_simps = example_finding_def map_finding_def chrono_to_system_time_def
  Let_def map_attributes_def example_show_json_def example_show_rem_def stable_keys_def

theorem mapping_lossless_witness:
  "example_finding\<lparr>f_summary := ''Replica prod-main lag''\<rparr> = example_finding"
proof (rule mapping_lossless)
  show "map_finding example_show_json example_show_rem example_finding =
      Some (the (map_finding example_show_json example_show_rem example_finding))"
    by (simp add: example_finding_simps)
  then show "map_finding example_show_json example_show_rem
      (example_finding\<lparr>f_summary := ''Replica prod-main lag''\<rparr>) =
      Some (the (map_finding example_show_json example_show_rem example_finding))"
    by (simp add: example_finding_simps)
qed (simp_all add: example_finding_def example_show_rem_def stable_keys_def)

text \<open>
  Every fact of a finding has its attribute: when the rule's own attributes are a map that avoids
  the agent's keys, the record's attributes have no duplicate key, and each stable key and each of
  the rule's own attributes reads back the value it was given.
\<close>

lemma mapping_attributes:
  assumes "map_finding sj sr f = Some m" and "btree_wf (f_otel_attributes f)"
    and "set stable_keys \<inter> fst ` set (f_otel_attributes f) = {}"
  shows "distinct (map fst (mf_attributes m))
    \<and> map_of (mf_attributes m) ''pgsleuth.rule.id'' = Some (Any_String (f_rule_id f))
    \<and> map_of (mf_attributes m) ''pgsleuth.tier'' = Some (Any_String (tier_str (f_tier f)))
    \<and> map_of (mf_attributes m) ''pgsleuth.pg.instance'' = Some (Any_String (inst_id (f_pg_instance f)))
    \<and> map_of (mf_attributes m) ''db.name'' = map_option Any_String (inst_db_name (f_pg_instance f))
    \<and> map_of (mf_attributes m) ''pgsleuth.evidence'' =
        (if f_evidence f = JNull then None else Some (Any_String (sj (f_evidence f))))
    \<and> (\<forall>k v. map_of (f_otel_attributes f) k = Some v \<longrightarrow>
        map_of (mf_attributes m) k = Some (attribute_to_any v))"
proof -
  have dist: "distinct (map fst (map_attributes sj sr f))"
    using assms(2,3) btree_wf_distinct [of "f_otel_attributes f"]
    by (auto simp: stable_prefix_keys stable_keys_def)
  have "map_of (map_attributes sj sr f) k = Some (attribute_to_any v)"
    if "map_of (f_otel_attributes f) k = Some v" for k v
  proof -
    have "(k, attribute_to_any v) \<in> set (map_attributes sj sr f)"
      unfolding map_attributes_def set_append set_map
      using imageI [OF map_of_SomeD [OF that], of "\<lambda>(k, v). (k, attribute_to_any v)"] by simp
    with dist show ?thesis by (rule map_of_is_SomeI)
  qed
  with dist show ?thesis
    by (simp add: map_finding_Some [OF assms(1)] map_attributes_lookup [OF assms(3)])
qed

text \<open>
  Severity survives as an order: a finding is more severe than another exactly when its log record
  has the greater OpenTelemetry severity number, so a threshold on the wire is a threshold on the
  finding's severity.
\<close>

lemma severity_order_preserved:
  "s < t \<longleftrightarrow> severity_number (fst (map_severity s)) < severity_number (fst (map_severity t))"
  by (cases s; cases t) (simp_all add: less_severity_def)

end
