(* ===== verification/Otel_Metrics.thy ===== *)
theory Otel_Metrics
  imports Rust_Text Otel_Mapping
begin

text \<open>
  \<open>crates/pgsleuth-otel/src/metrics.rs\<close>: the instruments the metrics emitter creates and what it
  asks of them. The OpenTelemetry SDK is not part of the repository: whether a pipeline can be
  installed is a parameter, a call of an instrument is an event, and the value a counter shows for
  a set of attributes is the sum of the increments it was given.
\<close>

definition METRICS_SCOPE :: string where
  "METRICS_SCOPE = ''pgsleuth''"

datatype metric_event =
    Counter_Add string u64 "(string \<times> string) list"
  | Histogram_Record string u64 "(string \<times> string) list"

text \<open>An instrument as the builder describes it, and the pipeline the emitter asks for.\<close>

datatype instrument_kind = U64_Histogram | U64_Counter

record instrument =
  in_kind :: instrument_kind
  in_name :: string
  in_description :: string
  in_unit :: "string option"

record metrics_pipeline =
  mp_endpoint :: string
  mp_period_secs :: nat
  mp_timeout_secs :: nat

record 'p metrics_emitter =
  me_provider :: 'p
  me_wal_io_latency :: instrument
  me_pg_stmt_calls :: instrument
  me_pg_stmt_exec_time_ms :: instrument
  me_pg_stmt_rows :: instrument
  me_pg_stmt_blks_hit :: instrument
  me_pg_stmt_blks_read :: instrument

definition metrics_try_new ::
  "(metrics_pipeline \<Rightarrow> 'p option) \<Rightarrow> emitter_config \<Rightarrow> string + 'p metrics_emitter" where
  "metrics_try_new install config =
     (case install \<lparr>mp_endpoint = ec_otlp_endpoint config, mp_period_secs = 1, mp_timeout_secs = 3\<rparr> of
        None \<Rightarrow> Inl ''failed to install `OTLP` metrics pipeline''
      | Some provider \<Rightarrow> Inr
          \<lparr>me_provider = provider,
           me_wal_io_latency =
             \<lparr>in_kind = U64_Histogram, in_name = ''pgsleuth.wal.io.latency'',
              in_description =
                ''Per-IO latency on the WAL device, in nanoseconds. Attributes: device (kernel dev_t), op (read|write|write_flush|other).'',
              in_unit = Some ''ns''\<rparr>,
           me_pg_stmt_calls =
             \<lparr>in_kind = U64_Counter, in_name = ''pgsleuth.pg.stmt.calls'',
              in_description = ''pg_stat_statements.calls (delta since previous poll).'',
              in_unit = None\<rparr>,
           me_pg_stmt_exec_time_ms =
             \<lparr>in_kind = U64_Counter, in_name = ''pgsleuth.pg.stmt.total_exec_time_ms'',
              in_description = ''pg_stat_statements.total_exec_time delta since previous poll.'',
              in_unit = Some ''ms''\<rparr>,
           me_pg_stmt_rows =
             \<lparr>in_kind = U64_Counter, in_name = ''pgsleuth.pg.stmt.rows'',
              in_description = ''pg_stat_statements.rows (delta since previous poll).'',
              in_unit = None\<rparr>,
           me_pg_stmt_blks_hit =
             \<lparr>in_kind = U64_Counter, in_name = ''pgsleuth.pg.stmt.shared_blks_hit'',
              in_description = ''pg_stat_statements.shared_blks_hit (delta since previous poll).'',
              in_unit = None\<rparr>,
           me_pg_stmt_blks_read =
             \<lparr>in_kind = U64_Counter, in_name = ''pgsleuth.pg.stmt.shared_blks_read'',
              in_description = ''pg_stat_statements.shared_blks_read (delta since previous poll).'',
              in_unit = None\<rparr>\<rparr>)"

text \<open>What the shutdown logs: the provider's error when it reports one.\<close>

definition metrics_shutdown :: "string option \<Rightarrow> string list" where
  "metrics_shutdown err =
     (case err of None \<Rightarrow> [] | Some e \<Rightarrow> [''OTel meter provider shutdown reported an error: '' @ e])"

record pg_stmt_delta =
  dl_queryid :: i64
  dl_database :: string
  dl_username :: string
  dl_calls :: u64
  dl_exec_time_ms :: u64
  dl_rows :: u64
  dl_blks_hit :: u64
  dl_blks_read :: u64

definition stmt_attrs :: "i64 \<Rightarrow> string \<Rightarrow> string \<Rightarrow> (string \<times> string) list" where
  "stmt_attrs queryid database username =
     [(''pgsleuth.pg.queryid'', dec_int (sint queryid)), (''db.name'', database),
      (''pgsleuth.pg.user'', username)]"

definition record_pg_stmt_delta :: "pg_stmt_delta \<Rightarrow> metric_event list" where
  "record_pg_stmt_delta d =
     (let attrs = stmt_attrs (dl_queryid d) (dl_database d) (dl_username d) in
      [Counter_Add ''pgsleuth.pg.stmt.calls'' (dl_calls d) attrs,
       Counter_Add ''pgsleuth.pg.stmt.total_exec_time_ms'' (dl_exec_time_ms d) attrs,
       Counter_Add ''pgsleuth.pg.stmt.rows'' (dl_rows d) attrs,
       Counter_Add ''pgsleuth.pg.stmt.shared_blks_hit'' (dl_blks_hit d) attrs,
       Counter_Add ''pgsleuth.pg.stmt.shared_blks_read'' (dl_blks_read d) attrs])"

definition record_wal_io_latency :: "u64 \<Rightarrow> string \<Rightarrow> string \<Rightarrow> metric_event" where
  "record_wal_io_latency latency_ns device op =
     Histogram_Record ''pgsleuth.wal.io.latency'' latency_ns [(''device'', device), (''op'', op)]"

section \<open>What a counter shows\<close>

definition counter_total :: "string \<Rightarrow> (string \<times> string) list \<Rightarrow> metric_event list \<Rightarrow> nat" where
  "counter_total metric attrs es =
     sum_list (map (\<lambda>e. case e of
         Counter_Add m v a \<Rightarrow> if m = metric \<and> a = attrs then unat v else 0
       | Histogram_Record _ _ _ \<Rightarrow> 0) es)"

lemma counter_total_append [simp]:
  "counter_total m a (es @ es') = counter_total m a es + counter_total m a es'"
  by (simp add: counter_total_def)

lemma counter_total_Nil [simp]: "counter_total m a [] = 0"
  by (simp add: counter_total_def)

lemma dec_int_inject: "dec_int i = dec_int j \<longleftrightarrow> i = j"
proof -
  have "dec n \<noteq> CHR ''-'' # s" for n s
    using dec_digits [of "CHR ''-''" n] digit_not_sign [of "CHR ''-''"] by auto
  moreover have "CHR ''-'' # s \<noteq> dec n" for n s
    using dec_digits [of "CHR ''-''" n] digit_not_sign [of "CHR ''-''"]
    by (metis list.set_intros(1))
  ultimately show ?thesis by (auto simp: dec_int_def)
qed

lemma stmt_attrs_inject:
  "stmt_attrs q d u = stmt_attrs q' d' u' \<longleftrightarrow> q = q' \<and> d = d' \<and> u = u'"
  by (auto simp: stmt_attrs_def dec_int_inject intro: signed_word_eqI)

text \<open>The five counters and the field of a delta each of them adds.\<close>

definition stmt_counters :: "(string \<times> (pg_stmt_delta \<Rightarrow> u64)) list" where
  "stmt_counters =
     [(''pgsleuth.pg.stmt.calls'', dl_calls),
      (''pgsleuth.pg.stmt.total_exec_time_ms'', dl_exec_time_ms),
      (''pgsleuth.pg.stmt.rows'', dl_rows),
      (''pgsleuth.pg.stmt.shared_blks_hit'', dl_blks_hit),
      (''pgsleuth.pg.stmt.shared_blks_read'', dl_blks_read)]"

lemma record_pg_stmt_delta_total:
  assumes "(m, field) \<in> set stmt_counters"
  shows "counter_total m attrs (record_pg_stmt_delta d) =
    (if attrs = stmt_attrs (dl_queryid d) (dl_database d) (dl_username d)
     then unat (field d) else 0)"
  using assms
  by (auto simp: stmt_counters_def record_pg_stmt_delta_def counter_total_def Let_def)

section \<open>Events and instruments\<close>

text \<open>The instruments of an emitter, and when an event is a call of an instrument.\<close>

definition instruments :: "'p metrics_emitter \<Rightarrow> instrument list" where
  "instruments me =
     [me_wal_io_latency me, me_pg_stmt_calls me, me_pg_stmt_exec_time_ms me, me_pg_stmt_rows me,
      me_pg_stmt_blks_hit me, me_pg_stmt_blks_read me]"

fun calls_instrument :: "metric_event \<Rightarrow> instrument \<Rightarrow> bool" where
  "calls_instrument (Counter_Add m _ _) i \<longleftrightarrow> in_kind i = U64_Counter \<and> in_name i = m"
| "calls_instrument (Histogram_Record m _ _) i \<longleftrightarrow> in_kind i = U64_Histogram \<and> in_name i = m"

lemma created_instruments:
  assumes "metrics_try_new install config = Inr me"
  shows "map (\<lambda>i. (in_kind i, in_name i)) (instruments me) =
    (U64_Histogram, ''pgsleuth.wal.io.latency'') # map (\<lambda>c. (U64_Counter, fst c)) stmt_counters"
  using assms by (auto simp: metrics_try_new_def instruments_def stmt_counters_def split: option.splits)

lemma instrument_names_distinct:
  assumes "metrics_try_new install config = Inr me"
  shows "distinct (map in_name (instruments me))"
proof -
  have "map in_name (instruments me) = map snd (map (\<lambda>i. (in_kind i, in_name i)) (instruments me))"
    by simp
  also have "\<dots> = ''pgsleuth.wal.io.latency'' # map fst stmt_counters"
    unfolding created_instruments [OF assms] by simp
  finally show ?thesis by (simp add: stmt_counters_def)
qed

lemma event_has_instrument:
  assumes "metrics_try_new install config = Inr me"
    and "e \<in> insert (record_wal_io_latency ns device op) (set (record_pg_stmt_delta d))"
  shows "\<exists>!i. i \<in> set (instruments me) \<and> calls_instrument e i"
proof -
  have dist: "i = j" if "i \<in> set (instruments me)" "j \<in> set (instruments me)" "in_name i = in_name j"
    for i j
    using instrument_names_distinct [OF assms(1)] that by (auto simp: distinct_map dest: inj_onD)
  have "\<exists>i\<in>set (instruments me). calls_instrument e i"
    using assms
    by (auto simp: metrics_try_new_def instruments_def record_wal_io_latency_def
        record_pg_stmt_delta_def Let_def split: option.splits)
  then show ?thesis using dist by (cases e) auto
qed

end
