(* ===== verification/Collect_Pg_Stmt.thy ===== *)
theory Collect_Pg_Stmt
  imports Edge_Alarm Stat_Statements Otel_Metrics
begin

text \<open>
  \<open>crates/pgsleuth-cli/src/collect_pg_stmt.rs\<close>: the collector that turns the cumulative rows of
  \<open>pg_stat_statements\<close> into counter increments. The reference for the increments is the list of
  all samples ever polled: the increment of a sample is its difference to the last earlier sample
  with the same queryid.
\<close>

section \<open>The difference of two samples\<close>

record prev_cumulative =
  pc_calls :: u64
  pc_total_exec_time_ms :: u64
  pc_rows :: u64
  pc_shared_blks_hit :: u64
  pc_shared_blks_read :: u64

definition prev_cumulative_default :: prev_cumulative where
  "prev_cumulative_default =
     \<lparr>pc_calls = 0, pc_total_exec_time_ms = 0, pc_rows = 0, pc_shared_blks_hit = 0,
      pc_shared_blks_read = 0\<rparr>"

definition delta :: "u64 \<Rightarrow> u64 \<Rightarrow> u64" where
  "delta cur prev = sat_sub cur prev"

definition f64_clamp_to_u64 :: "f64 \<Rightarrow> u64" where
  "f64_clamp_to_u64 v =
     (if \<not> f_is_finite v then - 1
      else if f_le v f_zero then 0
      else f_floor_as_u64 v)"

definition cumulative_of :: "statement_sample \<Rightarrow> prev_cumulative" where
  "cumulative_of s =
     \<lparr>pc_calls = sp_calls s,
      pc_total_exec_time_ms = f64_clamp_to_u64 (sp_total_exec_time_ms s),
      pc_rows = sp_rows s,
      pc_shared_blks_hit = sp_shared_blks_hit s,
      pc_shared_blks_read = sp_shared_blks_read s\<rparr>"

definition sample_delta :: "statement_sample \<Rightarrow> prev_cumulative option \<Rightarrow> pg_stmt_delta" where
  "sample_delta s prev =
     (let cur = cumulative_of s;
          previous = (case prev of None \<Rightarrow> prev_cumulative_default | Some p \<Rightarrow> p)
      in \<lparr>dl_queryid = sp_queryid s,
          dl_database = sp_database s,
          dl_username = sp_username s,
          dl_calls = delta (pc_calls cur) (pc_calls previous),
          dl_exec_time_ms = delta (pc_total_exec_time_ms cur) (pc_total_exec_time_ms previous),
          dl_rows = delta (pc_rows cur) (pc_rows previous),
          dl_blks_hit = delta (pc_shared_blks_hit cur) (pc_shared_blks_hit previous),
          dl_blks_read = delta (pc_shared_blks_read cur) (pc_shared_blks_read previous)\<rparr>)"

section \<open>The loop\<close>

text \<open>The body of the loop over the samples of a poll: the map it updates, and the delta.\<close>

definition emit_sample ::
  "(i64 \<Rightarrow> prev_cumulative option) \<Rightarrow> statement_sample
   \<Rightarrow> (i64 \<Rightarrow> prev_cumulative option) \<times> pg_stmt_delta" where
  "emit_sample prev s =
     (prev(sp_queryid s \<mapsto> cumulative_of s), sample_delta s (prev (sp_queryid s)))"

text \<open>A poll's outputs: the calls of the instruments and the tick's log line.\<close>

datatype stmt_tick = Stmt_Tick "metric_event list" nat u64 | Stmt_Skipped

definition emit_deltas ::
  "bool \<Rightarrow> statement_sample list \<Rightarrow> (i64 \<Rightarrow> prev_cumulative option)
   \<Rightarrow> (i64 \<Rightarrow> prev_cumulative option) \<times> stmt_tick" where
  "emit_deltas emitter samples prev =
     (let deltas = tick_outs emit_sample prev samples in
      (after emit_sample prev samples,
       Stmt_Tick
         (if emitter then concat (map record_pg_stmt_delta deltas) else [])
         (length samples)
         (foldl sat_add 0 (map dl_calls deltas))))"

definition collect_stmt_tick ::
  "bool \<Rightarrow> (i64 \<Rightarrow> prev_cumulative option) \<Rightarrow> statement_row list option
   \<Rightarrow> (i64 \<Rightarrow> prev_cumulative option) \<times> stmt_tick" where
  "collect_stmt_tick emitter prev rows =
     (case statements_poll rows of
        Inl _ \<Rightarrow> (prev, Stmt_Skipped)
      | Inr samples \<Rightarrow> emit_deltas emitter samples prev)"

definition collect_stmt_run ::
  "string \<Rightarrow> u64 \<Rightarrow> bool \<Rightarrow> bool \<Rightarrow> string option \<Rightarrow> ext_query \<Rightarrow> statement_row list option list
   \<Rightarrow> stmt_tick list runtime" where
  "collect_stmt_run pg_conn interval_ms emitter connects version ext ticks =
     (if \<not> connects then Rt_Failed (Connect_Failed pg_conn)
      else case probe version ext of
          Inl e \<Rightarrow> Rt_Failed e
        | Inr ExtensionMissing \<Rightarrow> Rt_Failed Extension_Missing
        | Inr (PgVersionTooOld actual) \<Rightarrow>
            Rt_Failed (Below_Minimum actual STATEMENTS_MIN_PG_VERSION)
        | Inr Ready \<Rightarrow>
            if interval_ms = 0 then Rt_Panicked
            else Rt_Polls (tick_outs (collect_stmt_tick emitter) Map.empty ticks))"

definition tick_events :: "stmt_tick \<Rightarrow> metric_event list" where
  "tick_events t = (case t of Stmt_Tick es _ _ \<Rightarrow> es | Stmt_Skipped \<Rightarrow> [])"

section \<open>The increments against the history of samples\<close>

definition last_with :: "i64 \<Rightarrow> statement_sample list \<Rightarrow> prev_cumulative option" where
  "last_with q xs =
     (let ys = filter (\<lambda>s. sp_queryid s = q) xs in
      if ys = [] then None else Some (cumulative_of (last ys)))"

lemma last_with_snoc:
  "last_with q (xs @ [x]) = (if sp_queryid x = q then Some (cumulative_of x) else last_with q xs)"
  by (simp add: last_with_def Let_def)

definition delta_answer :: "statement_sample list \<Rightarrow> pg_stmt_delta" where
  "delta_answer xs = sample_delta (last xs) (last_with (sp_queryid (last xs)) (butlast xs))"

interpretation stmt_history: history_detector emit_sample Map.empty
  "\<lambda>xs q. last_with q xs" delta_answer
proof unfold_locales
  show "(\<lambda>q. last_with q []) = Map.empty" by (simp add: last_with_def)
  show "emit_sample (\<lambda>q. last_with q xs) x =
      ((\<lambda>q. last_with q (xs @ [x])), delta_answer (xs @ [x]))" for xs x
    by (auto simp: emit_sample_def delta_answer_def last_with_snoc fun_eq_iff)
qed

definition polled :: "statement_row list option list \<Rightarrow> statement_sample list" where
  "polled ticks = concat (map (map sample_of_row) (somes ticks))"

definition stmt_events :: "statement_sample list \<Rightarrow> metric_event list" where
  "stmt_events xs = concat (map record_pg_stmt_delta (tick_outs emit_sample Map.empty xs))"

lemma stmt_events_snoc:
  "stmt_events (xs @ [x]) = stmt_events xs @ record_pg_stmt_delta (delta_answer (xs @ [x]))"
  by (simp add: stmt_events_def stmt_history.answer_after)

lemma run_from:
  "concat (map tick_events (tick_outs (collect_stmt_tick True) m ticks)) =
     concat (map record_pg_stmt_delta (tick_outs emit_sample m (polled ticks)))"
proof (induction ticks arbitrary: m)
  case (Cons t ticks)
  then show ?case
    by (cases t) (simp_all add: collect_stmt_tick_def emit_deltas_def Let_def tick_events_def polled_def)
qed (simp add: polled_def)

lemma run_events:
  "concat (map tick_events (tick_outs (collect_stmt_tick True) Map.empty ticks)) =
     stmt_events (polled ticks)"
  by (simp add: run_from stmt_events_def)

section \<open>Telescoping\<close>

text \<open>The truncated differences of a list of cumulative values, starting from zero.\<close>

definition increments :: "nat list \<Rightarrow> nat list" where
  "increments cs = map (\<lambda>i. cs ! i - (if i = 0 then 0 else cs ! (i - 1))) [0..<length cs]"

lemma increments_Nil [simp]: "increments [] = []"
  by (simp add: increments_def)

lemma increments_snoc:
  "increments (cs @ [c]) = increments cs @ [c - (if cs = [] then 0 else last cs)]"
  by (auto simp: increments_def nth_append last_conv_nth)

lemma sum_increments_sorted:
  "sorted cs \<Longrightarrow> sum_list (increments cs) = (if cs = [] then 0 else last cs)"
proof (induction cs rule: rev_induct)
  case (snoc c cs)
  then have "cs \<noteq> [] \<Longrightarrow> last cs \<le> c" by (simp add: sorted_append)
  with snoc show ?case by (simp add: increments_snoc sorted_append)
qed simp

text \<open>The counters, with the field of the delta they add and the cumulative field it is computed from.\<close>

definition stmt_fields ::
  "(string \<times> (pg_stmt_delta \<Rightarrow> u64) \<times> (prev_cumulative \<Rightarrow> u64)) list" where
  "stmt_fields =
     [(''pgsleuth.pg.stmt.calls'', dl_calls, pc_calls),
      (''pgsleuth.pg.stmt.total_exec_time_ms'', dl_exec_time_ms, pc_total_exec_time_ms),
      (''pgsleuth.pg.stmt.rows'', dl_rows, pc_rows),
      (''pgsleuth.pg.stmt.shared_blks_hit'', dl_blks_hit, pc_shared_blks_hit),
      (''pgsleuth.pg.stmt.shared_blks_read'', dl_blks_read, pc_shared_blks_read)]"

definition values_of :: "(prev_cumulative \<Rightarrow> u64) \<Rightarrow> i64 \<Rightarrow> statement_sample list \<Rightarrow> nat list" where
  "values_of field q xs =
     map (\<lambda>s. unat (field (cumulative_of s))) (filter (\<lambda>s. sp_queryid s = q) xs)"

lemma stmt_field_counter:
  assumes "(m, dl, field) \<in> set stmt_fields"
  shows "(m, dl) \<in> set stmt_counters"
    and "unat (dl (sample_delta s p)) =
      unat (field (cumulative_of s)) - (case p of None \<Rightarrow> 0 | Some c \<Rightarrow> unat (field c))"
proof -
  show "(m, dl) \<in> set stmt_counters"
    using assms by (auto simp: stmt_fields_def stmt_counters_def)
  have "dl (sample_delta s p) =
      delta (field (cumulative_of s)) (field (case p of None \<Rightarrow> prev_cumulative_default | Some c \<Rightarrow> c))"
    using assms by (auto simp: stmt_fields_def sample_delta_def Let_def)
  moreover have "unat (field prev_cumulative_default) = 0"
    using assms by (auto simp: stmt_fields_def prev_cumulative_default_def)
  ultimately show "unat (dl (sample_delta s p)) =
      unat (field (cumulative_of s)) - (case p of None \<Rightarrow> 0 | Some c \<Rightarrow> unat (field c))"
    by (simp add: delta_def unat_simps split: option.split)
qed

lemma record_answer_total:
  assumes "(m, dl, field) \<in> set stmt_fields"
  shows "counter_total m (stmt_attrs q d u) (record_pg_stmt_delta (delta_answer (xs @ [x]))) =
    (if (sp_queryid x, sp_database x, sp_username x) = (q, d, u)
     then unat (field (cumulative_of x))
       - (if values_of field q xs = [] then 0 else last (values_of field q xs))
     else 0)"
proof -
  note dl = stmt_field_counter(1) [OF assms] and val = stmt_field_counter(2) [OF assms]
  have labels: "dl_queryid (sample_delta s p) = sp_queryid s"
    "dl_database (sample_delta s p) = sp_database s"
    "dl_username (sample_delta s p) = sp_username s" for s p
    by (simp_all add: sample_delta_def Let_def)
  have prev: "(case last_with q xs of None \<Rightarrow> 0 | Some c \<Rightarrow> unat (field c)) =
      (if values_of field q xs = [] then 0 else last (values_of field q xs))"
    by (simp add: last_with_def Let_def values_of_def last_map)
  show ?thesis
    by (auto simp: record_pg_stmt_delta_total [OF dl] delta_answer_def labels val prev
        stmt_attrs_inject)
qed

lemma stmt_events_total:
  assumes "(m, dl, field) \<in> set stmt_fields"
    and "\<forall>s\<in>set xs. sp_queryid s = q \<longrightarrow> sp_database s = d \<and> sp_username s = u"
  shows "counter_total m (stmt_attrs q d u) (stmt_events xs) =
    sum_list (increments (values_of field q xs))"
  using assms(2)
proof (induction xs rule: rev_induct)
  case Nil
  show ?case by (simp add: stmt_events_def values_of_def)
next
  case (snoc x xs)
  have "values_of field q (xs @ [x]) =
      values_of field q xs @ (if sp_queryid x = q then [unat (field (cumulative_of x))] else [])"
    by (simp add: values_of_def)
  with snoc show ?case
    by (auto simp: stmt_events_snoc record_answer_total [OF assms(1)] increments_snoc)
qed

section \<open>The execution time\<close>

lemma f_le_zero_Fin: "f_le (Fin m e) f_zero \<longleftrightarrow> m \<le> 0"
  by (simp add: f_le_def f_gt_def f_zero_def align_def zero_less_mult_iff not_less)

lemma fin_floor_nonpos: "m \<le> 0 \<Longrightarrow> fin_floor m e \<le> 0"
  by (simp add: fin_floor_def mult_nonpos_nonneg div_nonpos_pos_le0)

lemma fin_floor_nonneg: "0 \<le> m \<Longrightarrow> 0 \<le> fin_floor m e"
  by (simp add: fin_floor_def pos_imp_zdiv_nonneg_iff)

lemma unat_of_int_small: "0 \<le> i \<Longrightarrow> i < 2 ^ 64 \<Longrightarrow> unat (of_int i :: u64) = nat i"
  by (simp add: unsigned_of_int take_bit_int_eq_self)

section \<open>Properties\<close>

text \<open>
  C5. Nothing is counted twice or lost: over any ticks, failed polls included, when every row of a
  queryid carries the same database and user, each of the five counters of that label set shows the
  sum of the truncated differences of the values polled for the queryid, starting from zero. When
  those values never decrease, that sum is the last polled value.
\<close>

theorem counters_track_cumulative:
  assumes "(m, dl, field) \<in> set stmt_fields"
    and "\<forall>s\<in>set (polled ticks). sp_queryid s = q \<longrightarrow> sp_database s = d \<and> sp_username s = u"
  shows "counter_total m (stmt_attrs q d u)
      (concat (map tick_events (tick_outs (collect_stmt_tick True) Map.empty ticks))) =
    sum_list (increments (values_of field q (polled ticks))) \<and>
    (sorted (values_of field q (polled ticks)) \<and> values_of field q (polled ticks) \<noteq> [] \<longrightarrow>
      sum_list (increments (values_of field q (polled ticks))) =
        last (values_of field q (polled ticks)))"
  using stmt_events_total [OF assms] by (simp add: run_events sum_increments_sorted)

theorem counters_track_cumulative_witness:
  "let row = (\<lambda>n. \<lparr>rw_queryid = 7, rw_database = ''app'', rw_username = ''a'', rw_calls = n,
       rw_total_exec_time_ms = Fin 21 (- 1), rw_rows = 0, rw_shared_blks_hit = 0,
       rw_shared_blks_read = 0\<rparr>) in
   counter_total ''pgsleuth.pg.stmt.calls'' (stmt_attrs 7 ''app'' ''a'')
      (concat (map tick_events (tick_outs (collect_stmt_tick True) Map.empty
         [Some [row 100], None, Some [row 150], Some [row 155]]))) =
    sum_list (increments [100, 150, 155])"
proof -
  let ?row = "\<lambda>n. \<lparr>rw_queryid = 7, rw_database = ''app'', rw_username = ''a'', rw_calls = n,
     rw_total_exec_time_ms = Fin 21 (- 1), rw_rows = 0, rw_shared_blks_hit = 0,
     rw_shared_blks_read = 0\<rparr> :: statement_row"
  let ?ticks = "[Some [?row 100], None, Some [?row 150], Some [?row 155]]"
  have "values_of pc_calls 7 (polled ?ticks) = [100, 150, 155]"
    by (simp add: values_of_def polled_def sample_of_row_def cumulative_of_def
        u64_of_i64_or_0_def)
  moreover have "counter_total ''pgsleuth.pg.stmt.calls'' (stmt_attrs 7 ''app'' ''a'')
      (concat (map tick_events (tick_outs (collect_stmt_tick True) Map.empty ?ticks))) =
    sum_list (increments (values_of pc_calls 7 (polled ?ticks)))"
    by (rule conjunct1 [OF counters_track_cumulative])
      (auto simp: stmt_fields_def polled_def sample_of_row_def)
  ultimately show ?thesis by (simp add: Let_def)
qed

text \<open>
  C30. The queryid alone is not a key of the view: when two users run the same statement, the first
  with \<open>hi\<close> calls and the second with at most as many, \<open>lo\<close>, neither calls it again and every poll
  lists the two rows in this order, every further poll adds \<open>hi - lo\<close> to the first user's counter, so that after \<open>Suc k\<close> polls it shows
  \<open>hi + k * (hi - lo)\<close> instead of \<open>hi\<close>.
\<close>

theorem shared_queryid_overcounts:
  assumes "sp_queryid a = q" and "sp_queryid b = q"
    and "sp_username a = u" and "sp_username b \<noteq> u" and "sp_database a = d"
    and "unat (sp_calls b) \<le> unat (sp_calls a)"
  shows "counter_total ''pgsleuth.pg.stmt.calls'' (stmt_attrs q d u)
      (stmt_events (concat (replicate (Suc k) [a, b]))) =
    unat (sp_calls a) + k * (unat (sp_calls a) - unat (sp_calls b))"
proof (induction k)
  case 0
  have calls: "(''pgsleuth.pg.stmt.calls'', dl_calls, pc_calls) \<in> set stmt_fields"
    by (simp add: stmt_fields_def)
  have "counter_total ''pgsleuth.pg.stmt.calls'' (stmt_attrs q d u) (stmt_events (([] @ [a]) @ [b])) =
      unat (sp_calls a)"
    using assms
    by (simp only: stmt_events_snoc counter_total_append record_answer_total [OF calls])
      (simp add: stmt_events_def values_of_def cumulative_of_def)
  then show ?case by simp
next
  case (Suc k)
  have calls: "(''pgsleuth.pg.stmt.calls'', dl_calls, pc_calls) \<in> set stmt_fields"
    by (simp add: stmt_fields_def)
  let ?xs = "concat (replicate (Suc k) [a, b])"
  have snoc: "concat (replicate (Suc n) [a, b]) = (concat (replicate n [a, b]) @ [a]) @ [b]" for n
    by (induction n) simp_all
  then have xs: "?xs = (concat (replicate k [a, b]) @ [a]) @ [b]" .
  have "values_of pc_calls q ?xs \<noteq> [] \<and> last (values_of pc_calls q ?xs) = unat (sp_calls b)"
    unfolding xs using assms
    by (simp add: values_of_def cumulative_of_def del: append_assoc replicate_Suc concat.simps)
  then have "counter_total ''pgsleuth.pg.stmt.calls'' (stmt_attrs q d u)
      (stmt_events ((?xs @ [a]) @ [b])) =
    counter_total ''pgsleuth.pg.stmt.calls'' (stmt_attrs q d u) (stmt_events ?xs)
      + (unat (sp_calls a) - unat (sp_calls b))"
    using assms
    by (simp only: stmt_events_snoc counter_total_append record_answer_total [OF calls])
      (simp add: cumulative_of_def)
  then show ?case using Suc.IH snoc [of "Suc k"] by simp
qed

theorem shared_queryid_overcounts_witness:
  "let a = \<lparr>sp_queryid = 7, sp_database = ''app'', sp_username = ''alice'', sp_calls = 100,
         sp_total_exec_time_ms = f_zero, sp_rows = 0, sp_shared_blks_hit = 0,
         sp_shared_blks_read = 0\<rparr>;
       b = a\<lparr>sp_username := ''bob'', sp_calls := 10\<rparr> in
   counter_total ''pgsleuth.pg.stmt.calls'' (stmt_attrs 7 ''app'' ''alice'')
      (stmt_events (concat (replicate (Suc 2) [a, b]))) = 280"
  unfolding Let_def by (subst shared_queryid_overcounts) simp_all

text \<open>
  C39. The conversion of the execution time: a finite value is floored, negative values give 0 and
  values beyond 64 bits give \<open>u64::MAX\<close>; every value that is not finite gives \<open>u64::MAX\<close>, negative
  infinity included.
\<close>

theorem f64_clamp_exact:
  "unat (f64_clamp_to_u64 v) =
     (case v of Fin m e \<Rightarrow> nat (min (2 ^ 64 - 1) (max 0 (fin_floor m e))) | _ \<Rightarrow> 2 ^ 64 - 1)"
  by (cases v)
    (auto simp: f64_clamp_to_u64_def f_is_finite_def unat_minus_one_word f_le_zero_Fin
      f_floor_as_u64_def unat_of_int_small fin_floor_nonpos)

text \<open>
  The start-up of the collector: it ends with an error when it could not connect, the server's
  version is below 13 or the extension is not installed, and panics on an interval of zero.
\<close>

lemma collect_stmt_gate:
  assumes "num < 2 ^ 32"
  shows "collect_stmt_run conn iv em connects (Some (dec num)) ext ticks =
    (if \<not> connects then Rt_Failed (Connect_Failed conn)
     else if num < 130000 then Rt_Failed (Below_Minimum (of_nat (num div 10000)) 13)
     else if ext \<noteq> Ext_Rows 1 then Rt_Failed Extension_Missing
     else if iv = 0 then Rt_Panicked
     else Rt_Polls (tick_outs (collect_stmt_tick em) Map.empty ticks))"
  using assms by (simp add: collect_stmt_run_def probe_dec STATEMENTS_MIN_PG_VERSION_def)

end
