(* ===== verification/Finding_Json.thy ===== *)
theory Finding_Json
  imports Otel_Mapping
begin

text \<open>
  The JSON value of a finding, as the \<open>serde\<close> attributes on the types of
  \<open>crates/pgsleuth-core/src/finding.rs\<close> prescribe it: variant names in lower case, an attribute
  value tagged with its type, absent options and empty collections left out, fields in the order of
  their declaration. \<open>serde_json\<close> writes a double that is not finite as null. The text of a
  timestamp (RFC 3339, by chrono) is the parameter \<open>show_dt\<close>, and the text of a JSON value the
  parameter \<open>show_json\<close>.
\<close>

section \<open>Serialization\<close>

fun tier_json :: "tier \<Rightarrow> json" where
  "tier_json Standard = JStr ''standard''"
| "tier_json CloudEnhanced = JStr ''cloudenhanced''"
| "tier_json Deep = JStr ''deep''"

fun severity_json :: "severity \<Rightarrow> json" where
  "severity_json Info = JStr ''info''"
| "severity_json Low = JStr ''low''"
| "severity_json Medium = JStr ''medium''"
| "severity_json High = JStr ''high''"
| "severity_json Critical = JStr ''critical''"

fun role_json :: "pg_role \<Rightarrow> json" where
  "role_json Primary = JStr ''primary''"
| "role_json Replica = JStr ''replica''"
| "role_json Role_Unknown = JStr ''unknown''"

definition double_json :: "f64 \<Rightarrow> json" where
  "double_json d = (if f_is_finite d then JFloat d else JNull)"

fun attribute_json :: "attribute_value \<Rightarrow> json" where
  "attribute_json (Attr_String s) = JObj [(''type'', JStr ''string''), (''value'', JStr s)]"
| "attribute_json (Attr_Int i) = JObj [(''type'', JStr ''int''), (''value'', JNum (sint i))]"
| "attribute_json (Attr_Double d) = JObj [(''type'', JStr ''double''), (''value'', double_json d)]"
| "attribute_json (Attr_Bool b) = JObj [(''type'', JStr ''bool''), (''value'', JBool b)]"

definition instance_json :: "pg_instance_ref \<Rightarrow> json" where
  "instance_json r = JObj
     ([(''id'', JStr (inst_id r))]
      @ (case inst_db_name r of None \<Rightarrow> [] | Some d \<Rightarrow> [(''db_name'', JStr d)])
      @ [(''role'', role_json (inst_role r))])"

definition remediation_json :: "remediation \<Rightarrow> json" where
  "remediation_json r = JObj
     ([(''text'', JStr (rem_text r))]
      @ (if rem_knobs r = [] then [] else [(''knobs'', JArr (map JStr (rem_knobs r)))]))"

definition finding_json :: "(datetime \<Rightarrow> string) \<Rightarrow> finding \<Rightarrow> json" where
  "finding_json show_dt f = JObj
     ([(''schema_version'', JNum (uint (f_schema_version f))),
       (''rule_id'', JStr (f_rule_id f)),
       (''rule_version'', JNum (uint (f_rule_version f))),
       (''tier'', tier_json (f_tier f)),
       (''severity'', severity_json (f_severity f)),
       (''fired_at'', JStr (show_dt (f_fired_at f))),
       (''pg_instance'', instance_json (f_pg_instance f)),
       (''summary'', JStr (f_summary f)),
       (''evidence'', f_evidence f),
       (''remediation'', remediation_json (f_remediation f))]
      @ (if f_otel_attributes f = [] then []
         else [(''otel_attributes'',
                JObj (map (\<lambda>(k, v). (k, attribute_json v)) (f_otel_attributes f)))]))"

section \<open>Facts\<close>

lemma tier_json_inject [simp]: "tier_json a = tier_json b \<longleftrightarrow> a = b"
  by (cases a; cases b) simp_all

lemma severity_json_inject [simp]: "severity_json a = severity_json b \<longleftrightarrow> a = b"
  by (cases a; cases b) simp_all

lemma role_json_inject [simp]: "role_json a = role_json b \<longleftrightarrow> a = b"
  by (cases a; cases b) simp_all

text \<open>
  The two wire formats name the tiers alike but for one: JSON has \<open>cloudenhanced\<close> where the
  OpenTelemetry attribute has \<open>cloud_enhanced\<close>.
\<close>

lemma tier_names: "tier_json t = JStr (tier_str t) \<longleftrightarrow> t \<noteq> CloudEnhanced"
  by (cases t) simp_all

fun storable :: "attribute_value \<Rightarrow> bool" where
  "storable (Attr_Double d) = f_is_finite d"
| "storable _ = True"

lemma attribute_json_inject:
  "storable a \<Longrightarrow> storable b \<Longrightarrow> attribute_json a = attribute_json b \<longleftrightarrow> a = b"
  by (cases a; cases b) (auto simp: double_json_def intro: signed_word_eqI)

lemma attribute_list_json_inject:
  assumes "\<forall>kv\<in>set xs. storable (snd kv)" and "\<forall>kv\<in>set ys. storable (snd kv)"
    and "map (\<lambda>(k, v). (k, attribute_json v)) xs = map (\<lambda>(k, v). (k, attribute_json v)) ys"
  shows "xs = ys"
proof -
  have "inj_on (\<lambda>(k, v). (k, attribute_json v)) (set xs \<union> set ys)"
  proof (rule inj_onI)
    fix x y
    assume "x \<in> set xs \<union> set ys" "y \<in> set xs \<union> set ys"
      and eq: "(case x of (k, v) \<Rightarrow> (k, attribute_json v)) = (case y of (k, v) \<Rightarrow> (k, attribute_json v))"
    then have "storable (snd x)" "storable (snd y)" using assms(1,2) by auto
    with eq show "x = y"
      by (simp add: case_prod_beta attribute_json_inject prod_eq_iff)
  qed
  with assms(3) show ?thesis by (simp add: inj_on_map_eq_map)
qed

lemma instance_json_inject [simp]: "instance_json a = instance_json b \<longleftrightarrow> a = (b :: pg_instance_ref)"
proof
  assume "instance_json a = instance_json b"
  then show "a = b"
    by (cases "inst_db_name a"; cases "inst_db_name b")
      (auto simp: instance_json_def intro: pg_instance_ref.equality)
qed simp

lemma remediation_json_inject [simp]: "remediation_json a = remediation_json b \<longleftrightarrow> a = (b :: remediation)"
proof
  assume eq: "remediation_json a = remediation_json b"
  have "inj JStr" by (rule injI) simp
  with eq show "a = b"
    by (cases "rem_knobs a = []"; cases "rem_knobs b = []")
      (auto simp: remediation_json_def inj_map_eq_map intro: remediation.equality)
qed simp

text \<open>The remediation attribute of the log record is the text of this value.\<close>

definition show_remediation :: "(json \<Rightarrow> string) \<Rightarrow> remediation \<Rightarrow> string option" where
  "show_remediation show_json r = Some (show_json (remediation_json r))"

lemma show_remediation_inject:
  assumes "inj show_json"
  shows "show_remediation show_json a = show_remediation show_json b \<longleftrightarrow> a = (b :: remediation)"
  using assms by (simp add: show_remediation_def inj_eq)

section \<open>Nothing is lost\<close>

text \<open>
  The brain sees everything of a finding: when the rendering of timestamps tells the two apart and
  no attribute is a double that JSON cannot hold, two findings with the same JSON value are equal,
  although absent and empty fields are left out.
\<close>

lemma finding_json_lossless:
  assumes "finding_json show_dt f = finding_json show_dt g"
    and "show_dt (f_fired_at f) = show_dt (f_fired_at g) \<longrightarrow> f_fired_at f = f_fired_at g"
    and "\<forall>kv\<in>set (f_otel_attributes f) \<union> set (f_otel_attributes g). storable (snd kv)"
  shows "f = g"
proof (rule finding.equality)
  show "f_schema_version f = f_schema_version g" "f_rule_version f = f_rule_version g"
    "f_rule_id f = f_rule_id g" "f_tier f = f_tier g" "f_severity f = f_severity g"
    "f_pg_instance f = f_pg_instance g" "f_summary f = f_summary g" "f_evidence f = f_evidence g"
    "f_remediation f = f_remediation g" "f_fired_at f = f_fired_at g"
    using assms(1,2) by (auto simp: finding_json_def word_uint_eq_iff split: if_splits)
  show "f_otel_attributes f = f_otel_attributes g"
  proof (cases "f_otel_attributes f = [] \<or> f_otel_attributes g = []")
    case True
    then show ?thesis using assms(1) by (auto simp: finding_json_def split: if_splits)
  next
    case False
    then show ?thesis
      using assms(1,3)
      by (intro attribute_list_json_inject) (auto simp: finding_json_def)
  qed
qed simp

lemma finding_json_lossless_witness:
  "example_finding\<lparr>f_tier := Standard\<rparr> = example_finding"
  by (rule finding_json_lossless [where show_dt = "\<lambda>dt. dec (unat (dt_subsec_nanos dt))"])
    (simp_all add: example_finding_def)

text \<open>
  The condition on doubles is needed: two findings that differ in a double that is not finite have
  the same JSON value.
\<close>

lemma nonfinite_doubles_collide:
  "finding_json show_dt (f\<lparr>f_otel_attributes := [(k, Attr_Double NaN)]\<rparr>) =
   finding_json show_dt (f\<lparr>f_otel_attributes := [(k, Attr_Double (Inf s))]\<rparr>)"
  by (simp add: finding_json_def double_json_def f_is_finite_def)

text \<open>The fields a reader finds: all but the attributes are always there, those only when not empty.\<close>

lemma finding_json_fields:
  "\<exists>m. finding_json show_dt f = JObj m \<and> map fst m =
     [''schema_version'', ''rule_id'', ''rule_version'', ''tier'', ''severity'', ''fired_at'',
      ''pg_instance'', ''summary'', ''evidence'', ''remediation'']
     @ (if f_otel_attributes f = [] then [] else [''otel_attributes''])"
  by (cases "f_otel_attributes f = []") (simp_all add: finding_json_def)

end
