(* ===== verification/Finding_Read.thy ===== *)
theory Finding_Read
  imports Finding_Json "HOL-Library.Monad_Syntax"
begin

text \<open>
  Reading a finding from its JSON value, as the derived \<open>Deserialize\<close> of the types of
  \<open>crates/pgsleuth-core/src/finding.rs\<close> does: a struct from an object (unknown keys ignored, a
  repeated field refused) or from an array in field order, fields marked \<open>default\<close> may be missing, a
  unit variant from its name or from an object with that single key and null. The tag of an
  attribute value is read as a string. None is an error. The text of a timestamp (RFC 3339, by
  chrono) is read by the parameter \<open>parse_dt\<close>.
\<close>

section \<open>Reading\<close>

definition struct_fields :: "string list \<Rightarrow> json \<Rightarrow> (string \<rightharpoonup> json) option" where
  "struct_fields names j =
     (case j of
        JObj kvs \<Rightarrow>
          if distinct (filter (\<lambda>k. k \<in> set names) (map fst kvs)) then Some (map_of kvs) else None
      | JArr vs \<Rightarrow> if length vs \<le> length names then Some (map_of (zip names vs)) else None
      | _ \<Rightarrow> None)"

definition required :: "(json \<Rightarrow> 'a option) \<Rightarrow> (string \<rightharpoonup> json) \<Rightarrow> string \<Rightarrow> 'a option" where
  "required read m name = Option.bind (m name) read"

definition defaulted :: "'a \<Rightarrow> (json \<Rightarrow> 'a option) \<Rightarrow> (string \<rightharpoonup> json) \<Rightarrow> string \<Rightarrow> 'a option" where
  "defaulted d read m name = (case m name of None \<Rightarrow> Some d | Some j \<Rightarrow> read j)"

fun read_variant :: "(string \<rightharpoonup> 'a) \<Rightarrow> json \<Rightarrow> 'a option" where
  "read_variant variants (JStr s) = variants s"
| "read_variant variants (JObj [(s, JNull)]) = variants s"
| "read_variant variants _ = None"

fun read_string :: "json \<Rightarrow> string option" where
  "read_string (JStr s) = Some s"
| "read_string _ = None"

fun read_bool :: "json \<Rightarrow> bool option" where
  "read_bool (JBool b) = Some b"
| "read_bool _ = None"

fun read_u32 :: "json \<Rightarrow> u32 option" where
  "read_u32 (JNum n) = (if 0 \<le> n \<and> n < 2 ^ 32 then Some (word_of_int n) else None)"
| "read_u32 _ = None"

fun read_i64 :: "json \<Rightarrow> i64 option" where
  "read_i64 (JNum n) = (if - (2 ^ 63) \<le> n \<and> n < 2 ^ 63 then Some (word_of_int n) else None)"
| "read_i64 _ = None"

fun read_f64 :: "json \<Rightarrow> f64 option" where
  "read_f64 (JFloat d) = Some d"
| "read_f64 (JNum n) = Some (f_round n 0)"
| "read_f64 _ = None"

definition read_option :: "(json \<Rightarrow> 'a option) \<Rightarrow> json \<Rightarrow> 'a option option" where
  "read_option read j = (if j = JNull then Some None else map_option Some (read j))"

fun read_vec :: "(json \<Rightarrow> 'a option) \<Rightarrow> json \<Rightarrow> 'a list option" where
  "read_vec read (JArr js) = those (map read js)"
| "read_vec read _ = None"

fun read_btree :: "(json \<Rightarrow> 'a option) \<Rightarrow> json \<Rightarrow> (string \<times> 'a) list option" where
  "read_btree read (JObj kvs) =
     map_option (\<lambda>vs. fold (\<lambda>(k, v) m. btree_insert k v m) (zip (map fst kvs) vs) [])
       (those (map (read \<circ> snd) kvs))"
| "read_btree read _ = None"

definition read_tier :: "json \<Rightarrow> tier option" where
  "read_tier = read_variant
     [''standard'' \<mapsto> Standard, ''cloudenhanced'' \<mapsto> CloudEnhanced, ''deep'' \<mapsto> Deep]"

definition read_severity :: "json \<Rightarrow> severity option" where
  "read_severity = read_variant
     [''info'' \<mapsto> Info, ''low'' \<mapsto> Low, ''medium'' \<mapsto> Medium, ''high'' \<mapsto> High,
      ''critical'' \<mapsto> Critical]"

definition read_role :: "json \<Rightarrow> pg_role option" where
  "read_role = read_variant
     [''primary'' \<mapsto> Primary, ''replica'' \<mapsto> Replica, ''unknown'' \<mapsto> Role_Unknown]"

definition read_attribute :: "json \<Rightarrow> attribute_value option" where
  "read_attribute j = do {
     m \<leftarrow> struct_fields [''type'', ''value''] j;
     t \<leftarrow> required read_string m ''type'';
     v \<leftarrow> m ''value'';
     if t = ''string'' then map_option Attr_String (read_string v)
     else if t = ''int'' then map_option Attr_Int (read_i64 v)
     else if t = ''double'' then map_option Attr_Double (read_f64 v)
     else if t = ''bool'' then map_option Attr_Bool (read_bool v)
     else None
   }"

definition read_instance :: "json \<Rightarrow> pg_instance_ref option" where
  "read_instance j = do {
     m \<leftarrow> struct_fields [''id'', ''db_name'', ''role''] j;
     i \<leftarrow> required read_string m ''id'';
     d \<leftarrow> defaulted None (read_option read_string) m ''db_name'';
     r \<leftarrow> required read_role m ''role'';
     Some \<lparr>inst_id = i, inst_db_name = d, inst_role = r\<rparr>
   }"

definition read_remediation :: "json \<Rightarrow> remediation option" where
  "read_remediation j = do {
     m \<leftarrow> struct_fields [''text'', ''knobs''] j;
     t \<leftarrow> required read_string m ''text'';
     k \<leftarrow> defaulted [] (read_vec read_string) m ''knobs'';
     Some \<lparr>rem_text = t, rem_knobs = k\<rparr>
   }"

definition finding_fields :: "string list" where
  "finding_fields =
     [''schema_version'', ''rule_id'', ''rule_version'', ''tier'', ''severity'', ''fired_at'',
      ''pg_instance'', ''summary'', ''evidence'', ''remediation'', ''otel_attributes'']"

definition read_finding :: "(string \<Rightarrow> datetime option) \<Rightarrow> json \<Rightarrow> finding option" where
  "read_finding parse_dt j = do {
     m \<leftarrow> struct_fields finding_fields j;
     sv \<leftarrow> required read_u32 m ''schema_version'';
     ri \<leftarrow> required read_string m ''rule_id'';
     rv \<leftarrow> required read_u32 m ''rule_version'';
     ti \<leftarrow> required read_tier m ''tier'';
     se \<leftarrow> required read_severity m ''severity'';
     fa \<leftarrow> required (\<lambda>v. Option.bind (read_string v) parse_dt) m ''fired_at'';
     pg \<leftarrow> required read_instance m ''pg_instance'';
     su \<leftarrow> required read_string m ''summary'';
     ev \<leftarrow> m ''evidence'';
     re \<leftarrow> required read_remediation m ''remediation'';
     at \<leftarrow> defaulted [] (read_btree read_attribute) m ''otel_attributes'';
     Some \<lparr>f_schema_version = sv, f_rule_id = ri, f_rule_version = rv, f_tier = ti,
       f_severity = se, f_fired_at = fa, f_pg_instance = pg, f_summary = su, f_evidence = ev,
       f_remediation = re, f_otel_attributes = at\<rparr>
   }"

section \<open>Reading what was written\<close>

lemma read_tier_json [simp]: "read_tier (tier_json t) = Some t"
  by (cases t) (simp_all add: read_tier_def)

lemma read_severity_json [simp]: "read_severity (severity_json s) = Some s"
  by (cases s) (simp_all add: read_severity_def)

lemma read_role_json [simp]: "read_role (role_json r) = Some r"
  by (cases r) (simp_all add: read_role_def)

lemma read_u32_uint [simp]: "read_u32 (JNum (uint w)) = Some w"
  using uint_lt2p [of w] by simp

lemma read_i64_sint [simp]: "read_i64 (JNum (sint w)) = Some w"
  using sint_range_size [of w] by (simp add: word_size)

declare read_u32.simps(1) [simp del] read_i64.simps(1) [simp del]

lemma those_map_Some [simp]: "(\<And>x. x \<in> set xs \<Longrightarrow> g x = Some (h x)) \<Longrightarrow> those (map g xs) = Some (map h xs)"
  by (induction xs) simp_all

lemma read_attribute_json:
  "storable a \<Longrightarrow> read_attribute (attribute_json a) = Some a"
  by (cases a)
    (simp_all add: read_attribute_def struct_fields_def required_def double_json_def)

lemma read_instance_json [simp]: "read_instance (instance_json r) = Some (r :: pg_instance_ref)"
  by (cases "inst_db_name r")
    (simp_all add: read_instance_def instance_json_def struct_fields_def required_def
      defaulted_def read_option_def)

lemma read_remediation_json [simp]: "read_remediation (remediation_json r) = Some (r :: remediation)"
  by (cases "rem_knobs r = []")
    (simp_all add: read_remediation_def remediation_json_def struct_fields_def required_def
      defaulted_def comp_def)

text \<open>Inserting the entries of a map in the order of their keys rebuilds the map.\<close>

lemma btree_insert_last: "\<forall>kv\<in>set m. fst kv < k \<Longrightarrow> btree_insert k v m = m @ [(k, v)]"
  by (induction m) auto

lemma fold_btree_insert:
  "btree_wf (m @ kvs) \<Longrightarrow> fold (\<lambda>(k, v) m. btree_insert k v m) kvs m = m @ kvs"
proof (induction kvs arbitrary: m)
  case (Cons kv kvs)
  then have "btree_insert (fst kv) (snd kv) m = m @ [kv]"
    by (subst btree_insert_last) (auto simp: btree_wf_def sorted_wrt_append)
  with Cons show ?case by (simp add: case_prod_beta)
qed simp

lemma read_btree_json:
  assumes "btree_wf kvs" and "\<forall>kv\<in>set kvs. storable (snd kv)"
  shows "read_btree read_attribute (JObj (map (\<lambda>(k, v). (k, attribute_json v)) kvs)) = Some kvs"
proof -
  let ?js = "map (\<lambda>(k, v). (k, attribute_json v)) kvs"
  have "those (map (read_attribute \<circ> snd) ?js) = Some (map snd kvs)"
    unfolding map_map
    by (rule those_map_Some) (use assms(2) in \<open>auto simp: read_attribute_json\<close>)
  moreover have "map fst ?js = map fst kvs" by (induction kvs) auto
  ultimately show ?thesis
    using fold_btree_insert [of "[]" kvs] assms(1)
    by (simp only: read_btree.simps option.map zip_map_fst_snd append_Nil simp_thms)
qed

text \<open>
  A finding survives the wire: reading its JSON value gives the finding back, when the text of its
  timestamp is read back, its attributes are a map in key order and none of them is a double that
  JSON cannot hold.
\<close>

lemma read_finding_json:
  assumes "parse_dt (show_dt (f_fired_at f)) = Some (f_fired_at f)"
    and "btree_wf (f_otel_attributes f)"
    and "\<forall>kv\<in>set (f_otel_attributes f). storable (snd kv)"
  shows "read_finding parse_dt (finding_json show_dt f) = Some f"
  using assms read_btree_json [OF assms(2,3)]
  by (cases "f_otel_attributes f = []")
    (simp_all add: read_finding_def finding_json_def struct_fields_def finding_fields_def
      required_def defaulted_def del: read_btree.simps)

lemma read_finding_json_witness:
  "read_finding (\<lambda>_. Some (f_fired_at example_finding)) (finding_json (\<lambda>_. ''now'') example_finding)
     = Some example_finding"
  by (rule read_finding_json) (simp_all add: example_finding_def btree_wf_def)

text \<open>
  The condition on doubles is needed: JSON writes one that is not finite as null, and null is not
  read as a double.
\<close>

lemma nonfinite_double_unreadable:
  "\<not> f_is_finite d \<Longrightarrow> read_attribute (attribute_json (Attr_Double d)) = None"
  by (simp add: read_attribute_def struct_fields_def required_def double_json_def)

text \<open>
  What a reader tolerates: keys it does not know, as long as no field is repeated, change nothing,
  so a consumer of this version reads what a later one writes with more fields.
\<close>

lemma struct_fields_extra:
  assumes "set (map fst extra) \<inter> set names = {}" and "struct_fields names (JObj kvs) = Some m"
  shows "\<exists>m'. struct_fields names (JObj (kvs @ extra)) = Some m' \<and> (\<forall>n\<in>set names. m' n = m n)"
proof -
  have "filter (\<lambda>k. k \<in> set names) (map fst extra) = []"
    using assms(1) by (auto simp: filter_empty_conv)
  moreover have "n \<notin> dom (map_of extra)" if "n \<in> set names" for n
    using assms(1) that by (auto simp: dom_map_of_conv_image_fst)
  ultimately show ?thesis
    using assms(2)
    by (auto simp: struct_fields_def map_add_dom_app_simps split: if_splits)
qed

end
