(* ===== verification/Sql.thy ===== *)
theory Sql
  imports Prelude "HOL-Library.Multiset"
begin

text \<open>
  What the queries of \<open>crates/pgsleuth-postgres/src/\<close> use of SQL, on tables as lists of rows with
  NULL as None: \<open>COALESCE\<close>, \<open>count(*)\<close> over groups, \<open>LEFT JOIN\<close> and \<open>query_one\<close> of the client. A
  query without \<open>ORDER BY\<close> returns its rows in any order, so an answer is compared with the
  query as a multiset.
\<close>

definition coalesce :: "'a option \<Rightarrow> 'a \<Rightarrow> 'a" where
  "coalesce v d = (case v of Some x \<Rightarrow> x | None \<Rightarrow> d)"

lemma coalesce_simps [simp]: "coalesce (Some x) d = x" "coalesce None d = d"
  by (simp_all add: coalesce_def)

definition count_rows_where :: "('r \<Rightarrow> bool) \<Rightarrow> 'r list \<Rightarrow> nat" where
  "count_rows_where p rows = length (filter p rows)"

text \<open>\<open>SELECT f, count(*) ... GROUP BY f\<close>: one row for each value of \<open>f\<close>, NULL being a value.\<close>

definition group_count :: "('r \<Rightarrow> 'k) \<Rightarrow> 'r list \<Rightarrow> ('k \<times> nat) list" where
  "group_count f rows = map (\<lambda>k. (k, count_rows_where (\<lambda>r. f r = k) rows)) (remdups (map f rows))"

definition left_join :: "('r \<Rightarrow> 's \<Rightarrow> bool) \<Rightarrow> 'r list \<Rightarrow> 's list \<Rightarrow> ('r \<times> 's option) list" where
  "left_join on rs ss =
     concat (map (\<lambda>r. case filter (on r) ss of
         [] \<Rightarrow> [(r, None)]
       | ms \<Rightarrow> map (\<lambda>s. (r, Some s)) ms) rs)"

definition query_one :: "'r list \<Rightarrow> 'r option" where
  "query_one rows = (case rows of [r] \<Rightarrow> Some r | _ \<Rightarrow> None)"

definition answers :: "'r list \<Rightarrow> 'r list \<Rightarrow> bool" where
  "answers query rows \<longleftrightarrow> mset rows = mset query"

lemma answers_refl [simp]: "answers q q"
  by (simp add: answers_def)

section \<open>Groups\<close>

lemma group_count_keys: "map fst (group_count f rows) = remdups (map f rows)"
  by (simp add: group_count_def comp_def)

lemma length_filter_sum:
  "finite A \<Longrightarrow> length (filter (\<lambda>r. f r \<in> A) rows) = (\<Sum>k\<in>A. length (filter (\<lambda>r. f r = k) rows))"
proof (induction rows)
  case (Cons r rows)
  have "(\<Sum>k\<in>A. length (filter (\<lambda>r. f r = k) (r # rows))) =
      (\<Sum>k\<in>A. (if f r = k then 1 else 0) + length (filter (\<lambda>r. f r = k) rows))"
    by (rule sum.cong) simp_all
  with Cons show ?case by (simp add: sum.distrib)
qed simp

text \<open>The counts of the groups with a property add up to the rows with it.\<close>

lemma group_count_sum:
  "sum_list (map snd (filter (P \<circ> fst) (group_count f rows))) = count_rows_where (P \<circ> f) rows"
proof -
  let ?A = "{k \<in> f ` set rows. P k}"
  have "sum_list (map snd (filter (P \<circ> fst) (group_count f rows))) =
      sum_list (map (\<lambda>k. length (filter (\<lambda>r. f r = k) rows)) (filter P (remdups (map f rows))))"
    by (simp add: group_count_def filter_map comp_def count_rows_where_def)
  also have "\<dots> = (\<Sum>k\<in>?A. length (filter (\<lambda>r. f r = k) rows))"
    by (simp add: sum_list_distinct_conv_sum_set Int_def conj_commute flip: remdups_filter)
  also have "\<dots> = length (filter (\<lambda>r. f r \<in> ?A) rows)"
    by (rule length_filter_sum [symmetric]) simp
  also have "filter (\<lambda>r. f r \<in> ?A) rows = filter (P \<circ> f) rows" by (rule filter_cong) auto
  finally show ?thesis by (simp only: count_rows_where_def)
qed

lemma answers_sum:
  "answers q rows \<Longrightarrow> sum_list (map g (filter P rows)) = (sum_list (map g (filter P q)) :: nat)"
proof -
  assume "answers q rows"
  then have "mset (map g (filter P rows)) = mset (map g (filter P q))"
    by (simp add: answers_def)
  then show ?thesis by (metis sum_mset_sum_list)
qed

section \<open>Joins\<close>

text \<open>A join with a table in which each row of the first has at most one partner keeps the rows.\<close>

lemma left_join_unique:
  assumes "\<And>r. r \<in> set rs \<Longrightarrow> length (filter (on r) ss) \<le> 1"
  shows "left_join on rs ss = map (\<lambda>r. (r, find (on r) ss)) rs"
proof -
  have one: "(case filter (on r) ss of [] \<Rightarrow> [(r, None)] | ms \<Rightarrow> map (\<lambda>s. (r, Some s)) ms) =
      [(r, find (on r) ss)]" if "r \<in> set rs" for r
    using assms [OF that]
    by (induction ss) (auto split: list.splits if_splits)
  show ?thesis
    unfolding left_join_def using one by (induction rs) (simp_all cong: list.case_cong)
qed

lemma length_query_one: "query_one rows = None \<longleftrightarrow> length rows \<noteq> 1"
  by (simp add: query_one_def length_Suc_conv split: list.split)

end
