(* ===== verification/Server_Sessions.thy ===== *)
theory Server_Sessions
  imports Sql Connection_Storm
begin

text \<open>
  The queries of \<open>crates/pgsleuth-postgres/src/stat_activity.rs\<close> on the rows of the view
  \<open>pg_stat_activity\<close>, and with them what the snapshot, the collector and the connection-storm alarm
  say about the sessions of the server. The four queries of a poll are four statements: each sees
  the view at its own time.
\<close>

section \<open>The view and the four queries\<close>

text \<open>The columns the queries read; times are microseconds, as the server keeps them.\<close>

record pg_session =
  pa_backend_type :: "string option"
  pa_state :: "string option"
  pa_wait_event_type :: "string option"
  pa_wait_event :: "string option"
  pa_xact_start :: "int option"

definition client_backend :: "pg_session \<Rightarrow> bool" where
  "client_backend s \<longleftrightarrow> pa_backend_type s = Some ''client backend''"

definition backend_count_query :: "pg_session list \<Rightarrow> i64" where
  "backend_count_query view = of_nat (count_rows_where client_backend view)"

text \<open>\<open>GROUP BY state\<close> names the column of the view, not the \<open>COALESCE\<close> of the same name.\<close>

definition state_query :: "pg_session list \<Rightarrow> (string \<times> i64) list" where
  "state_query view =
     map (\<lambda>(st, n). (coalesce st ''<null>'', of_nat n))
       (group_count pa_state (filter client_backend view))"

definition wait_query :: "pg_session list \<Rightarrow> ((string \<times> string) \<times> i64) list" where
  "wait_query view =
     map (\<lambda>((ty, nm), n). ((coalesce ty [], coalesce nm []), of_nat n))
       (group_count (\<lambda>s. (pa_wait_event_type s, pa_wait_event s))
         (filter (\<lambda>s. client_backend s \<and> pa_state s = Some ''active'') view))"

text \<open>
  The age of a transaction in seconds is compared with the parameter; \<open>EXTRACT\<close> is exact, as it is
  on the numeric type since PostgreSQL 14.
\<close>

definition long_xact :: "int \<Rightarrow> i64 \<Rightarrow> pg_session \<Rightarrow> bool" where
  "long_xact now threshold s \<longleftrightarrow>
     client_backend s
     \<and> (case pa_xact_start s of None \<Rightarrow> False | Some t \<Rightarrow> sint threshold * 1000000 < now - t)"

definition long_xact_query :: "int \<Rightarrow> pg_session list \<Rightarrow> i64 \<Rightarrow> i64" where
  "long_xact_query now view threshold = of_nat (count_rows_where (long_xact now threshold) view)"

text \<open>What the four queries of one poll see, and the answers a server may give to them.\<close>

record poll_views =
  pv_count :: "pg_session list"
  pv_states :: "pg_session list"
  pv_waits :: "pg_session list"
  pv_long :: "pg_session list"
  pv_now :: int

definition activity_answers :: "poll_views \<Rightarrow> activity_db \<Rightarrow> bool" where
  "activity_answers v db \<longleftrightarrow>
     ad_count db = Some (backend_count_query (pv_count v))
     \<and> (case ad_states db of None \<Rightarrow> False | Some rows \<Rightarrow> answers (state_query (pv_states v)) rows)
     \<and> (case ad_waits db of None \<Rightarrow> False | Some rows \<Rightarrow> answers (wait_query (pv_waits v)) rows)
     \<and> (\<forall>thr. ad_long db thr = Some (long_xact_query (pv_now v) (pv_long v) thr))"

text \<open>
  What PostgreSQL guarantees of the view: no state is the placeholder of the query, no name of a
  wait event is empty, and the number of sessions fits the type of \<open>count(*)\<close>.
\<close>

definition session_ok :: "pg_session \<Rightarrow> bool" where
  "session_ok s \<longleftrightarrow>
     pa_state s \<noteq> Some ''<null>'' \<and> pa_wait_event_type s \<noteq> Some [] \<and> pa_wait_event s \<noteq> Some []"

definition views_ok :: "poll_views \<Rightarrow> bool" where
  "views_ok v \<longleftrightarrow>
     (\<forall>view\<in>{pv_count v, pv_states v, pv_waits v, pv_long v}.
        length view < 2 ^ 63 \<and> (\<forall>s\<in>set view. session_ok s))"

section \<open>Counts through the map\<close>

lemma count_round: "n < 2 ^ 63 \<Longrightarrow> unat (u64_of_i64_or_0 (of_nat n)) = n"
proof -
  assume n: "n < 2 ^ 63"
  then have "sint (of_nat n :: i64) = int n"
    by (simp add: signed_of_nat signed_take_bit_int_eq_self)
  then have "uint (u64_of_i64_or_0 (of_nat n)) = int n" by (simp add: uint_u64_of_i64_or_0)
  then show ?thesis by (simp add: unat_eq_nat_uint)
qed

lemma mset_btree_insert:
  "k \<notin> fst ` set m \<Longrightarrow> mset (btree_insert k v m) = add_mset (k, v) (mset m)"
  by (induction k v m rule: btree_insert.induct) auto

lemma mset_count_rows:
  "distinct (map fst rows) \<Longrightarrow>
     mset (count_rows rows) = mset (map (\<lambda>(k, n). (k, u64_of_i64_or_0 n)) rows)
     \<and> fst ` set (count_rows rows) = fst ` set rows"
proof (induction rows rule: rev_induct)
  case (snoc r rows)
  then show ?case
    by (cases r) (auto simp: count_rows_snoc mset_btree_insert set_keys_btree_insert)
qed (simp add: count_rows_def)

text \<open>
  A grouped query, answered in any order and put into a map, keeps its counts: those of the keys with
  a property add up to the rows with it, when no two groups get the same key.
\<close>

lemma grouped_sum:
  assumes ans: "answers (map (\<lambda>(k, n). (c k, of_nat n)) (group_count f rows)) ans"
    and inj: "inj_on c (f ` set rows)" and size: "length rows < 2 ^ 63"
  shows "sum_list (map (unat \<circ> snd) (filter (P \<circ> fst) (count_rows ans))) =
    count_rows_where (P \<circ> c \<circ> f) rows"
proof -
  let ?q = "map (\<lambda>(k, n). (c k, of_nat n)) (group_count f rows) :: (_ \<times> i64) list"
  let ?u = "\<lambda>(k, n). (k, u64_of_i64_or_0 n)"
  have "map fst ?q = map c (remdups (map f rows))"
    by (simp add: comp_def case_prod_beta flip: group_count_keys)
  then have "distinct (map fst ?q)" using inj by (simp add: distinct_map)
  moreover have "mset (map fst ans) = mset (map fst ?q)" using ans by (simp only: answers_def mset_map)
  ultimately have "distinct (map fst ans)" by (metis mset_eq_imp_distinct_iff)
  then have "mset (count_rows ans) = mset (map ?u ans)" by (simp add: mset_count_rows)
  also have "\<dots> = mset (map ?u ?q)" using ans by (simp only: answers_def mset_map)
  finally have "answers (map ?u ?q) (count_rows ans)" by (simp add: answers_def)
  from answers_sum [OF this, of "unat \<circ> snd" "P \<circ> fst"]
  have "sum_list (map (unat \<circ> snd) (filter (P \<circ> fst) (count_rows ans))) =
      sum_list (map (unat \<circ> snd) (filter (P \<circ> fst) (map ?u ?q)))" .
  also have "\<dots> = sum_list (map snd (filter (P \<circ> c \<circ> fst) (group_count f rows)))"
  proof -
    have "snd kn < 2 ^ 63" if "kn \<in> set (group_count f rows)" for kn
      using that size by (auto simp: group_count_def count_rows_where_def
          intro: order.strict_trans1 [OF length_filter_le])
    then show ?thesis
      by (auto simp: filter_map comp_def case_prod_beta count_round intro!: arg_cong [of _ _ sum_list])
  qed
  also have "\<dots> = count_rows_where (P \<circ> c \<circ> f) rows"
    using group_count_sum [of "P \<circ> c"] by (simp add: comp_assoc)
  finally show ?thesis .
qed

lemma unat_sum_list:
  "sum_list (map unat ws) < 2 ^ 64 \<Longrightarrow> unat (sum_list ws) = sum_list (map unat ws)" for ws :: "u64 list"
proof (induction ws)
  case (Cons w ws)
  then have "unat (sum_list ws) = sum_list (map unat ws)" by simp
  with Cons.prems show ?case by (simp add: unat_word_ariths)
qed simp

lemma state_keys_inj:
  "\<forall>s\<in>set view. session_ok s \<Longrightarrow>
     inj_on (\<lambda>st. coalesce st ''<null>'') (pa_state ` set (filter client_backend view))"
  by (auto simp: inj_on_def session_ok_def coalesce_def split: option.splits)

lemma wait_keys_inj:
  "\<forall>s\<in>set view. session_ok s \<Longrightarrow>
     inj_on (\<lambda>(ty, nm). (coalesce ty [], coalesce nm []))
       ((\<lambda>s. (pa_wait_event_type s, pa_wait_event s)) ` set (filter p view))"
  by (auto simp: inj_on_def session_ok_def coalesce_def split: option.splits)

lemma poll_states:
  assumes "answers (state_query view) rows" and "\<forall>s\<in>set view. session_ok s"
    and "length view < 2 ^ 63"
  shows "sum_list (map (unat \<circ> snd) (filter (P \<circ> fst) (count_rows rows))) =
    count_rows_where (\<lambda>s. client_backend s \<and> P (coalesce (pa_state s) ''<null>'')) view"
  using grouped_sum [OF assms(1) [unfolded state_query_def] state_keys_inj [OF assms(2)], of P]
    order.strict_trans1 [OF length_filter_le assms(3)]
  by (simp add: count_rows_where_def comp_def conj_commute)

lemma poll_waits:
  assumes "answers (wait_query view) rows" and "\<forall>s\<in>set view. session_ok s"
    and "length view < 2 ^ 63"
  shows "sum_list (map (unat \<circ> snd) (filter (P \<circ> fst) (count_rows rows))) =
    count_rows_where (\<lambda>s. client_backend s \<and> pa_state s = Some ''active''
      \<and> P (coalesce (pa_wait_event_type s) [], coalesce (pa_wait_event s) [])) view"
proof -
  have "wait_query view = map (\<lambda>(k, n). ((\<lambda>(ty, nm). (coalesce ty [], coalesce nm [])) k, of_nat n))
      (group_count (\<lambda>s. (pa_wait_event_type s, pa_wait_event s))
        (filter (\<lambda>s. client_backend s \<and> pa_state s = Some ''active'') view))"
    by (auto simp: wait_query_def)
  from grouped_sum [OF assms(1) [unfolded this] wait_keys_inj [OF assms(2)], of P]
    order.strict_trans1 [OF length_filter_le assms(3)]
  show ?thesis by (simp add: count_rows_where_def comp_def conj_ac)
qed

section \<open>The snapshot\<close>

lemma count_le: "count_rows_where p view \<le> length view"
  by (simp add: count_rows_where_def)

lemma answered_poll:
  assumes "activity_answers v db"
  obtains st wt where "answers (state_query (pv_states v)) st" "answers (wait_query (pv_waits v)) wt"
    "activity_poll db thr = Inr
      \<lparr>ss_client_backends = u64_of_i64_or_0 (backend_count_query (pv_count v)),
       ss_by_state = count_rows st, ss_by_wait = count_rows wt,
       ss_long_running_xacts = u64_of_i64_or_0
         (long_xact_query (pv_now v) (pv_long v) (i64_of_u64_or_max thr))\<rparr>"
  using assms by (auto simp: activity_answers_def activity_poll_def split: option.splits)

lemma snapshot_counts:
  assumes "views_ok v" and "activity_answers v db" and "activity_poll db thr = Inr s"
  shows "unat (ss_client_backends s) = count_rows_where client_backend (pv_count v)"
    and "unat (ss_long_running_xacts s) =
      count_rows_where (long_xact (pv_now v) (i64_of_u64_or_max thr)) (pv_long v)"
    and "sum_list (map (unat \<circ> snd) (ss_by_state s)) = count_rows_where client_backend (pv_states v)"
    and "unat (idle_in_xact s) = count_rows_where (\<lambda>x. client_backend x
        \<and> (case pa_state x of None \<Rightarrow> False | Some st \<Rightarrow> prefix ''idle in transaction'' st)) (pv_states v)"
    and "unat (active_waiting_on_lock s) = count_rows_where (\<lambda>x. client_backend x
        \<and> pa_state x = Some ''active'' \<and> pa_wait_event_type x = Some ''Lock'') (pv_waits v)"
proof -
  from assms(1) have ok: "length (pv_count v) < 2 ^ 63" "length (pv_states v) < 2 ^ 63"
      "length (pv_waits v) < 2 ^ 63" "length (pv_long v) < 2 ^ 63"
      "\<forall>x\<in>set (pv_states v). session_ok x" "\<forall>x\<in>set (pv_waits v). session_ok x"
    by (simp_all add: views_ok_def)
  from assms(2) obtain st wt where st: "answers (state_query (pv_states v)) st"
    and wt: "answers (wait_query (pv_waits v)) wt" and poll: "activity_poll db thr = Inr
      \<lparr>ss_client_backends = u64_of_i64_or_0 (backend_count_query (pv_count v)),
       ss_by_state = count_rows st, ss_by_wait = count_rows wt,
       ss_long_running_xacts = u64_of_i64_or_0
         (long_xact_query (pv_now v) (pv_long v) (i64_of_u64_or_max thr))\<rparr>"
    by (rule answered_poll)
  note s = poll [unfolded assms(3) sum.inject(2)]
  note states = poll_states [OF st ok(5,2)] and waits = poll_waits [OF wt ok(6,3)]
  show "unat (ss_client_backends s) = count_rows_where client_backend (pv_count v)"
    unfolding s backend_count_query_def by (simp only: session_snapshot.select_convs)
      (rule count_round [OF order.strict_trans1 [OF count_le ok(1)]])
  show "unat (ss_long_running_xacts s) =
      count_rows_where (long_xact (pv_now v) (i64_of_u64_or_max thr)) (pv_long v)"
    unfolding s long_xact_query_def by (simp only: session_snapshot.select_convs)
      (rule count_round [OF order.strict_trans1 [OF count_le ok(4)]])
  show "sum_list (map (unat \<circ> snd) (ss_by_state s)) = count_rows_where client_backend (pv_states v)"
    using states [of "\<lambda>_. True"] by (simp add: s comp_def)
  have idle: "prefix ''idle in transaction'' (coalesce (pa_state x) ''<null>'') \<longleftrightarrow>
      (case pa_state x of None \<Rightarrow> False | Some st \<Rightarrow> prefix ''idle in transaction'' st)" for x
    by (simp split: option.split)
  let ?idle = "\<lambda>x. client_backend x
    \<and> (case pa_state x of None \<Rightarrow> False | Some st \<Rightarrow> prefix ''idle in transaction'' st)"
  have "count_rows_where ?idle (pv_states v) < 2 ^ 63"
    by (rule order.strict_trans1 [OF count_le ok(2)])
  then have "count_rows_where ?idle (pv_states v) \<le> 2 ^ 64 - 1" by simp
  from min_absorb2 [OF this] show "unat (idle_in_xact s) = count_rows_where ?idle (pv_states v)"
    by (simp only: idle_in_xact_sums_matching_states s states idle session_snapshot.select_convs)
  have lock: "coalesce ty [] = ''Lock'' \<longleftrightarrow> ty = Some ''Lock''" for ty
    by (cases ty) simp_all
  let ?ws = "map snd (filter ((\<lambda>k. fst k = ''Lock'') \<circ> fst) (count_rows wt))"
  have sum: "sum_list (map unat ?ws) = count_rows_where (\<lambda>x. client_backend x
      \<and> pa_state x = Some ''active'' \<and> pa_wait_event_type x = Some ''Lock'') (pv_waits v)"
    using waits [of "\<lambda>k. fst k = ''Lock''"] by (simp add: lock)
  have "count_rows_where p (pv_waits v) < 2 ^ 64" for p
    using order.strict_trans1 [OF count_le ok(3)] by (rule order.strict_trans) simp
  then have "unat (sum_list ?ws) = sum_list (map unat ?ws)" by (intro unat_sum_list) (simp only: sum)
  then show "unat (active_waiting_on_lock s) = count_rows_where (\<lambda>x. client_backend x
      \<and> pa_state x = Some ''active'' \<and> pa_wait_event_type x = Some ''Lock'') (pv_waits v)"
    unfolding sum s active_waiting_on_lock_def session_snapshot.select_convs
    by (simp add: comp_def case_prod_unfold)
qed

section \<open>The alarm\<close>

text \<open>
  One tick of the alarm: its poll fails (None), or its queries see the given views and are answered.
\<close>

definition poll_sees :: "u64 \<Rightarrow> poll_views option \<Rightarrow> activity_db \<Rightarrow> bool" where
  "poll_sees long_thr p db =
     (case p of
        None \<Rightarrow> poll_ok (activity_poll db long_thr) = None
      | Some v \<Rightarrow> views_ok v \<and> activity_answers v db)"

definition session_counts :: "poll_views option list \<Rightarrow> nat list" where
  "session_counts ps = map (\<lambda>v. count_rows_where client_backend (pv_count v)) (somes ps)"

definition storm_effects ::
  "u64 \<Rightarrow> u64 \<Rightarrow> u32 \<Rightarrow> string \<Rightarrow> bool \<Rightarrow> poll_views option list \<Rightarrow> datetime \<Rightarrow> effect list" where
  "storm_effects interval_ms threshold fire_after inst emitter ps now =
     (if last ps \<noteq> None
         \<and> run_len (map (\<lambda>n. unat threshold < n) (session_counts ps)) = max 1 (unat fire_after)
      then report emitter
        (connection_build_finding now inst (of_nat (last (session_counts ps))) threshold
           (max 1 fire_after) interval_ms)
      else [])"

lemma polls_backends:
  "poll_sees lt p db \<Longrightarrow> map ss_client_backends (somes [poll_ok (activity_poll db lt)]) =
     map of_nat (session_counts [p])
   \<and> (poll_ok (activity_poll db lt) = None \<longleftrightarrow> p = None)"
proof (cases p)
  case (Some v)
  assume "poll_sees lt p db"
  with Some have v: "views_ok v" "activity_answers v db" by (simp_all add: poll_sees_def)
  from v(2) obtain s where s: "activity_poll db lt = Inr s" by (rule answered_poll)
  show ?thesis by (simp add: s Some session_counts_def flip: snapshot_counts(1) [OF v s])
qed (auto simp: poll_sees_def session_counts_def)

lemma backend_counts_sessions:
  "list_all2 (\<lambda>p t. poll_sees lt p (fst t)) ps ts \<Longrightarrow>
     backend_counts lt ts = map of_nat (session_counts ps)"
proof (induction rule: list_all2_induct)
  case (Cons p ps t ts)
  from polls_backends [OF Cons.hyps(1)] have
    "backend_counts lt [t] = map of_nat (session_counts [p])"
    by (simp add: backend_counts_def)
  moreover have "backend_counts lt (t # ts) = backend_counts lt [t] @ backend_counts lt ts"
    "session_counts (p # ps) = session_counts [p] @ session_counts ps"
    by (cases "poll_ok (activity_poll (fst t) lt)"; cases p;
        simp add: backend_counts_def session_counts_def)+
  ultimately show ?case using Cons.IH by simp
qed (simp add: backend_counts_def session_counts_def)

lemma session_counts_small:
  "list_all2 (\<lambda>p t. poll_sees lt p (fst t)) ps ts \<Longrightarrow> n \<in> set (session_counts ps) \<Longrightarrow> n < 2 ^ 63"
proof (induction rule: list_all2_induct)
  case (Cons p ps t ts)
  then show ?case
    by (cases p)
      (auto simp: session_counts_def poll_sees_def views_ok_def
        intro: order.strict_trans1 [OF count_le])
qed (simp add: session_counts_def)

lemma connection_effects_sessions:
  assumes all: "list_all2 (\<lambda>p t. poll_sees lt p (fst t)) ps ts" and ne: "ts \<noteq> []"
  shows "connection_effects iv thr lt n inst em ts =
    storm_effects iv thr n inst em ps (snd (last ts))"
proof -
  have len: "length ps = length ts" using all by (rule list_all2_lengthD)
  with ne have "ps \<noteq> []" by auto
  with len ne have last: "poll_sees lt (last ps) (fst (last ts))"
    using list_all2_nthD [OF all, of "length ts - 1"] by (simp add: last_conv_nth)
  have thr: "map (\<lambda>c. thr < c) (map of_nat (session_counts ps)) =
      map (\<lambda>n. unat thr < n) (session_counts ps)"
  proof -
    have "thr < of_nat k \<longleftrightarrow> unat thr < k" if "k \<in> set (session_counts ps)" for k
    proof -
      have "k < 2 ^ 63" using session_counts_small [OF all that] .
      then have "unat (of_nat k :: u64) = k" by (simp add: unsigned_of_nat take_bit_nat_eq_self)
      then show ?thesis by (simp add: word_less_nat_alt)
    qed
    then show ?thesis by simp
  qed
  have ne_counts: "session_counts ps \<noteq> []" if "last ps \<noteq> None"
  proof -
    have "ps \<noteq> []" using len ne by auto
    then have "Some (the (last ps)) \<in> set ps" using that last_in_set [of ps] by auto
    then have "the (last ps) \<in> set (somes ps)" by (simp only: in_somes)
    then show ?thesis by (auto simp: session_counts_def)
  qed
  show ?thesis
    unfolding connection_effects_def storm_effects_def Let_def backend_counts_sessions [OF all] thr
    using polls_backends [OF last] ne_counts by (auto simp: last_map)
qed

section \<open>Properties\<close>

text \<open>
  C20. The snapshot counts sessions: when the server answers the four queries of a poll, in any order of
  rows, the poll succeeds, and its totals are the numbers of client sessions in the view, of those
  idle in a transaction (aborted or not), of those active and waiting on a lock, and of those whose
  transaction is older than the threshold, each in the view its own query saw; the counts by state
  add up to the sessions, so to the total when the view did not change in between.
\<close>

theorem activity_poll_counts_sessions:
  assumes "views_ok v" and "activity_answers v db"
  shows "\<exists>s. activity_poll db thr = Inr s
    \<and> unat (ss_client_backends s) = count_rows_where client_backend (pv_count v)
    \<and> sum_list (map (unat \<circ> snd) (ss_by_state s)) = count_rows_where client_backend (pv_states v)
    \<and> unat (idle_in_xact s) = count_rows_where (\<lambda>x. client_backend x
        \<and> (case pa_state x of None \<Rightarrow> False | Some st \<Rightarrow> prefix ''idle in transaction'' st)) (pv_states v)
    \<and> unat (active_waiting_on_lock s) = count_rows_where (\<lambda>x. client_backend x
        \<and> pa_state x = Some ''active'' \<and> pa_wait_event_type x = Some ''Lock'') (pv_waits v)
    \<and> unat (ss_long_running_xacts s) =
        count_rows_where (long_xact (pv_now v) (i64_of_u64_or_max thr)) (pv_long v)"
proof -
  from assms(2) obtain s where s: "activity_poll db thr = Inr s" by (rule answered_poll)
  from snapshot_counts [OF assms s] s show ?thesis by blast
qed

text \<open>Three client sessions and a background process.\<close>

definition example_view :: "pg_session list" where
  "example_view =
     [\<lparr>pa_backend_type = Some ''client backend'', pa_state = Some ''active'',
       pa_wait_event_type = Some ''Lock'', pa_wait_event = Some ''tuple'', pa_xact_start = Some 5\<rparr>,
      \<lparr>pa_backend_type = Some ''client backend'', pa_state = Some ''idle in transaction (aborted)'',
       pa_wait_event_type = Some ''Client'', pa_wait_event = Some ''ClientRead'',
       pa_xact_start = Some 90000000\<rparr>,
      \<lparr>pa_backend_type = Some ''client backend'', pa_state = None, pa_wait_event_type = None,
       pa_wait_event = None, pa_xact_start = None\<rparr>,
      \<lparr>pa_backend_type = Some ''checkpointer'', pa_state = None,
       pa_wait_event_type = Some ''Activity'', pa_wait_event = Some ''CheckpointerMain'',
       pa_xact_start = None\<rparr>]"

definition example_views :: poll_views where
  "example_views =
     \<lparr>pv_count = example_view, pv_states = example_view, pv_waits = example_view,
      pv_long = example_view, pv_now = 100000000\<rparr>"

definition example_answers :: activity_db where
  "example_answers =
     \<lparr>ad_count = Some (backend_count_query example_view),
      ad_states = Some (rev (state_query example_view)),
      ad_waits = Some (wait_query example_view),
      ad_long = (\<lambda>thr. Some (long_xact_query 100000000 example_view thr))\<rparr>"

lemma example_answered: "views_ok example_views" "activity_answers example_views example_answers"
  by (simp_all add: views_ok_def example_views_def example_view_def session_ok_def
      activity_answers_def example_answers_def answers_def)

theorem activity_poll_counts_sessions_witness:
  "\<exists>s. activity_poll example_answers 60 = Inr s
    \<and> unat (ss_client_backends s) = 3 \<and> unat (idle_in_xact s) = 1
    \<and> unat (active_waiting_on_lock s) = 1 \<and> unat (ss_long_running_xacts s) = 1"
proof -
  from activity_poll_counts_sessions [OF example_answered, of 60] obtain s where
    s: "activity_poll example_answers 60 = Inr s"
      "unat (ss_client_backends s) = count_rows_where client_backend example_view"
      "unat (idle_in_xact s) = count_rows_where (\<lambda>x. client_backend x
        \<and> (case pa_state x of None \<Rightarrow> False | Some st \<Rightarrow> prefix ''idle in transaction'' st)) example_view"
      "unat (active_waiting_on_lock s) = count_rows_where (\<lambda>x. client_backend x
        \<and> pa_state x = Some ''active'' \<and> pa_wait_event_type x = Some ''Lock'') example_view"
      "unat (ss_long_running_xacts s) =
        count_rows_where (long_xact 100000000 (i64_of_u64_or_max 60)) example_view"
    by (auto simp: example_views_def)
  then show ?thesis
    by (intro exI [of _ s])
      (simp add: count_rows_where_def client_backend_def example_view_def long_xact_def
        i64_of_u64_or_max_def)
qed

text \<open>
  C10. The connection-storm alarm watches the server's sessions: it fails without a connection and panics
  on an interval of zero; otherwise it never leaves its loop and, over ticks whose polls fail or are
  answered from the view, a tick reports exactly when its poll succeeded and ends a run of
  exactly \<open>max 1 fire_after\<close> successful polls that found more client sessions than the threshold; the
  finding carries the number of sessions of that poll. Failed polls neither extend nor break the run.
\<close>

theorem connection_storm_watches_sessions:
  assumes "list_all2 (\<lambda>p t. poll_sees lt p (fst t)) ps ticks"
  shows "connection_storm_run conn iv thr lt n inst em connects ticks =
     (if \<not> connects then Rt_Failed (Connect_Failed conn)
      else if iv = 0 then Rt_Panicked
      else Rt_Polls (map (\<lambda>i. storm_effects iv thr n inst em (take (Suc i) ps) (snd (ticks ! i)))
                       [0..<length ticks]))"
proof -
  have "connection_effects iv thr lt n inst em (take (Suc i) ticks) =
      storm_effects iv thr n inst em (take (Suc i) ps) (snd (ticks ! i))" if "i < length ticks" for i
    using connection_effects_sessions [of lt "take (Suc i) ps" "take (Suc i) ticks"] that
      list_all2_takeI [OF assms, of "Suc i"]
    by (auto simp: take_Suc_conv_app_nth)
  then show ?thesis
    by (simp add: connection_storm_run_def connection_history.outs_history)
qed

theorem connection_storm_watches_sessions_witness:
  "let t = \<lparr>dt_timestamp = 1, dt_subsec_nanos = 0\<rparr>;
       failed = example_answers\<lparr>ad_count := None\<rparr> in
   connection_storm_run [] 1000 2 60 2 ''pg'' False True
       [(example_answers, t), (failed, t), (example_answers, t)] =
     Rt_Polls [[], [], report False (connection_build_finding t ''pg'' 3 2 2 1000)]"
proof -
  let ?t = "\<lparr>dt_timestamp = 1, dt_subsec_nanos = 0\<rparr>"
  have all: "list_all2 (\<lambda>p t. poll_sees 60 p (fst t)) [Some example_views, None, Some example_views]
      [(example_answers, ?t), (example_answers\<lparr>ad_count := None\<rparr>, ?t), (example_answers, ?t)]"
    by (simp add: poll_sees_def example_answered) (simp add: activity_poll_def)
  have "count_rows_where client_backend (pv_count example_views) = 3"
    by (simp add: count_rows_where_def client_backend_def example_views_def example_view_def)
  then have counts: "session_counts [Some example_views] = [3]"
    "session_counts [Some example_views, None, Some example_views] = [3, 3]"
    by (simp_all add: session_counts_def)
  show ?thesis
    unfolding Let_def connection_storm_watches_sessions [OF all]
    by (simp add: upt_rec storm_effects_def counts run_len_def)
qed

end
