(* ===== verification/Server_Statements.thy ===== *)
theory Server_Statements
  imports Sql Collect_Pg_Stmt Stat_Checkpointer
begin

text \<open>
  The queries of \<open>stat_statements.rs\<close> and \<open>stat_checkpointer.rs\<close> in \<open>crates/pgsleuth-postgres/src/\<close> on
  the server's tables, and with them what the exported counters say about the server.
\<close>

section \<open>The statements query\<close>

text \<open>An entry of \<open>pg_stat_statements\<close>, of \<open>pg_database\<close> and of \<open>pg_roles\<close>: the columns the query reads.\<close>

record pg_statement =
  pt_userid :: u32
  pt_dbid :: u32
  pt_queryid :: "i64 option"
  pt_calls :: i64
  pt_total_exec_time :: f64
  pt_rows :: i64
  pt_shared_blks_hit :: i64
  pt_shared_blks_read :: i64

record pg_server =
  sv_statements :: "pg_statement list"
  sv_databases :: "(u32 \<times> string) list"
  sv_roles :: "(u32 \<times> string) list"

definition statement_select ::
  "(pg_statement \<times> (u32 \<times> string) option) \<times> (u32 \<times> string) option \<Rightarrow> statement_row option" where
  "statement_select = (\<lambda>((s, d), r).
     map_option (\<lambda>queryid.
       \<lparr>rw_queryid = queryid,
        rw_database = coalesce (map_option snd d) [],
        rw_username = coalesce (map_option snd r) [],
        rw_calls = pt_calls s,
        rw_total_exec_time_ms = pt_total_exec_time s,
        rw_rows = pt_rows s,
        rw_shared_blks_hit = pt_shared_blks_hit s,
        rw_shared_blks_read = pt_shared_blks_read s\<rparr>) (pt_queryid s))"

definition statements_query :: "pg_server \<Rightarrow> statement_row list" where
  "statements_query v =
     somes (map statement_select
       (left_join (\<lambda>(s, d) r. fst r = pt_userid s)
         (left_join (\<lambda>s d. fst d = pt_dbid s) (sv_statements v) (sv_databases v)) (sv_roles v)))"

text \<open>What PostgreSQL guarantees of the two catalogs: the oid is a key.\<close>

definition catalogs_ok :: "pg_server \<Rightarrow> bool" where
  "catalogs_ok v \<longleftrightarrow> distinct (map fst (sv_databases v)) \<and> distinct (map fst (sv_roles v))"

definition entry_row :: "pg_server \<Rightarrow> pg_statement \<Rightarrow> statement_row option" where
  "entry_row v s = statement_select
     ((s, map_option (Pair (pt_dbid s)) (map_of (sv_databases v) (pt_dbid s))),
      map_option (Pair (pt_userid s)) (map_of (sv_roles v) (pt_userid s)))"

lemma key_matches: "distinct (map fst kvs) \<Longrightarrow> length (filter (\<lambda>kv. fst kv = k) kvs) \<le> Suc 0"
  by (induction kvs) (auto simp: filter_empty_conv image_iff)

lemma find_key: "find (\<lambda>kv. fst kv = k) kvs = map_option (Pair k) (map_of kvs k)"
  by (induction kvs) auto

text \<open>One row for each entry with a queryid, in the order of the entries, with the names of its ids.\<close>

lemma statements_query_rows:
  "catalogs_ok v \<Longrightarrow> statements_query v = somes (map (entry_row v) (sv_statements v))"
proof -
  assume ok: "catalogs_ok v"
  have "left_join (\<lambda>s d. fst d = pt_dbid s) (sv_statements v) (sv_databases v) =
      map (\<lambda>s. (s, map_option (Pair (pt_dbid s)) (map_of (sv_databases v) (pt_dbid s))))
        (sv_statements v)"
    using ok by (subst left_join_unique) (simp_all add: catalogs_ok_def key_matches find_key)
  moreover have "left_join (\<lambda>(s, d) r. fst r = pt_userid s) sds (sv_roles v) =
      map (\<lambda>(s, d). ((s, d), map_option (Pair (pt_userid s)) (map_of (sv_roles v) (pt_userid s)))) sds"
    for sds :: "(pg_statement \<times> (u32 \<times> string) option) list"
    using ok
    by (subst left_join_unique) (auto simp: catalogs_ok_def key_matches find_key)
  ultimately show ?thesis by (simp add: statements_query_def entry_row_def [abs_def] comp_def case_prod_beta)
qed

section \<open>The two single-row queries\<close>

text \<open>\<open>pg_stat_checkpointer\<close> and \<open>pg_stat_wal\<close>, joined without a condition.\<close>

record pg_checkpointer =
  pk_num_timed :: i64
  pk_num_requested :: i64
  pk_write_time :: f64
  pk_sync_time :: f64
  pk_buffers_written :: i64

definition checkpointer_query :: "pg_checkpointer list \<Rightarrow> i64 list \<Rightarrow> checkpointer_row list" where
  "checkpointer_query cs wal_fpis =
     [\<lparr>cr_num_timed = pk_num_timed c, cr_num_requested = pk_num_requested c,
       cr_write_time_ms = pk_write_time c, cr_sync_time_ms = pk_sync_time c,
       cr_buffers_written = pk_buffers_written c, cr_wal_fpi = w\<rparr>. c \<leftarrow> cs, w \<leftarrow> wal_fpis]"

text \<open>Each of the views has one row, so the poll gets exactly the join of the two.\<close>

lemma checkpointer_one_row:
  "query_one (checkpointer_query [c] [w]) = Some
     \<lparr>cr_num_timed = pk_num_timed c, cr_num_requested = pk_num_requested c,
      cr_write_time_ms = pk_write_time c, cr_sync_time_ms = pk_sync_time c,
      cr_buffers_written = pk_buffers_written c, cr_wal_fpi = w\<rparr>"
  by (simp add: checkpointer_query_def query_one_def)

definition extension_query :: "string list \<Rightarrow> ext_query" where
  "extension_query extnames = Ext_Rows (count_rows_where (\<lambda>n. n = ''pg_stat_statements'') extnames)"

lemma extension_query_one:
  "distinct extnames \<Longrightarrow>
     extension_query extnames = Ext_Rows 1 \<longleftrightarrow> ''pg_stat_statements'' \<in> set extnames"
proof -
  assume "distinct extnames"
  then have "count_rows_where (\<lambda>n. n = k) extnames = (if k \<in> set extnames then 1 else 0)" for k
    by (induction extnames) (auto simp: count_rows_where_def filter_empty_conv)
  then show ?thesis by (simp add: extension_query_def)
qed

text \<open>The probe is ready exactly when the version suffices and the extension is installed.\<close>

lemma probe_extension:
  assumes "distinct extnames" and "num < 2 ^ 32"
  shows "probe (Some (dec num)) (extension_query extnames) = Inr Ready \<longleftrightarrow>
    130000 \<le> num \<and> ''pg_stat_statements'' \<in> set extnames"
  using extension_query_one [OF assms(1)] by (simp add: probe_dec [OF assms(2)])

section \<open>What the counters say of the server\<close>

text \<open>A poll fails (None), or is answered from the tables of the server at that time.\<close>

definition statement_poll :: "pg_server option \<Rightarrow> statement_row list option \<Rightarrow> bool" where
  "statement_poll p rows =
     (case (p, rows) of
        (None, None) \<Rightarrow> True
      | (Some v, Some rs) \<Rightarrow> catalogs_ok v \<and> answers (statements_query v) rs
      | _ \<Rightarrow> False)"

text \<open>The rows of a queryid in the tables, and the values a counter reads from them over the polls.\<close>

definition query_rows :: "i64 \<Rightarrow> pg_server \<Rightarrow> statement_row list" where
  "query_rows q v = filter (\<lambda>r. rw_queryid r = q) (statements_query v)"

definition server_values :: "(prev_cumulative \<Rightarrow> u64) \<Rightarrow> i64 \<Rightarrow> pg_server option list \<Rightarrow> nat list" where
  "server_values field q ps =
     concat (map (\<lambda>v. map (\<lambda>r. unat (field (cumulative_of (sample_of_row r)))) (query_rows q v))
       (somes ps))"

lemma mset_single: "mset xs = mset ys \<Longrightarrow> length ys \<le> 1 \<Longrightarrow> xs = ys"
  by (cases ys) (auto simp: mset_single_iff)

lemma polled_values:
  assumes "list_all2 statement_poll ps ticks"
    and "\<forall>v\<in>set (somes ps). length (query_rows q v) \<le> 1"
  shows "values_of field q (polled ticks) = server_values field q ps"
  using assms
proof (induction rule: list_all2_induct)
  case (Cons p ps t ticks)
  show ?case
  proof (cases p)
    case None
    then have "t = None" using Cons.hyps by (simp add: statement_poll_def split: option.splits)
    with None Cons show ?thesis by (simp add: polled_def server_values_def)
  next
    case (Some v)
    then obtain rs where t: "t = Some rs" and ans: "answers (statements_query v) rs"
      using Cons.hyps by (auto simp: statement_poll_def split: option.splits)
    have "mset (filter (\<lambda>r. rw_queryid r = q) rs) = mset (query_rows q v)"
      using ans by (simp add: answers_def query_rows_def)
    then have "filter (\<lambda>r. rw_queryid r = q) rs = query_rows q v"
      using Cons.prems Some by (intro mset_single) simp_all
    moreover have "values_of field q (polled (t # ticks)) =
        map (\<lambda>r. unat (field (cumulative_of (sample_of_row r)))) (filter (\<lambda>r. rw_queryid r = q) rs)
        @ values_of field q (polled ticks)"
      by (simp add: values_of_def polled_def t filter_map comp_def sample_of_row_def)
    ultimately show ?thesis using Cons Some by (simp add: server_values_def)
  qed
qed (simp add: values_of_def polled_def server_values_def)

lemma polled_samples:
  "list_all2 statement_poll ps ticks \<Longrightarrow> s \<in> set (polled ticks) \<Longrightarrow>
     \<exists>v\<in>set (somes ps). \<exists>r\<in>set (statements_query v). s = sample_of_row r"
proof (induction rule: list_all2_induct)
  case (Cons p ps t ticks)
  then show ?case
    by (cases p; cases t)
      (auto simp: statement_poll_def polled_def answers_def dest!: mset_eq_setD)
qed (simp add: polled_def)

text \<open>
  Entries that differ in a column the query does not read share their label set too. Since PostgreSQL
  14 the same statement of the same user and database has one entry for calls from the client and
  one for calls from within functions; neither being called, each poll adds their difference.
\<close>

lemma twin_entries_overcount:
  assumes "sp_queryid a = q" and "sp_queryid b = q" and "sp_username a = u" and "sp_username b = u"
    and "sp_database a = d" and "sp_database b = d" and "unat (sp_calls a) \<le> unat (sp_calls b)"
  shows "counter_total ''pgsleuth.pg.stmt.calls'' (stmt_attrs q d u)
      (stmt_events (concat (replicate (Suc k) [a, b]))) =
    unat (sp_calls b) + k * (unat (sp_calls b) - unat (sp_calls a))"
proof -
  let ?xs = "\<lambda>n. concat (replicate n [a, b])"
  have calls: "(''pgsleuth.pg.stmt.calls'', dl_calls, pc_calls) \<in> set stmt_fields"
    by (simp add: stmt_fields_def)
  have snoc: "?xs (Suc n) = (?xs n @ [a]) @ [b]" for n by (induction n) simp_all
  define V where "V n = values_of pc_calls q (?xs n)" for n
  have V: "V 0 = []" "V (Suc n) = (V n @ [unat (sp_calls a)]) @ [unat (sp_calls b)]" for n
    unfolding V_def snoc using assms(1,2) by (simp_all add: values_of_def cumulative_of_def)
  have "sum_list (increments (V (Suc n))) =
      unat (sp_calls b) + n * (unat (sp_calls b) - unat (sp_calls a))" for n
  proof (induction n)
    case 0
    show ?case unfolding V increments_snoc using assms(7) by simp
  next
    case (Suc n)
    have "V (Suc n) \<noteq> []" "last (V (Suc n)) = unat (sp_calls b)" by (simp_all add: V(2))
    with Suc show ?case
      unfolding V(2) [of "Suc n"] increments_snoc using assms(7) by simp
  qed
  moreover have "\<forall>s\<in>set (?xs (Suc k)). sp_queryid s = q \<longrightarrow> sp_database s = d \<and> sp_username s = u"
    using assms by auto
  ultimately show ?thesis using stmt_events_total [OF calls, of "?xs (Suc k)"] by (simp add: V_def)
qed

section \<open>Properties\<close>

text \<open>
  C19. The counters show the server's statistics: over any ticks, failed polls and any order of the
  answered rows included, if the tables hold at most one entry of a queryid at a time, always with
  the same names of database and user, and its cumulative values never decrease, then each of the
  five counters of that label set shows the value of the last entry polled.
\<close>

theorem counters_show_server:
  assumes "list_all2 statement_poll ps ticks" and "(m, dl, field) \<in> set stmt_fields"
    and "\<forall>v\<in>set (somes ps). length (query_rows q v) \<le> 1
      \<and> (\<forall>r\<in>set (query_rows q v). rw_database r = d \<and> rw_username r = u)"
    and "sorted (server_values field q ps)" and "server_values field q ps \<noteq> []"
  shows "counter_total m (stmt_attrs q d u)
      (concat (map tick_events (tick_outs (collect_stmt_tick True) Map.empty ticks))) =
    last (server_values field q ps)"
proof -
  have vals: "values_of field q (polled ticks) = server_values field q ps"
    using assms(3) by (intro polled_values [OF assms(1)]) blast
  have "\<forall>s\<in>set (polled ticks). sp_queryid s = q \<longrightarrow> sp_database s = d \<and> sp_username s = u"
  proof (intro ballI impI)
    fix s
    assume "s \<in> set (polled ticks)" and q: "sp_queryid s = q"
    from polled_samples [OF assms(1) this(1)] obtain v r where
      "v \<in> set (somes ps)" "r \<in> set (statements_query v)" "s = sample_of_row r" by blast
    with q assms(3) show "sp_database s = d \<and> sp_username s = u"
      by (simp add: query_rows_def sample_of_row_def)
  qed
  from stmt_events_total [OF assms(2) this] show ?thesis
    using assms(4,5) by (simp add: run_events vals sum_increments_sorted)
qed

text \<open>A server with one statement of a dropped database; another entry has no queryid.\<close>

definition example_server :: "i64 \<Rightarrow> pg_server" where
  "example_server n =
     (let s = \<lparr>pt_userid = 10, pt_dbid = 5, pt_queryid = Some 7, pt_calls = n,
                pt_total_exec_time = f_zero, pt_rows = 0, pt_shared_blks_hit = 0,
                pt_shared_blks_read = 0\<rparr>
      in \<lparr>sv_statements = [s\<lparr>pt_queryid := None\<rparr>, s], sv_databases = [(1, ''postgres'')],
          sv_roles = [(10, ''app'')]\<rparr>)"

lemma example_server_rows:
  "statements_query (example_server n) =
     [\<lparr>rw_queryid = 7, rw_database = [], rw_username = ''app'', rw_calls = n,
       rw_total_exec_time_ms = f_zero, rw_rows = 0, rw_shared_blks_hit = 0,
       rw_shared_blks_read = 0\<rparr>]"
  by (simp add: statements_query_def example_server_def left_join_def statement_select_def)

theorem counters_show_server_witness:
  "counter_total ''pgsleuth.pg.stmt.calls'' (stmt_attrs 7 [] ''app'')
      (concat (map tick_events (tick_outs (collect_stmt_tick True) Map.empty
         [Some (statements_query (example_server 100)), None,
          Some (statements_query (example_server 155))]))) = 155"
proof -
  let ?ps = "[Some (example_server 100), None, Some (example_server 155)]"
  have all: "list_all2 statement_poll ?ps
      [Some (statements_query (example_server 100)), None,
       Some (statements_query (example_server 155))]"
    by (simp add: statement_poll_def) (simp add: catalogs_ok_def example_server_def)
  have calls: "(''pgsleuth.pg.stmt.calls'', dl_calls, pc_calls) \<in> set stmt_fields"
    by (simp add: stmt_fields_def)
  have one: "\<forall>v\<in>set (somes ?ps). length (query_rows 7 v) \<le> 1
      \<and> (\<forall>r\<in>set (query_rows 7 v). rw_database r = [] \<and> rw_username r = ''app'')"
    by (simp add: query_rows_def example_server_rows)
  have vals: "server_values pc_calls 7 ?ps = [100, 155]"
    by (simp add: server_values_def query_rows_def example_server_rows sample_of_row_def
        cumulative_of_def u64_of_i64_or_0_def)
  have "sorted (server_values pc_calls 7 ?ps)" "server_values pc_calls 7 ?ps \<noteq> []"
    by (simp_all add: vals)
  from counters_show_server [OF all calls one this] show ?thesis by (simp add: vals)
qed

end
