(* ===== verification/Ebpf_Common.thy ===== *)
theory Ebpf_Common
  imports Rust_Text
begin

text \<open>
  \<open>crates/pgsleuth-ebpf-common/src/lib.rs\<close>: the values the kernel programs and the loader
  exchange. A \<open>[u8; n]\<close> is a list of bytes; padding fields are kept.
\<close>

text \<open>Declared for both sides and used by neither; \<open>c_long\<close> has 64 bits.\<close>

record syscall_event =
  se_pid :: u32
  se_syscall_nr :: i64
  se_filename_ptr :: u64

record filter_config =
  fc_pid :: u32
  fc_cgroup_id :: u64
  fc_name :: "u8 list"
  fc_dev_t :: u32

record trace_event =
  te_pid :: u32
  te_port :: u32
  te_comm :: "u8 list"

record block_event =
  be_dev :: u32
  be_pid :: u32
  be_bytes :: u32
  be_comm :: "u8 list"

datatype op_class = Op_Read | Op_Write | Op_WriteFlush | Op_Other

fun op_class_u8 :: "op_class \<Rightarrow> u8" where
  "op_class_u8 Op_Read = 0"
| "op_class_u8 Op_Write = 1"
| "op_class_u8 Op_WriteFlush = 2"
| "op_class_u8 Op_Other = 3"

record rq_key =
  rk_dev :: u32
  rk_pad :: u32
  rk_sector :: u64

record block_io_latency_event =
  le_dev :: u32
  le_op_class :: u8
  le_pad :: "u8 list"
  le_bytes :: u32
  le_latency_ns :: u64

definition FILE_EVENT_PATH_LEN :: nat where
  "FILE_EVENT_PATH_LEN = 128"

record temp_file_event =
  fe_pid :: u32
  fe_syscall :: u8
  fe_pad :: "u8 list"
  fe_bytes :: u64
  fe_query_hash :: u64
  fe_comm :: "u8 list"
  fe_path :: "u8 list"

lemma op_class_u8_inject [simp]: "op_class_u8 a = op_class_u8 b \<longleftrightarrow> a = b"
  by (cases a; cases b) simp_all

lemma rq_key_eq: "k = k' \<longleftrightarrow> rk_dev k = rk_dev k' \<and> rk_pad k = rk_pad k' \<and> rk_sector k = rk_sector k'"
  for k k' :: rq_key
  by (cases k; cases k') simp

end
