(* ===== verification/Loader_Setup.thy ===== *)
theory Loader_Setup
  imports Ebpf_Common
begin

text \<open>
  \<open>crates/pgsleuth-ebpf-loader/src/main.rs\<close>, the part that talks to the kernel before the event
  loop: loading the object file, writing the filter, attaching the five programs and opening the
  four ring buffers. \<open>aya\<close> is not part of the repository: which of its calls succeed is the
  parameter \<open>ok\<close>. A block of the code is the list of the calls it makes, each with the context its
  failure is reported with, and \<open>?\<close> after every call is \<open>run_calls\<close>.
\<close>

section \<open>Calls of the eBPF library\<close>

datatype aya_call =
    Load_File string
  | Map_Mut string
  | To_Array string
  | Set_Filter filter_config
  | Program_Mut string
  | To_KProbe string
  | To_TracePoint string
  | Load_Program string
  | Attach_KProbe string string nat
  | Attach_TracePoint string string string
  | Take_Map string
  | To_RingBuf string
  | New_AsyncFd string

type_synonym aya_block = "(aya_call \<times> string) list"

text \<open>The calls made, and the context of the one that failed.\<close>

fun run_calls :: "(aya_call \<Rightarrow> bool) \<Rightarrow> aya_block \<Rightarrow> aya_call list \<times> string option" where
  "run_calls ok [] = ([], None)"
| "run_calls ok ((c, ctx) # cs) =
     (if ok c then (c # fst (run_calls ok cs), snd (run_calls ok cs)) else ([c], Some ctx))"

section \<open>The blocks of the code\<close>

definition open_filter_map :: "string \<Rightarrow> aya_block" where
  "open_filter_map bpf_object =
     [(Load_File bpf_object, ''Failed to load BPF object''),
      (Map_Mut ''FILTER_CONFIG'', ''Failed to get FILTER_CONFIG map''),
      (To_Array ''FILTER_CONFIG'', ''Failed to convert map to Array'')]"

definition set_filter :: "filter_config \<Rightarrow> aya_block" where
  "set_filter config = [(Set_Filter config, ''Failed to set filter config in map'')]"

definition attach_kprobe :: aya_block where
  "attach_kprobe =
     [(Program_Mut ''pgsleuth_ebpf'', ''Failed to get pgsleuth_ebpf program''),
      (To_KProbe ''pgsleuth_ebpf'', ''Failed to coerce program to KProbe''),
      (Load_Program ''pgsleuth_ebpf'', ''Failed to load kprobe''),
      (Attach_KProbe ''pgsleuth_ebpf'' ''vfs_open'' 0, ''Failed to attach kprobe to vfs_open'')]"

definition attach_block_issue :: aya_block where
  "attach_block_issue =
     [(Program_Mut ''pgsleuth_block_rq_issue'', ''Failed to get pgsleuth_block_rq_issue program''),
      (To_TracePoint ''pgsleuth_block_rq_issue'', ''Failed to coerce program to TracePoint''),
      (Load_Program ''pgsleuth_block_rq_issue'',
         ''Failed to load block_rq_issue tracepoint program''),
      (Attach_TracePoint ''pgsleuth_block_rq_issue'' ''block'' ''block_rq_issue'',
         ''Failed to attach tracepoint block:block_rq_issue'')]"

definition attach_block_complete :: aya_block where
  "attach_block_complete =
     [(Program_Mut ''pgsleuth_block_rq_complete'',
         ''Failed to get pgsleuth_block_rq_complete program''),
      (To_TracePoint ''pgsleuth_block_rq_complete'', ''Failed to coerce program to TracePoint''),
      (Load_Program ''pgsleuth_block_rq_complete'',
         ''Failed to load block_rq_complete tracepoint program''),
      (Attach_TracePoint ''pgsleuth_block_rq_complete'' ''block'' ''block_rq_complete'',
         ''Failed to attach tracepoint block:block_rq_complete'')]"

definition attach_syscall_tracepoint :: "string \<Rightarrow> string \<Rightarrow> string \<Rightarrow> aya_block" where
  "attach_syscall_tracepoint program category name =
     [(Program_Mut program, ''Failed to get '' @ program @ '' program''),
      (To_TracePoint program, ''Failed to coerce '' @ program @ '' to TracePoint''),
      (Load_Program program, ''Failed to load '' @ program),
      (Attach_TracePoint program category name,
         ''Failed to attach '' @ category @ '':'' @ name)]"

definition attach_programs :: aya_block where
  "attach_programs =
     attach_kprobe @ attach_block_issue @ attach_block_complete
     @ attach_syscall_tracepoint ''pgsleuth_sys_enter_openat'' ''syscalls'' ''sys_enter_openat''
     @ attach_syscall_tracepoint ''pgsleuth_sys_enter_unlinkat'' ''syscalls'' ''sys_enter_unlinkat''"

definition take_ring :: "string \<Rightarrow> aya_block" where
  "take_ring name =
     [(Take_Map name, ''Failed to get '' @ name @ '' map''),
      (To_RingBuf name, ''Failed to convert '' @ name @ '' map to RingBuf'')]"

definition open_rings :: aya_block where
  "open_rings =
     take_ring ''EVENTS'' @ take_ring ''BLOCK_EVENTS'' @ take_ring ''LATENCY_EVENTS''
     @ take_ring ''TEMP_FILE_EVENTS''
     @ [(New_AsyncFd ''EVENTS'', ''Failed to create AsyncFd for EVENTS''),
        (New_AsyncFd ''BLOCK_EVENTS'', ''Failed to create AsyncFd for BLOCK_EVENTS''),
        (New_AsyncFd ''LATENCY_EVENTS'', ''Failed to create AsyncFd for LATENCY_EVENTS''),
        (New_AsyncFd ''TEMP_FILE_EVENTS'', ''Failed to create AsyncFd for TEMP_FILE_EVENTS'')]"

text \<open>Everything \<open>main\<close> asks of the library before its loop, in order.\<close>

definition bpf_startup :: "string \<Rightarrow> filter_config \<Rightarrow> aya_block" where
  "bpf_startup bpf_object config =
     open_filter_map bpf_object @ set_filter config @ attach_programs @ open_rings"

section \<open>Facts\<close>

lemma run_calls_append:
  "run_calls ok (cs @ ds) =
     (if snd (run_calls ok cs) = None
      then (fst (run_calls ok cs) @ fst (run_calls ok ds), snd (run_calls ok ds))
      else run_calls ok cs)"
  by (induction ok cs rule: run_calls.induct) auto

lemma run_calls_ok_iff: "snd (run_calls ok cs) = None \<longleftrightarrow> (\<forall>c\<in>set cs. ok (fst c))"
  by (induction ok cs rule: run_calls.induct) auto

lemma run_calls_all: "\<forall>c\<in>set cs. ok (fst c) \<Longrightarrow> run_calls ok cs = (map fst cs, None)"
  by (induction ok cs rule: run_calls.induct) auto

lemma prefix_without: "xs @ ys = pre @ c # post \<Longrightarrow> c \<notin> set xs \<Longrightarrow> set xs \<subseteq> set pre"
  by (auto simp: append_eq_append_conv2 append_eq_Cons_conv)

lemma run_calls_subset: "set (fst (run_calls ok cs)) \<subseteq> fst ` set cs"
  by (induction ok cs rule: run_calls.induct) auto

text \<open>The calls by which a program of the object file becomes active.\<close>

fun attaches :: "aya_call \<Rightarrow> bool" where
  "attaches (Attach_KProbe _ _ _) = True"
| "attaches (Attach_TracePoint _ _ _) = True"
| "attaches _ = False"

lemmas setup_blocks = open_filter_map_def set_filter_def attach_programs_def attach_kprobe_def
  attach_block_issue_def attach_block_complete_def attach_syscall_tracepoint_def open_rings_def
  take_ring_def

text \<open>What comes before the first attachment, and what follows it.\<close>

definition before_attach :: "string \<Rightarrow> filter_config \<Rightarrow> aya_block" where
  "before_attach bpf_object config = open_filter_map bpf_object @ set_filter config"

lemma bpf_startup_split:
  "bpf_startup bpf_object config = before_attach bpf_object config @ attach_programs @ open_rings"
  by (simp add: bpf_startup_def before_attach_def)

lemma before_attach_quiet: "c \<in> set (before_attach bpf_object config) \<Longrightarrow> \<not> attaches (fst c)"
  by (auto simp: before_attach_def setup_blocks)

lemma open_rings_quiet: "c \<in> set open_rings \<Longrightarrow> \<not> attaches (fst c)"
  by (auto simp: setup_blocks)

section \<open>Properties\<close>

text \<open>
  C25. No program runs without its filter: whatever calls of the eBPF library fail, when the start-up
  attaches a program then before that call it has written exactly the given configuration into the
  filter map, and that write succeeded.
\<close>

theorem filter_set_before_attach:
  assumes "fst (run_calls ok (bpf_startup bpf_object config)) = pre @ c # post" and "attaches c"
  shows "Set_Filter config \<in> set pre \<and> ok (Set_Filter config)"
proof -
  let ?b = "before_attach bpf_object config"
  have none: "snd (run_calls ok ?b) = None"
  proof (rule ccontr)
    assume "snd (run_calls ok ?b) \<noteq> None"
    then have "c \<in> set (fst (run_calls ok ?b))"
      using assms(1) by (auto simp: bpf_startup_split run_calls_append)
    then show False
      using assms(2) before_attach_quiet run_calls_subset [of ok ?b] by fastforce
  qed
  then have all: "\<forall>c\<in>set ?b. ok (fst c)" by (simp add: run_calls_ok_iff)
  then obtain rest where split: "map fst ?b @ rest = pre @ c # post"
    using assms(1) none by (auto simp: bpf_startup_split run_calls_append run_calls_all)
  moreover have "c \<notin> set (map fst ?b)"
    using assms(2) before_attach_quiet by fastforce
  ultimately have "set (map fst ?b) \<subseteq> set pre" by (rule prefix_without)
  then show ?thesis
    using all by (auto simp: before_attach_def set_filter_def)
qed

definition no_filter :: filter_config where
  "no_filter = \<lparr>fc_pid = 0, fc_cgroup_id = 0, fc_name = replicate 16 0, fc_dev_t = 0\<rparr>"

theorem filter_set_before_attach_witness:
  "Set_Filter no_filter \<in> set (map fst (before_attach ''/build/pgsleuth-ebpf'' no_filter
     @ take 3 attach_kprobe))"
proof -
  have "map fst attach_kprobe = map fst (take 3 attach_kprobe)
      @ Attach_KProbe ''pgsleuth_ebpf'' ''vfs_open'' 0 # []"
    by (simp add: attach_kprobe_def)
  then obtain post where split:
    "fst (run_calls (\<lambda>_. True) (bpf_startup ''/build/pgsleuth-ebpf'' no_filter)) =
      map fst (before_attach ''/build/pgsleuth-ebpf'' no_filter @ take 3 attach_kprobe)
      @ Attach_KProbe ''pgsleuth_ebpf'' ''vfs_open'' 0 # post"
    by (simp add: run_calls_all bpf_startup_split attach_programs_def)
  from filter_set_before_attach [OF split] show ?thesis by simp
qed

end
