(* ===== verification/Loader.thy ===== *)
theory Loader
  imports Window Otel_Mapping Utf8 Pg_Version Loader_Setup Otel_Metrics "HOL-Library.Multiset"
begin

text \<open>
  \<open>crates/pgsleuth-ebpf-loader/src/main.rs\<close>: start-up (discovery through the Postgres extension,
  the filter handed to the kernel programs), the two rules of the loader (fsync jitter, temp-file
  attribution), the event loop and \<open>main\<close> around it. Parameters are the database's answers, which
  calls of the eBPF library succeed, whether the OTLP pipelines can be built, and the batches of
  events the ring buffers deliver.
\<close>

section \<open>Arguments and discovery\<close>

record loader_args =
  la_bpf_object :: string
  la_name :: string
  la_pid :: "u32 option"
  la_cgroup_id :: "u64 option"
  la_pg_conn :: string
  la_dev_t :: "u32 option"
  la_otlp_endpoint :: string
  la_pg_instance :: string
  la_fsync_threshold_ms :: u64
  la_fsync_fire_after :: u32
  la_interval_ms :: u64

definition loader_args_default :: loader_args where
  "loader_args_default =
     \<lparr>la_bpf_object = ''/build/pgsleuth-ebpf'', la_name = [], la_pid = None, la_cgroup_id = None,
      la_pg_conn = ''postgres://postgres@localhost/postgres'', la_dev_t = None,
      la_otlp_endpoint = [], la_pg_instance = ''fixture-pg'', la_fsync_threshold_ms = 10,
      la_fsync_fire_after = 3, la_interval_ms = 1000\<rparr>"

record pg_discovery =
  pd_postmaster_pid :: i32
  pd_wal_dev_t :: "u32 option"

definition parse_kernel_dev_t :: "string \<Rightarrow> u32 option" where
  "parse_kernel_dev_t s =
     (case split_once CHR '':'' s of
        None \<Rightarrow> None
      | Some (major_s, minor_s) \<Rightarrow>
     (case parse_uint (2 ^ 32) (trim major_s) of
        None \<Rightarrow> None
      | Some maj \<Rightarrow>
     (case parse_uint (2 ^ 32) (trim minor_s) of
        None \<Rightarrow> None
      | Some mnr \<Rightarrow>
          let major = of_nat maj :: u32; minor = of_nat mnr :: u32 in
          if push_bit 12 1 \<le> major \<or> push_bit 20 1 \<le> minor then None
          else Some (or (push_bit 20 major) minor))))"

text \<open>The database's answer: None when the connection or the query failed.\<close>

definition discover_via_pg_ext ::
  "string \<Rightarrow> bool \<Rightarrow> (string \<times> i32) option \<Rightarrow> agent_error + pg_discovery" where
  "discover_via_pg_ext pg_conn connects row =
     (if \<not> connects then Inl (Connect_Failed pg_conn)
      else case row of
          None \<Rightarrow> Inl (Query_Failed
            ''pgsleuth_wal_device() / pgsleuth_postmaster_pid() query failed'')
        | Some (wal_device, postmaster_pid) \<Rightarrow>
            Inr \<lparr>pd_postmaster_pid = postmaster_pid,
                 pd_wal_dev_t = parse_kernel_dev_t wal_device\<rparr>)"

definition resolve_pid_filter ::
  "u32 option \<Rightarrow> u64 option \<Rightarrow> pg_discovery option \<Rightarrow> u32 option" where
  "resolve_pid_filter explicit_pid explicit_cgroup_id discovery =
     (case explicit_pid of
        Some pid \<Rightarrow> Some pid
      | None \<Rightarrow>
          if explicit_cgroup_id \<noteq> None then None
          else Option.bind discovery (\<lambda>d. u32_try_of_i32 (pd_postmaster_pid d)))"

definition loader_discovery ::
  "loader_args \<Rightarrow> bool \<Rightarrow> (string \<times> i32) option \<Rightarrow> pg_discovery option" where
  "loader_discovery args connects row =
     (if la_pg_conn args = [] then None
      else case discover_via_pg_ext (la_pg_conn args) connects row of
          Inr d \<Rightarrow> Some d
        | Inl _ \<Rightarrow> None)"

definition effective_dev_t :: "loader_args \<Rightarrow> pg_discovery option \<Rightarrow> u32" where
  "effective_dev_t args discovery =
     (case la_dev_t args of
        Some d \<Rightarrow> d
      | None \<Rightarrow> (case Option.bind discovery pd_wal_dev_t of Some d \<Rightarrow> d | None \<Rightarrow> 0))"

definition bytes_of_string :: "string \<Rightarrow> u8 list" where
  "bytes_of_string s = map (\<lambda>c. of_nat (code c)) s"

definition name_field :: "string \<Rightarrow> u8 list" where
  "name_field name =
     (let src_bytes = bytes_of_string name; len = min (length src_bytes) 15 in
      take len src_bytes @ drop len (replicate 16 0))"

definition loader_filter_config :: "loader_args \<Rightarrow> pg_discovery option \<Rightarrow> filter_config" where
  "loader_filter_config args discovery =
     \<lparr>fc_pid = (case resolve_pid_filter (la_pid args) (la_cgroup_id args) discovery of
                  Some p \<Rightarrow> p | None \<Rightarrow> 0),
      fc_cgroup_id = (case la_cgroup_id args of Some c \<Rightarrow> c | None \<Rightarrow> 0),
      fc_name = (if la_name args \<noteq> [] then name_field (la_name args) else replicate 16 0),
      fc_dev_t = effective_dev_t args discovery\<rparr>"

section \<open>The two rules\<close>

definition op_class_str :: "u8 \<Rightarrow> string" where
  "op_class_str op =
     (if op = op_class_u8 Op_Read then ''read''
      else if op = op_class_u8 Op_Write then ''write''
      else if op = op_class_u8 Op_WriteFlush then ''write_flush''
      else ''other'')"

definition p50_ns :: "u64 list \<Rightarrow> u64 option" where
  "p50_ns samples =
     (if samples = [] then None else Some (sort samples ! (length samples div 2)))"

definition fsync_build_finding ::
  "datetime \<Rightarrow> string \<Rightarrow> string \<Rightarrow> u64 \<Rightarrow> u64 \<Rightarrow> u32 \<Rightarrow> u64 \<Rightarrow> finding" where
  "fsync_build_finding now pg_instance dev_label p50_ms threshold_ms streak interval_ms =
     \<lparr>f_schema_version = FINDING_SCHEMA_VERSION,
      f_rule_id = ''storage.wal.fsync.jitter'',
      f_rule_version = 1,
      f_tier = Deep,
      f_severity = High,
      f_fired_at = now,
      f_pg_instance = \<lparr>inst_id = pg_instance, inst_db_name = None, inst_role = Role_Unknown\<rparr>,
      f_summary =
        ''WAL device commit P50 latency '' @ dec (unat p50_ms) @ ''ms > ''
        @ dec (unat threshold_ms) @ ''ms for '' @ dec (unat streak) @ '' consecutive ''
        @ dec (unat interval_ms) @ ''ms intervals (device='' @ dev_label @ '')'',
      f_evidence = JObj
        [(''p50_ms'', JNum (uint p50_ms)),
         (''threshold_ms'', JNum (uint threshold_ms)),
         (''streak_intervals'', JNum (uint streak)),
         (''interval_ms'', JNum (uint interval_ms)),
         (''device'', JStr dev_label)],
      f_remediation =
        \<lparr>rem_text =
           ''Investigate WAL device contention; check device IO queue depth and storage tail latency.'',
         rem_knobs = [''wal_sync_method'', ''synchronous_commit'']\<rparr>,
      f_otel_attributes = btree_insert ''pgsleuth.wal.device'' (Attr_String dev_label) []\<rparr>"

definition path_from_event :: "u8 list \<Rightarrow> string" where
  "path_from_event buf = from_utf8_lossy (string_of_bytes (takeWhile (\<lambda>b. b \<noteq> 0) buf))"

definition comm_str :: "u8 list \<Rightarrow> string" where
  "comm_str comm =
     trim_nuls (case from_utf8 (string_of_bytes comm) of Some s \<Rightarrow> s | None \<Rightarrow> ''unknown'')"

definition syscall_str :: "u8 \<Rightarrow> string" where
  "syscall_str s = (if s = 0 then ''openat'' else if s = 1 then ''unlinkat'' else ''other'')"

definition build_temp_file_finding ::
  "datetime \<Rightarrow> string \<Rightarrow> u32 \<Rightarrow> string \<Rightarrow> string \<Rightarrow> string \<Rightarrow> finding" where
  "build_temp_file_finding now pg_instance pid comm path syscall =
     \<lparr>f_schema_version = FINDING_SCHEMA_VERSION,
      f_rule_id = ''storage.temp_spill.attribution'',
      f_rule_version = 1,
      f_tier = Deep,
      f_severity = Medium,
      f_fired_at = now,
      f_pg_instance = \<lparr>inst_id = pg_instance, inst_db_name = None, inst_role = Role_Unknown\<rparr>,
      f_summary =
        ''Temp-file spill detected on PID '' @ dec (unat pid) @ '' ('' @ comm @ '') via ''
        @ syscall @ '': '' @ path,
      f_evidence = JObj
        [(''pid'', JNum (uint pid)), (''comm'', JStr comm), (''path'', JStr path),
         (''syscall'', JStr syscall), (''bytes_spilled'', JNull), (''query_hash'', JNull),
         (''attribution_layer'', JStr ''syscall_only'')],
      f_remediation =
        \<lparr>rem_text =
           ''Identify the backend's running query (pg_stat_activity.pid) and raise work_mem for that session, or rewrite the query to avoid the spill. When the BufFileCreateTemp uprobe layer ships, the Finding will carry the offending query_hash directly.'',
         rem_knobs = [''work_mem'', ''temp_file_limit'']\<rparr>,
      f_otel_attributes =
        btree_insert ''pgsleuth.spill.attribution_layer'' (Attr_String ''syscall_only'') []\<rparr>"

section \<open>The event loop\<close>

record loader_cfg =
  lc_args :: loader_args
  lc_dev_label :: string
  lc_log_emitter :: bool
  lc_metrics_emitter :: bool

datatype loader_effect =
    Eff_Activity u32 string
  | Eff_Block_Io u32 u32 u32 string
  | Eff_Spill string u32 string string
  | Eff_Metric metric_event
  | Eff_Rule_Tick nat u64 u64 bool breach_state
  | Eff_Fired string
  | Eff_Emit finding
  | Eff_Metrics_Shutdown
  | Eff_Log_Shutdown

datatype run_status = Running | Stopped | Poll_Failed string

record loader_state =
  ls_samples :: "u64 list"
  ls_counter :: breach_counter
  ls_seen_spills :: "(u32 \<times> string) set"
  ls_status :: run_status

definition loader_init :: loader_state where
  "loader_init =
     \<lparr>ls_samples = [], ls_counter = breach_counter_default, ls_seen_spills = {},
      ls_status = Running\<rparr>"

text \<open>One arm of the \<open>select!\<close>: a ring buffer that became readable, with the events it holds (and
  the time each finding built from them takes), a poll error, the tick, or Ctrl-C.\<close>

datatype loader_event =
    Ev_Ctrl_C
  | Ev_Trace "trace_event list"
  | Ev_Block "block_event list"
  | Ev_Temp "(temp_file_event \<times> datetime) list"
  | Ev_Latency "block_io_latency_event list"
  | Ev_Poll_Error string
  | Ev_Tick datetime

definition on_trace :: "trace_event \<Rightarrow> loader_effect" where
  "on_trace e = Eff_Activity (te_pid e) (comm_str (te_comm e))"

definition on_block :: "block_event \<Rightarrow> loader_effect" where
  "on_block e = Eff_Block_Io (be_dev e) (be_pid e) (be_bytes e) (comm_str (be_comm e))"

definition on_temp ::
  "loader_cfg \<Rightarrow> (u32 \<times> string) set \<Rightarrow> temp_file_event \<times> datetime
   \<Rightarrow> (u32 \<times> string) set \<times> loader_effect list" where
  "on_temp cfg seen ev =
     (let e = fst ev; path = path_from_event (fe_path e) in
      if \<not> contains ''pgsql_tmp'' path then (seen, [])
      else if (fe_pid e, path) \<in> seen then (seen, [])
      else
        let comm = comm_str (fe_comm e);
            sys = syscall_str (fe_syscall e);
            finding = build_temp_file_finding (snd ev) (la_pg_instance (lc_args cfg)) (fe_pid e)
                        comm path sys
        in (insert (fe_pid e, path) seen,
            Eff_Spill sys (fe_pid e) comm path
            # (if lc_log_emitter cfg then [Eff_Emit finding] else [])))"

definition on_latency ::
  "loader_cfg \<Rightarrow> u64 list \<Rightarrow> block_io_latency_event \<Rightarrow> u64 list \<times> loader_effect list" where
  "on_latency cfg samples e =
     (if le_op_class e = op_class_u8 Op_Write \<or> le_op_class e = op_class_u8 Op_WriteFlush
      then samples @ [le_latency_ns e] else samples,
      if lc_metrics_emitter cfg
      then [Eff_Metric (record_wal_io_latency (le_latency_ns e) (lc_dev_label cfg)
              (op_class_str (le_op_class e)))]
      else [])"

definition fsync_breached :: "loader_args \<Rightarrow> u64 list \<Rightarrow> bool" where
  "fsync_breached args samples =
     (case p50_ns samples of
        None \<Rightarrow> False
      | Some ns \<Rightarrow> sat_mul (la_fsync_threshold_ms args) 1000000 < ns)"

definition on_tick ::
  "loader_cfg \<Rightarrow> datetime \<Rightarrow> breach_counter \<Rightarrow> u64 list \<Rightarrow> breach_counter \<times> loader_effect list" where
  "on_tick cfg now counter samples =
     (let p50_ns_val = (case p50_ns samples of Some ns \<Rightarrow> ns | None \<Rightarrow> 0);
          p50_us = p50_ns_val div 1000;
          p50_ms = p50_ns_val div 1000000;
          breached = fsync_breached (lc_args cfg) samples;
          r = observe (la_fsync_fire_after (lc_args cfg)) counter breached
      in (fst r,
          Eff_Rule_Tick (length samples) p50_us p50_ms breached (snd r)
          # (case snd r of
               JustFired streak \<Rightarrow>
                 (let finding = fsync_build_finding now (la_pg_instance (lc_args cfg))
                        (lc_dev_label cfg) p50_ms (la_fsync_threshold_ms (lc_args cfg)) streak
                        (la_interval_ms (lc_args cfg))
                  in (if lc_log_emitter cfg then [Eff_Emit finding] else [])
                     @ [Eff_Fired (f_summary finding)])
             | _ \<Rightarrow> [])))"

definition loader_shutdown :: "loader_cfg \<Rightarrow> loader_effect list" where
  "loader_shutdown cfg =
     (if lc_metrics_emitter cfg then [Eff_Metrics_Shutdown] else [])
     @ (if lc_log_emitter cfg then [Eff_Log_Shutdown] else [])"

definition loader_step ::
  "loader_cfg \<Rightarrow> loader_state \<Rightarrow> loader_event \<Rightarrow> loader_state \<times> loader_effect list" where
  "loader_step cfg st ev =
     (if ls_status st \<noteq> Running then (st, [])
      else case ev of
          Ev_Ctrl_C \<Rightarrow> (st\<lparr>ls_status := Stopped\<rparr>, loader_shutdown cfg)
        | Ev_Trace es \<Rightarrow> (st, map on_trace es)
        | Ev_Block es \<Rightarrow> (st, map on_block es)
        | Ev_Temp es \<Rightarrow>
            (st\<lparr>ls_seen_spills := after (on_temp cfg) (ls_seen_spills st) es\<rparr>,
             concat (tick_outs (on_temp cfg) (ls_seen_spills st) es))
        | Ev_Latency es \<Rightarrow>
            (st\<lparr>ls_samples := after (on_latency cfg) (ls_samples st) es\<rparr>,
             concat (tick_outs (on_latency cfg) (ls_samples st) es))
        | Ev_Poll_Error which \<Rightarrow> (st\<lparr>ls_status := Poll_Failed which\<rparr>, [])
        | Ev_Tick now \<Rightarrow>
            (let r = on_tick cfg now (ls_counter st) (ls_samples st)
             in (st\<lparr>ls_samples := [], ls_counter := fst r\<rparr>, snd r)))"

text \<open>
  The start of the loop: the configuration the handlers see, from the arguments, the discovery and
  whether the two OTLP pipelines could be built.
\<close>

definition loader_setup ::
  "loader_args \<Rightarrow> pg_discovery option \<Rightarrow> (emitter_config \<Rightarrow> bool) \<Rightarrow> (emitter_config \<Rightarrow> bool)
   \<Rightarrow> loader_cfg" where
  "loader_setup args discovery log_ok metrics_ok =
     \<lparr>lc_args = args,
      lc_dev_label = ''dev_t='' @ dec (unat (effective_dev_t args discovery)),
      lc_log_emitter =
        (la_otlp_endpoint args \<noteq> [] \<and> log_ok (agent_emitter_config (la_otlp_endpoint args))),
      lc_metrics_emitter =
        (la_otlp_endpoint args \<noteq> [] \<and> metrics_ok (agent_emitter_config (la_otlp_endpoint args)))\<rparr>"

text \<open>The UTF-8 bytes of the dash in one of the log lines.\<close>

definition em_dash :: string where
  "em_dash = [CHR 0xE2, CHR 0x80, CHR 0x94]"

text \<open>What the start-up logs about the filter, one line per criterion.\<close>

definition log_filter_state ::
  "u32 option \<Rightarrow> loader_args \<Rightarrow> pg_discovery option \<Rightarrow> u32 \<Rightarrow> string list" where
  "log_filter_state effective_pid args discovery dev_t =
     (case (effective_pid, la_pid args, discovery) of
        (Some pid, Some _, _) \<Rightarrow> [''Filtering for PID: '' @ dec (unat pid) @ '' (explicit --pid)'']
      | (Some pid, None, Some _) \<Rightarrow>
          [''Filtering for PID: '' @ dec (unat pid) @ '' (default '' @ em_dash @ '' postmaster from pg-ext)'']
      | (Some pid, None, None) \<Rightarrow> [''Filtering for PID: '' @ dec (unat pid)]
      | (None, _, _) \<Rightarrow> [])
     @ (case la_cgroup_id args of
          Some cgid \<Rightarrow> [''Filtering for Cgroup ID: '' @ dec (unat cgid)]
        | None \<Rightarrow> [])
     @ (if la_name args \<noteq> []
        then [''Filtering for process name: '' @ CHR 0x27 # la_name args @ [CHR 0x27]] else [])
     @ (if dev_t = 0 then [''dev_t filter off; block tracepoint will report ALL block I/O'']
        else case (la_dev_t args, Option.bind discovery pd_wal_dev_t) of
            (Some _, _) \<Rightarrow> [''Filtering block-layer events for dev_t='' @ dec (unat dev_t)
                              @ '' (explicit --dev-t)'']
          | (None, Some _) \<Rightarrow> [''Filtering block-layer events for dev_t='' @ dec (unat dev_t)
                                 @ '' (kernel-encoded; from pg-ext)'']
          | (None, None) \<Rightarrow> [''Filtering block-layer events for dev_t='' @ dec (unat dev_t)])"

text \<open>
  The program as a whole: discovery, filter and emitters, then the calls that load, attach and open
  the kernel side, then the loop on the events it is given. An error of those calls, or a poll error
  of the loop, ends the program without the shutdown of the emitters; \<open>tokio::time::interval\<close> panics
  on a period of zero.
\<close>

datatype loader_outcome =
    Loader_Failed "aya_call list" string
  | Loader_Panic "aya_call list"
  | Loader_Ran "aya_call list" "string list" run_status "loader_effect list list"

definition loader_main ::
  "loader_args \<Rightarrow> bool \<Rightarrow> (string \<times> i32) option \<Rightarrow> (emitter_config \<Rightarrow> bool) \<Rightarrow> (emitter_config \<Rightarrow> bool)
   \<Rightarrow> (aya_call \<Rightarrow> bool) \<Rightarrow> loader_event list \<Rightarrow> loader_outcome" where
  "loader_main args connects row log_ok metrics_ok ok evs =
     (let discovery = loader_discovery args connects row;
          cfg = loader_setup args discovery log_ok metrics_ok;
          config = loader_filter_config args discovery;
          bpf = run_calls ok (bpf_startup (la_bpf_object args) config)
      in case snd bpf of
           Some e \<Rightarrow> Loader_Failed (fst bpf) e
         | None \<Rightarrow>
             if la_interval_ms args = 0 then Loader_Panic (fst bpf)
             else Loader_Ran (fst bpf)
               (log_filter_state
                  (resolve_pid_filter (la_pid args) (la_cgroup_id args) discovery) args discovery
                  (effective_dev_t args discovery))
               (ls_status (after (loader_step cfg) loader_init evs))
               (tick_outs (loader_step cfg) loader_init evs))"

section \<open>The median\<close>

lemma sorted_nth_greater:
  fixes v :: "'a::linorder list"
  assumes "sorted v" and "i < length v"
  shows "t < v ! i \<longleftrightarrow> length (filter (\<lambda>x. x \<le> t) v) \<le> i"
proof
  assume gt: "t < v ! i"
  have "filter (\<lambda>x. x \<le> t) (drop i v) = []"
  proof -
    have "t < x" if "x \<in> set (drop i v)" for x
    proof -
      from that obtain j where "j < length (drop i v)" "x = drop i v ! j" by (metis in_set_conv_nth)
      then have "v ! i \<le> x" using assms by (auto intro: sorted_nth_mono)
      with gt show ?thesis by simp
    qed
    then show ?thesis by (auto simp: filter_empty_conv not_le)
  qed
  moreover have "length (filter (\<lambda>x. x \<le> t) v) =
      length (filter (\<lambda>x. x \<le> t) (take i v)) + length (filter (\<lambda>x. x \<le> t) (drop i v))"
    by (metis append_take_drop_id filter_append length_append)
  moreover have "length (filter (\<lambda>x. x \<le> t) (take i v)) \<le> i"
    by (rule order_trans [OF length_filter_le]) simp
  ultimately show "length (filter (\<lambda>x. x \<le> t) v) \<le> i" by simp
next
  assume few: "length (filter (\<lambda>x. x \<le> t) v) \<le> i"
  show "t < v ! i"
  proof (rule ccontr)
    assume "\<not> t < v ! i"
    then have "x \<le> t" if "x \<in> set (take (Suc i) v)" for x
    proof -
      from that obtain j where "j < Suc i" "j < length v" "x = v ! j"
        by (auto simp: in_set_conv_nth)
      then have "x \<le> v ! i" using assms by (auto intro: sorted_nth_mono)
      with \<open>\<not> t < v ! i\<close> show ?thesis by simp
    qed
    then have "filter (\<lambda>x. x \<le> t) (take (Suc i) v) = take (Suc i) v" by (simp add: filter_id_conv)
    then have "Suc i \<le> length (filter (\<lambda>x. x \<le> t) (take (Suc i) v))"
      using assms(2) by simp
    also have "\<dots> \<le> length (filter (\<lambda>x. x \<le> t) v)"
      by (metis append_take_drop_id filter_append le_add1 length_append)
    finally show False using few by simp
  qed
qed

lemma filter_length_mset: "mset xs = mset ys \<Longrightarrow> length (filter P xs) = length (filter P ys)"
  by (metis mset_filter size_mset)

section \<open>Samples by interval\<close>

definition write_latencies :: "block_io_latency_event list \<Rightarrow> u64 list" where
  "write_latencies es =
     map le_latency_ns
       (filter (\<lambda>e. le_op_class e = op_class_u8 Op_Write \<or> le_op_class e = op_class_u8 Op_WriteFlush)
         es)"

text \<open>
  The write and flush latencies between consecutive ticks, for each finished interval, and those
  since the last tick; \<open>acc\<close> holds the ones before the first event.
\<close>

fun split_ticks :: "u64 list \<Rightarrow> loader_event list \<Rightarrow> u64 list list \<times> u64 list" where
  "split_ticks acc [] = ([], acc)"
| "split_ticks acc (Ev_Tick _ # es) =
     (acc # fst (split_ticks [] es), snd (split_ticks [] es))"
| "split_ticks acc (Ev_Latency ls # es) = split_ticks (acc @ write_latencies ls) es"
| "split_ticks acc (_ # es) = split_ticks acc es"

fun ends_loop :: "loader_event \<Rightarrow> bool" where
  "ends_loop Ev_Ctrl_C = True"
| "ends_loop (Ev_Poll_Error _) = True"
| "ends_loop _ = False"

lemma after_on_latency: "after (on_latency cfg) samples es = samples @ write_latencies es"
  by (induction es arbitrary: samples) (auto simp: on_latency_def write_latencies_def)

lemma on_tick_counter:
  "fst (on_tick cfg now (counter_abs (la_fsync_fire_after (lc_args cfg)) bs) samples) =
     counter_abs (la_fsync_fire_after (lc_args cfg)) (bs @ [fsync_breached (lc_args cfg) samples])"
  by (simp add: on_tick_def Let_def observe_abs)

lemma loader_run_state:
  assumes "\<not> (\<exists>e\<in>set evs. ends_loop e)" and "ls_status st = Running"
    and "ls_counter st = counter_abs (la_fsync_fire_after (lc_args cfg)) bs"
  shows "ls_status (after (loader_step cfg) st evs) = Running
    \<and> ls_samples (after (loader_step cfg) st evs) = snd (split_ticks (ls_samples st) evs)
    \<and> ls_counter (after (loader_step cfg) st evs) =
        counter_abs (la_fsync_fire_after (lc_args cfg))
          (bs @ map (fsync_breached (lc_args cfg)) (fst (split_ticks (ls_samples st) evs)))"
  using assms
proof (induction evs arbitrary: st bs)
  case (Cons e evs)
  from Cons.prems have rest: "\<not> (\<exists>e\<in>set evs. ends_loop e)" by simp
  show ?case
  proof (cases e)
    case (Ev_Tick now)
    let ?bs = "bs @ [fsync_breached (lc_args cfg) (ls_samples st)]"
    have "ls_status (fst (loader_step cfg st e)) = Running"
      "ls_counter (fst (loader_step cfg st e)) = counter_abs (la_fsync_fire_after (lc_args cfg)) ?bs"
      "ls_samples (fst (loader_step cfg st e)) = []"
      using Ev_Tick Cons.prems by (simp_all add: loader_step_def Let_def on_tick_counter)
    then show ?thesis
      using Cons.IH [OF rest, of "fst (loader_step cfg st e)" ?bs] Ev_Tick by simp
  next
    case (Ev_Latency ls)
    then show ?thesis
      using Cons.IH [OF rest, of "fst (loader_step cfg st e)" bs] Cons.prems
      by (simp add: loader_step_def after_on_latency)
  qed (use Cons.IH [OF rest, of "fst (loader_step cfg st e)" bs] Cons.prems in
      \<open>simp_all add: loader_step_def\<close>)
qed simp

text \<open>The effects of a tick after any events that do not end the loop.\<close>

definition fsync_tick_effects :: "loader_cfg \<Rightarrow> datetime \<Rightarrow> loader_event list \<Rightarrow> loader_effect list" where
  "fsync_tick_effects cfg now evs =
     (let args = lc_args cfg;
         n = la_fsync_fire_after args;
         xs = snd (split_ticks [] evs);
         bs = map (fsync_breached args) (fst (split_ticks [] evs) @ [xs]);
         p = (case p50_ns xs of Some ns \<Rightarrow> ns | None \<Rightarrow> 0);
         f = fsync_build_finding now (la_pg_instance args) (lc_dev_label cfg) (p div 1000000)
               (la_fsync_threshold_ms args) (max 1 n) (la_interval_ms args)
     in Eff_Rule_Tick (length xs) (p div 1000) (p div 1000000) (fsync_breached args xs)
          (counter_answer n bs)
        # (if run_len bs = max 1 (unat n)
           then (if lc_log_emitter cfg then [Eff_Emit f] else []) @ [Eff_Fired (f_summary f)]
           else []))"

lemma fsync_tick_step:
  assumes "\<not> (\<exists>e\<in>set evs. ends_loop e)"
  shows "snd (loader_step cfg (after (loader_step cfg) loader_init evs) (Ev_Tick now)) =
    fsync_tick_effects cfg now evs"
proof -
  have init: "ls_status loader_init = Running" "ls_samples loader_init = []"
    "ls_counter loader_init = counter_abs (la_fsync_fire_after (lc_args cfg)) []"
    by (simp_all add: loader_init_def counter_abs_default)
  note st = loader_run_state [OF assms init(1) init(3)]
  then have "loader_step cfg (after (loader_step cfg) loader_init evs) (Ev_Tick now) =
      (let st = after (loader_step cfg) loader_init evs;
           r = on_tick cfg now (counter_abs (la_fsync_fire_after (lc_args cfg))
                 (map (fsync_breached (lc_args cfg)) (fst (split_ticks [] evs))))
                 (snd (split_ticks [] evs))
       in (st\<lparr>ls_samples := [], ls_counter := fst r\<rparr>, snd r))"
    by (simp add: loader_step_def init Let_def)
  then show ?thesis
    by (simp add: fsync_tick_effects_def on_tick_def observe_abs Let_def case_JustFired)
qed

section \<open>Spilled files\<close>

text \<open>The keys of the temp-file events whose path names \<open>pgsql_tmp\<close>.\<close>

definition spill_keys :: "(temp_file_event \<times> datetime) list \<Rightarrow> (u32 \<times> string) list" where
  "spill_keys es =
     filter (\<lambda>k. contains ''pgsql_tmp'' (snd k))
       (map (\<lambda>e. (fe_pid (fst e), path_from_event (fe_path (fst e)))) es)"

text \<open>The first occurrences of the keys not seen before.\<close>

fun fresh :: "'a set \<Rightarrow> 'a list \<Rightarrow> 'a list" where
  "fresh seen [] = []"
| "fresh seen (k # ks) = (if k \<in> seen then fresh seen ks else k # fresh (insert k seen) ks)"

lemma fresh_append: "fresh seen (ks @ ks') = fresh seen ks @ fresh (seen \<union> set ks) ks'"
  by (induction ks arbitrary: seen) (auto simp: insert_absorb)

lemma set_fresh: "set (fresh seen ks) = set ks - seen"
  by (induction ks arbitrary: seen) auto

lemma distinct_fresh: "distinct (fresh seen ks)"
  by (induction ks arbitrary: seen) (auto simp: set_fresh)

fun spill_reported :: "loader_effect \<Rightarrow> (u32 \<times> string) list" where
  "spill_reported (Eff_Spill _ pid _ path) = [(pid, path)]"
| "spill_reported _ = []"

definition spills_reported :: "loader_effect list \<Rightarrow> (u32 \<times> string) list" where
  "spills_reported effs = concat (map spill_reported effs)"

lemma spills_reported_simps [simp]:
  "spills_reported [] = []"
  "spills_reported (x # xs) = spill_reported x @ spills_reported xs"
  "spills_reported (xs @ ys) = spills_reported xs @ spills_reported ys"
  by (simp_all add: spills_reported_def)

lemma on_temp_seen: "after (on_temp cfg) seen es = seen \<union> set (spill_keys es)"
  by (induction es arbitrary: seen) (auto simp: on_temp_def spill_keys_def Let_def)

lemma on_temp_reports:
  "spills_reported (concat (tick_outs (on_temp cfg) seen es)) = fresh seen (spill_keys es)"
  by (induction es arbitrary: seen) (auto simp: on_temp_def spill_keys_def Let_def)

lemma other_reports:
  "spills_reported (map on_trace ts) = []" "spills_reported (map on_block bs) = []"
  "spills_reported (concat (tick_outs (on_latency cfg) samples ls)) = []"
  "spills_reported (snd (on_tick cfg now c samples)) = []"
  "spills_reported (loader_shutdown cfg) = []"
proof -
  show "spills_reported (map on_trace ts) = []" by (induction ts) (simp_all add: on_trace_def)
  show "spills_reported (map on_block bs) = []" by (induction bs) (simp_all add: on_block_def)
  show "spills_reported (concat (tick_outs (on_latency cfg) samples ls)) = []"
    by (induction ls arbitrary: samples) (simp_all add: on_latency_def)
  show "spills_reported (snd (on_tick cfg now c samples)) = []"
    by (simp add: on_tick_def Let_def split: breach_state.split)
  show "spills_reported (loader_shutdown cfg) = []" by (simp add: loader_shutdown_def)
qed

fun temp_events :: "loader_event list \<Rightarrow> (temp_file_event \<times> datetime) list" where
  "temp_events [] = []"
| "temp_events (Ev_Temp ts # es) = ts @ temp_events es"
| "temp_events (_ # es) = temp_events es"

lemma spill_keys_append: "spill_keys (es @ es') = spill_keys es @ spill_keys es'"
  by (simp add: spill_keys_def)

lemma loader_spills:
  assumes "\<not> (\<exists>e\<in>set evs. ends_loop e)" and "ls_status st = Running"
  shows "spills_reported (concat (tick_outs (loader_step cfg) st evs)) =
    fresh (ls_seen_spills st) (spill_keys (temp_events evs))"
  using assms
proof (induction evs arbitrary: st)
  case Nil
  then show ?case by (simp add: spill_keys_def)
next
  case (Cons e evs)
  then show ?case
    by (cases e)
      (simp_all add: loader_step_def Let_def other_reports on_temp_reports on_temp_seen
        spill_keys_append fresh_append)
qed

section \<open>Paths\<close>

lemma char_of_u8_nul: "CHR 0x00 = char_of_u8 b \<longleftrightarrow> b = 0"
proof -
  have "code (CHR 0x00) = 0" by (simp add: code_def)
  then have "CHR 0x00 = char_of_u8 b \<longleftrightarrow> unat b = 0"
    by (metis code_char_of_u8 code_inject)
  then show ?thesis by (simp add: unat_eq_0)
qed

lemma path_no_nul: "CHR 0x00 \<notin> set (path_from_event buf)"
proof -
  have "CHR 0x00 \<notin> set (string_of_bytes (takeWhile (\<lambda>b. b \<noteq> 0) buf))"
    by (auto simp: string_of_bytes_def char_of_u8_nul dest: set_takeWhileD)
  then show ?thesis
    using from_utf8_lossy_set [of "string_of_bytes (takeWhile (\<lambda>b. b \<noteq> 0) buf)"]
    by (auto simp: path_from_event_def replacement_def)
qed

lemma path_valid: "valid_utf8 (path_from_event buf)"
  by (simp add: path_from_event_def valid_from_utf8_lossy)

section \<open>Reachable states\<close>

text \<open>The states the loop can be in, whichever arms \<open>select!\<close> picks and in whatever order.\<close>

inductive loader_reach :: "loader_cfg \<Rightarrow> loader_state \<Rightarrow> bool" for cfg where
  reach_init: "loader_reach cfg loader_init"
| reach_step: "loader_reach cfg st \<Longrightarrow> loader_step cfg st ev = (st', effs) \<Longrightarrow> loader_reach cfg st'"

definition spills_ok :: "(u32 \<times> string) set \<Rightarrow> bool" where
  "spills_ok seen \<longleftrightarrow>
     (\<forall>k\<in>seen. contains ''pgsql_tmp'' (snd k) \<and> CHR 0x00 \<notin> set (snd k) \<and> valid_utf8 (snd k))"

lemma spill_keys_ok: "spills_ok (set (spill_keys es))"
  by (auto simp: spills_ok_def spill_keys_def path_no_nul path_valid)

lemma spills_ok_Un: "spills_ok (A \<union> B) \<longleftrightarrow> spills_ok A \<and> spills_ok B"
  by (auto simp: spills_ok_def)

text \<open>The counter of a reachable state is one that a history of observations can leave.\<close>

definition counter_ok :: "u32 \<Rightarrow> breach_counter \<Rightarrow> bool" where
  "counter_ok n c \<longleftrightarrow> (bc_fired_this_run c \<longleftrightarrow> 0 < unat (bc_streak c) \<and> n \<le> bc_streak c)"

lemma observe_counter_ok: "counter_ok n (fst (observe n c b))" if "counter_ok n c"
proof -
  have "0 < unat (sat_add (bc_streak c) 1)" by (simp add: unat_simps)
  moreover have "bc_streak c \<le> sat_add (bc_streak c) 1"
    using unat_u32_less [of "bc_streak c"]
    by (simp add: word_le_nat_alt unat_simps del: unat_u32_less)
  ultimately show ?thesis
    using that by (auto simp: observe_def counter_ok_def Let_def not_less not_le)
qed

lemma reach_invariant:
  "loader_reach cfg st \<Longrightarrow>
     spills_ok (ls_seen_spills st) \<and> counter_ok (la_fsync_fire_after (lc_args cfg)) (ls_counter st)"
proof (induction rule: loader_reach.induct)
  case reach_init
  show ?case
    by (simp add: loader_init_def spills_ok_def counter_ok_def breach_counter_default_def)
next
  case (reach_step st ev st' effs)
  then have "st' = fst (loader_step cfg st ev)" by simp
  with reach_step.IH show ?case
    by (auto simp: loader_step_def Let_def on_temp_seen spills_ok_Un spill_keys_ok on_tick_def
        observe_counter_ok split: loader_event.split)
qed

section \<open>Properties\<close>

text \<open>
  C28. The median rule: an interval counts as slow exactly when it has samples and at least half of
  them (rounded up) took longer than the threshold, \<open>threshold_ms * 1000000\<close> nanoseconds capped at
  \<open>u64::MAX\<close>; the order in which the samples arrived does not matter.
\<close>

theorem fsync_breach_is_majority:
  "fsync_breached args xs \<longleftrightarrow>
     xs \<noteq> [] \<and>
     (length xs + 1) div 2 \<le>
       length (filter (\<lambda>x. min (2 ^ 64 - 1) (unat (la_fsync_threshold_ms args) * 1000000) < unat x) xs)"
proof (cases "xs = []")
  case True
  then show ?thesis by (simp add: fsync_breached_def p50_ns_def)
next
  case False
  let ?t = "sat_mul (la_fsync_threshold_ms args) 1000000"
  have t: "?t < x \<longleftrightarrow>
      min (2 ^ 64 - 1) (unat (la_fsync_threshold_ms args) * 1000000) < unat x" for x
    by (simp add: word_less_nat_alt unat_simps)
  have len: "length xs div 2 < length (sort xs)" using False by simp
  have "fsync_breached args xs \<longleftrightarrow> ?t < sort xs ! (length xs div 2)"
    using False by (simp add: fsync_breached_def p50_ns_def)
  also have "\<dots> \<longleftrightarrow> length (filter (\<lambda>x. x \<le> ?t) (sort xs)) \<le> length xs div 2"
    using len by (intro sorted_nth_greater) simp_all
  also have "length (filter (\<lambda>x. x \<le> ?t) (sort xs)) = length (filter (\<lambda>x. x \<le> ?t) xs)"
    by (rule filter_length_mset) simp
  also have "\<dots> = length xs - length (filter (\<lambda>x. ?t < x) xs)"
    using sum_length_filter_compl [of "\<lambda>x. x \<le> ?t" xs] by (simp add: not_le)
  also have "length xs - length (filter (\<lambda>x. ?t < x) xs) \<le> length xs div 2 \<longleftrightarrow>
      (length xs + 1) div 2 \<le> length (filter (\<lambda>x. ?t < x) xs)"
    by linarith
  finally show ?thesis using False by (simp add: t)
qed

text \<open>
  C3. The fsync-jitter rule as a whole: after any events, the next tick evaluates exactly the write
  and flush latencies received since the previous tick, and reports a finding exactly when that
  interval ends a run of \<open>max 1 fire_after\<close> slow intervals; an interval without samples is not slow
  and breaks the run. The finding carries the median of the last interval and the run length.
\<close>

theorem fsync_rule_refines:
  assumes "\<not> (\<exists>e\<in>set evs. ends_loop e)"
  shows "snd (loader_step cfg (after (loader_step cfg) loader_init evs) (Ev_Tick now)) =
    (let args = lc_args cfg;
         n = la_fsync_fire_after args;
         xs = snd (split_ticks [] evs);
         bs = map (fsync_breached args) (fst (split_ticks [] evs) @ [xs]);
         p = (case p50_ns xs of Some ns \<Rightarrow> ns | None \<Rightarrow> 0);
         f = fsync_build_finding now (la_pg_instance args) (lc_dev_label cfg) (p div 1000000)
               (la_fsync_threshold_ms args) (max 1 n) (la_interval_ms args)
     in Eff_Rule_Tick (length xs) (p div 1000) (p div 1000000) (fsync_breached args xs)
          (counter_answer n bs)
        # (if run_len bs = max 1 (unat n)
           then (if lc_log_emitter cfg then [Eff_Emit f] else []) @ [Eff_Fired (f_summary f)]
           else []))"
  using fsync_tick_step [OF assms] by (simp only: fsync_tick_effects_def)

definition example_args :: loader_args where
  "example_args =
     \<lparr>la_bpf_object = ''/build/pgsleuth-ebpf'', la_name = [], la_pid = None, la_cgroup_id = None,
      la_pg_conn = ''postgres://localhost'', la_dev_t = None, la_otlp_endpoint = ''http://localhost:4317'', la_pg_instance = ''pg'',
      la_fsync_threshold_ms = 10, la_fsync_fire_after = 1, la_interval_ms = 1000\<rparr>"

definition example_loader :: loader_cfg where
  "example_loader = loader_setup example_args None (\<lambda>_. True) (\<lambda>_. False)"

lemma dec_0: "dec 0 = ''0''"
  by code_simp

definition slow_write :: "u64 \<Rightarrow> block_io_latency_event" where
  "slow_write ns =
     \<lparr>le_dev = 1, le_op_class = 2, le_pad = [0, 0, 0], le_bytes = 8192, le_latency_ns = ns\<rparr>"

theorem fsync_rule_refines_witness:
  "let evs = [Ev_Latency [slow_write 12000000, slow_write 5, slow_write 30000000]];
       f = fsync_build_finding \<lparr>dt_timestamp = 7, dt_subsec_nanos = 0\<rparr> ''pg'' ''dev_t=0'' 12 10 1 1000
   in snd (loader_step example_loader (after (loader_step example_loader) loader_init evs)
        (Ev_Tick \<lparr>dt_timestamp = 7, dt_subsec_nanos = 0\<rparr>)) =
      [Eff_Rule_Tick 3 12000 12 True (JustFired 1), Eff_Emit f, Eff_Fired (f_summary f)]"
  unfolding Let_def
  by (subst fsync_rule_refines)
    (simp_all add: example_loader_def loader_setup_def example_args_def slow_write_def
      write_latencies_def fsync_breached_def p50_ns_def effective_dev_t_def counter_answer_def
      run_len_def sat_mul_def u32_cap_def dec_0 Let_def)

text \<open>
  Temp-file attribution reports each file once: over any events, the spills reported are exactly
  the first events of every pair of process and path whose path names \<open>pgsql_tmp\<close>, in order; no pair
  is reported twice and none is missed.
\<close>

lemma spills_reported_once:
  assumes "\<not> (\<exists>e\<in>set evs. ends_loop e)"
  shows "spills_reported (concat (tick_outs (loader_step cfg) loader_init evs)) =
      fresh {} (spill_keys (temp_events evs))
    \<and> distinct (fresh {} (spill_keys (temp_events evs)))
    \<and> set (fresh {} (spill_keys (temp_events evs))) = set (spill_keys (temp_events evs))"
  using loader_spills [OF assms, of loader_init cfg]
  by (simp add: loader_init_def distinct_fresh set_fresh)

definition tmp_event :: temp_file_event where
  "tmp_event =
     \<lparr>fe_pid = 9, fe_syscall = 0, fe_pad = [0, 0, 0], fe_bytes = 0, fe_query_hash = 0,
      fe_comm = replicate 16 0,
      fe_path = [0x70, 0x67, 0x73, 0x71, 0x6C, 0x5F, 0x74, 0x6D, 0x70] @ replicate 119 0\<rparr>"

lemma spills_reported_once_witness:
  "distinct (fresh {} (spill_keys (temp_events
     [Ev_Temp [(tmp_event, \<lparr>dt_timestamp = 7, dt_subsec_nanos = 0\<rparr>)],
      Ev_Tick \<lparr>dt_timestamp = 8, dt_subsec_nanos = 0\<rparr>,
      Ev_Temp [(tmp_event, \<lparr>dt_timestamp = 9, dt_subsec_nanos = 0\<rparr>)]])))"
  by (rule conjunct1 [OF conjunct2 [OF spills_reported_once [where cfg = example_loader]]]) simp

text \<open>
  C37. Invariant of the event loop: in every reachable state, whichever arms of the \<open>select!\<close> ran, the
  remembered spills are paths that name \<open>pgsql_tmp\<close>, contain no NUL and are valid UTF-8, and the
  breach counter has fired in this run exactly when its streak is positive and has reached
  \<open>fire_after\<close>.
\<close>

theorem loader_reachable_invariant:
  assumes "loader_reach cfg st"
  shows "(\<forall>k\<in>ls_seen_spills st.
      contains ''pgsql_tmp'' (snd k) \<and> CHR 0x00 \<notin> set (snd k) \<and> valid_utf8 (snd k))
    \<and> (bc_fired_this_run (ls_counter st) \<longleftrightarrow>
        0 < unat (bc_streak (ls_counter st))
        \<and> la_fsync_fire_after (lc_args cfg) \<le> bc_streak (ls_counter st))"
  using reach_invariant [OF assms] by (simp add: spills_ok_def counter_ok_def)

theorem loader_reachable_invariant_witness:
  "\<exists>st :: loader_state. ls_seen_spills st = {}
    \<and> (bc_fired_this_run (ls_counter st) \<longleftrightarrow>
        0 < unat (bc_streak (ls_counter st))
        \<and> la_fsync_fire_after (lc_args example_loader) \<le> bc_streak (ls_counter st))"
proof (rule exI [of _ loader_init], rule conjI)
  show "ls_seen_spills loader_init = {}" by (simp add: loader_init_def)
  show "bc_fired_this_run (ls_counter loader_init) \<longleftrightarrow>
      0 < unat (bc_streak (ls_counter loader_init))
      \<and> la_fsync_fire_after (lc_args example_loader) \<le> bc_streak (ls_counter loader_init)"
    by (rule conjunct2 [OF loader_reachable_invariant [OF reach_init]])
qed

text \<open>
  Which process the kernel programs are told to filter on: \<open>--pid\<close> wins; with only \<open>--cgroup-id\<close>
  there is no process filter; otherwise it is the postmaster's id when the discovery found a
  non-negative one; 0, which is no filter, in every other case. The configured name is truncated
  to 15 bytes and always ends in a NUL, and the array has its 16 bytes.
\<close>

lemma loader_filter_config_exact:
  "fc_pid (loader_filter_config args disc) =
     (case la_pid args of
        Some p \<Rightarrow> p
      | None \<Rightarrow>
          if la_cgroup_id args \<noteq> None then 0
          else case disc of
              None \<Rightarrow> 0
            | Some d \<Rightarrow> if 0 \<le> sint (pd_postmaster_pid d) then pd_postmaster_pid d else 0)
   \<and> length (fc_name (loader_filter_config args disc)) = 16
   \<and> fc_name (loader_filter_config args disc) ! 15 = 0
   \<and> take (min (length (la_name args)) 15) (fc_name (loader_filter_config args disc)) =
       take 15 (bytes_of_string (la_name args))"
proof -
  have "length (bytes_of_string (la_name args)) = length (la_name args)"
    by (simp add: bytes_of_string_def)
  then show ?thesis
    by (auto simp: loader_filter_config_def resolve_pid_filter_def u32_try_of_i32_def
        name_field_def Let_def nth_append min_def split: option.splits)
qed

end
