(* ===== verification/Pg_Ext.thy ===== *)
theory Pg_Ext
  imports Loader
begin

text \<open>
  \<open>crates/pgsleuth-pg-ext/src/lib.rs\<close>: the two SQL functions the extension gives the loader. The
  data directory (a C string), \<open>stat\<close>, the split of a \<open>dev_t\<close> by \<open>libc\<close> and the server's
  postmaster id are parameters.
\<close>

text \<open>The major and minor number of the device, as text; None is the panic of a failed \<open>stat\<close>.\<close>

definition pgsleuth_wal_device ::
  "(u64 \<Rightarrow> u32) \<Rightarrow> (u64 \<Rightarrow> u32) \<Rightarrow> (string \<Rightarrow> u64 option) \<Rightarrow> string \<Rightarrow> string option" where
  "pgsleuth_wal_device libc_major libc_minor stat_dev data_dir_bytes =
     (let data_dir = from_utf8_lossy data_dir_bytes;
          wal_path = data_dir @ ''/pg_wal''
      in case stat_dev wal_path of
           None \<Rightarrow> None
         | Some dev \<Rightarrow>
             Some (dec (unat (libc_major dev)) @ CHR '':'' # dec (unat (libc_minor dev))))"

definition pgsleuth_postmaster_pid :: "i32 \<Rightarrow> i32" where
  "pgsleuth_postmaster_pid postmaster_pid = postmaster_pid"

text \<open>The row the loader's query gets back when both functions return.\<close>

definition extension_row ::
  "(u64 \<Rightarrow> u32) \<Rightarrow> (u64 \<Rightarrow> u32) \<Rightarrow> (string \<Rightarrow> u64 option) \<Rightarrow> string \<Rightarrow> i32 \<Rightarrow> (string \<times> i32) option" where
  "extension_row libc_major libc_minor stat_dev data_dir postmaster =
     map_option (\<lambda>d. (d, pgsleuth_postmaster_pid postmaster))
       (pgsleuth_wal_device libc_major libc_minor stat_dev data_dir)"

section \<open>What the loader makes of it\<close>

lemma colon_not_digit: "CHR '':'' \<notin> set (dec n)"
  using dec_digits [of "CHR '':''" n] by (auto simp: is_digit_def code_def)

lemma unat_push_bit_20:
  assumes "unat (a :: u32) < 2 ^ 12"
  shows "unat (push_bit 20 a) = unat a * 2 ^ 20"
  using assms by (simp add: push_bit_eq_mult unat_word_ariths)

lemma or_disjoint_nat: "(m :: nat) < 2 ^ n \<Longrightarrow> or (push_bit n k) m = k * 2 ^ n + m"
proof (induction n arbitrary: m)
  case (Suc n)
  have "m div 2 < 2 ^ n" using Suc.prems by (simp add: less_mult_imp_div_less mult.commute)
  then have "or (push_bit n k) (m div 2) = k * 2 ^ n + m div 2" by (rule Suc.IH)
  moreover have "or (push_bit (Suc n) k) m =
      of_bool (odd m) + 2 * or (push_bit n k) (m div 2)"
    by (subst or_nat_rec) (simp add: push_bit_eq_mult)
  ultimately show ?case by (simp add: of_bool_def)
qed simp

lemma kernel_dev_t_value:
  assumes "maj < 2 ^ 12" and "mnr < 2 ^ 20"
  shows "unat (or (push_bit 20 (of_nat maj)) (of_nat mnr) :: u32) = maj * 2 ^ 20 + mnr"
proof -
  have small: "unat (of_nat maj :: u32) = maj" "unat (of_nat mnr :: u32) = mnr"
    using assms by (simp_all add: unsigned_of_nat take_bit_nat_eq_self)
  have "unat (or (push_bit 20 (of_nat maj)) (of_nat mnr) :: u32) =
      or (unat (push_bit 20 (of_nat maj) :: u32)) mnr"
    by (simp add: unsigned_or_eq small)
  also have "\<dots> = or (push_bit 20 maj) mnr"
    using assms by (simp add: unat_push_bit_20 small push_bit_eq_mult [of 20 maj])
  also have "\<dots> = maj * 2 ^ 20 + mnr" using assms(2) by (rule or_disjoint_nat)
  finally show ?thesis .
qed

text \<open>What the loader parses out of the text of two 32-bit numbers.\<close>

lemma parse_kernel_dev_t_dec:
  assumes "maj < 2 ^ 32" and "mnr < 2 ^ 32"
  shows "parse_kernel_dev_t (dec maj @ CHR '':'' # dec mnr) =
    (if maj < 2 ^ 12 \<and> mnr < 2 ^ 20
     then Some (or (push_bit 20 (of_nat maj)) (of_nat mnr)) else None)"
proof -
  have "(push_bit 12 1 :: u32) \<le> of_nat maj \<longleftrightarrow> 2 ^ 12 \<le> maj"
    "(push_bit 20 1 :: u32) \<le> of_nat mnr \<longleftrightarrow> 2 ^ 20 \<le> mnr"
    using assms by (simp_all add: word_le_nat_alt unsigned_of_nat take_bit_nat_eq_self)
  then show ?thesis
    using assms
    by (simp add: parse_kernel_dev_t_def split_once_found [OF colon_not_digit] parse_uint_dec
        Let_def not_le)
qed

section \<open>Properties\<close>

text \<open>
  C12. The extension and the loader agree on the device: for every \<open>dev_t\<close> the extension reports, the
  loader parses its text into the kernel encoding \<open>major * 2^20 + minor\<close> when both numbers fit the
  kernel's fields (12 and 20 bits), and disables the filter otherwise; the two numbers can be
  read back from the encoding, so different devices are never confused.
\<close>

theorem wal_device_roundtrip:
  assumes "pgsleuth_wal_device libc_major libc_minor stat_dev data_dir = Some device"
    and "stat_dev (from_utf8_lossy data_dir @ ''/pg_wal'') = Some dev"
  shows "case parse_kernel_dev_t device of
      Some d \<Rightarrow> unat (libc_major dev) < 2 ^ 12 \<and> unat (libc_minor dev) < 2 ^ 20
        \<and> unat d = unat (libc_major dev) * 2 ^ 20 + unat (libc_minor dev)
        \<and> unat d div 2 ^ 20 = unat (libc_major dev) \<and> unat d mod 2 ^ 20 = unat (libc_minor dev)
    | None \<Rightarrow> 2 ^ 12 \<le> unat (libc_major dev) \<or> 2 ^ 20 \<le> unat (libc_minor dev)"
proof -
  have "device = dec (unat (libc_major dev)) @ CHR '':'' # dec (unat (libc_minor dev))"
    using assms by (simp add: pgsleuth_wal_device_def Let_def)
  then have "parse_kernel_dev_t device =
      (if unat (libc_major dev) < 2 ^ 12 \<and> unat (libc_minor dev) < 2 ^ 20
       then Some (or (push_bit 20 (of_nat (unat (libc_major dev)))) (of_nat (unat (libc_minor dev))))
       else None)"
    using parse_kernel_dev_t_dec [of "unat (libc_major dev)" "unat (libc_minor dev)"] by simp
  then show ?thesis
    using kernel_dev_t_value [of "unat (libc_major dev)" "unat (libc_minor dev)"] by auto
qed

theorem wal_device_roundtrip_witness:
  "case parse_kernel_dev_t (dec 254 @ CHR '':'' # dec 1) of
     Some d \<Rightarrow> unat d = 254 * 2 ^ 20 + 1
   | None \<Rightarrow> False"
proof -
  have device: "pgsleuth_wal_device (\<lambda>_. 254) (\<lambda>_. 1) (\<lambda>_. Some 65025) ''/var/lib/pg'' =
      Some (dec 254 @ CHR '':'' # dec 1)"
    by (simp add: pgsleuth_wal_device_def Let_def)
  show ?thesis
    using wal_device_roundtrip [OF device, of 65025] by (simp split: option.splits)
qed

text \<open>
  The parser of the device text accepts only what fits: whatever the text, a result is a device
  whose major and minor numbers, read from the text around the first colon, are below \<open>2^12\<close> and
  \<open>2^20\<close>, and is their kernel encoding.
\<close>

lemma parse_kernel_dev_t_sound:
  assumes "parse_kernel_dev_t s = Some d"
  shows "\<exists>l r maj mnr. s = l @ CHR '':'' # r \<and> CHR '':'' \<notin> set l
    \<and> parse_uint (2 ^ 32) (trim l) = Some maj \<and> parse_uint (2 ^ 32) (trim r) = Some mnr
    \<and> maj < 2 ^ 12 \<and> mnr < 2 ^ 20 \<and> unat d = maj * 2 ^ 20 + mnr"
proof -
  obtain l r where lr: "split_once CHR '':'' s = Some (l, r)"
    using assms by (auto simp: parse_kernel_dev_t_def split: option.splits)
  then obtain maj mnr where nums: "parse_uint (2 ^ 32) (trim l) = Some maj"
      "parse_uint (2 ^ 32) (trim r) = Some mnr"
    using assms by (auto simp: parse_kernel_dev_t_def split: option.splits)
  then have "maj < 2 ^ 32" "mnr < 2 ^ 32" by (auto dest: parse_uint_bound)
  then have "(push_bit 12 1 :: u32) \<le> of_nat maj \<longleftrightarrow> 2 ^ 12 \<le> maj"
    "(push_bit 20 1 :: u32) \<le> of_nat mnr \<longleftrightarrow> 2 ^ 20 \<le> mnr"
    by (simp_all add: word_le_nat_alt unsigned_of_nat take_bit_nat_eq_self)
  with assms lr nums have "maj < 2 ^ 12 \<and> mnr < 2 ^ 20
      \<and> d = or (push_bit 20 (of_nat maj)) (of_nat mnr)"
    by (auto simp: parse_kernel_dev_t_def Let_def split: if_splits)
  then show ?thesis
    using split_once_Some [OF lr] nums kernel_dev_t_value by blast
qed

end
