(* ===== verification/Wire.thy ===== *)
theory Wire
  imports Ebpf_Common
begin

text \<open>
  The bytes of the records of \<open>crates/pgsleuth-ebpf-common/src/lib.rs\<close>, which are all \<open>repr(C)\<close>: the
  kernel program writes a record into a ring buffer, and the loader reads it through a pointer cast.
  Fields lie in the order of their declaration, each at the next multiple of its alignment, integers
  in little-endian order (the targets are x86-64 and aarch64, and \<open>bpfel\<close>). The bytes between two
  fields are whatever the memory held, the parameter \<open>junk\<close>.
\<close>

section \<open>Integers\<close>

fun little_endian :: "nat \<Rightarrow> nat \<Rightarrow> u8 list" where
  "little_endian 0 x = []"
| "little_endian (Suc n) x = of_nat (x mod 256) # little_endian n (x div 256)"

fun of_little_endian :: "u8 list \<Rightarrow> nat" where
  "of_little_endian [] = 0"
| "of_little_endian (b # bs) = unat b + 256 * of_little_endian bs"

definition u32_bytes :: "u32 \<Rightarrow> u8 list" where
  "u32_bytes w = little_endian 4 (unat w)"

definition u64_bytes :: "u64 \<Rightarrow> u8 list" where
  "u64_bytes w = little_endian 8 (unat w)"

definition slice :: "nat \<Rightarrow> nat \<Rightarrow> 'a list \<Rightarrow> 'a list" where
  "slice off n bs = take n (drop off bs)"

definition u32_at :: "nat \<Rightarrow> u8 list \<Rightarrow> u32" where
  "u32_at off bs = of_nat (of_little_endian (slice off 4 bs))"

definition u64_at :: "nat \<Rightarrow> u8 list \<Rightarrow> u64" where
  "u64_at off bs = of_nat (of_little_endian (slice off 8 bs))"

lemma length_little_endian [simp]: "length (little_endian n x) = n"
  by (induction n arbitrary: x) simp_all

lemma of_little_endian_of: "of_little_endian (little_endian n x) = x mod 256 ^ n"
proof (induction n arbitrary: x)
  case (Suc n)
  have "unat (of_nat (x mod 256) :: u8) = x mod 256"
    by (simp add: unsigned_of_nat take_bit_eq_mod)
  with Suc show ?case by (simp add: mod_mult2_eq)
qed simp

lemma length_u32_bytes [simp]: "length (u32_bytes w) = 4"
  by (simp add: u32_bytes_def)

lemma length_u64_bytes [simp]: "length (u64_bytes w) = 8"
  by (simp add: u64_bytes_def)

lemma of_u32_bytes [simp]: "of_nat (of_little_endian (u32_bytes w)) = w"
proof -
  have "unat w < 256 ^ 4" by simp
  then show ?thesis by (simp only: u32_bytes_def of_little_endian_of mod_less) simp
qed

lemma of_u64_bytes [simp]: "of_nat (of_little_endian (u64_bytes w)) = w"
proof -
  have "unat w < 256 ^ 8" by simp
  then show ?thesis by (simp only: u64_bytes_def of_little_endian_of mod_less) simp
qed

section \<open>Structs\<close>

type_synonym c_field = "nat \<times> u8 list"
  \<comment> \<open>alignment and bytes\<close>

definition pad_to :: "nat \<Rightarrow> nat \<Rightarrow> nat" where
  "pad_to a off = (if off mod a = 0 then 0 else a - off mod a)"

definition junk_at :: "(nat \<Rightarrow> u8) \<Rightarrow> nat \<Rightarrow> nat \<Rightarrow> u8 list" where
  "junk_at junk off n = map junk [off..<off + n]"

fun c_fields :: "(nat \<Rightarrow> u8) \<Rightarrow> nat \<Rightarrow> c_field list \<Rightarrow> u8 list" where
  "c_fields junk off [] = []"
| "c_fields junk off ((a, bs) # fs) =
     (let p = pad_to a off in junk_at junk off p @ bs @ c_fields junk (off + p + length bs) fs)"

definition c_struct :: "(nat \<Rightarrow> u8) \<Rightarrow> c_field list \<Rightarrow> u8 list" where
  "c_struct junk fs =
     (let bs = c_fields junk 0 fs; a = foldr max (map fst fs) 1
      in bs @ junk_at junk (length bs) (pad_to a (length bs)))"

lemma length_junk_at [simp]: "length (junk_at junk off n) = n"
  by (simp add: junk_at_def)

lemma junk_at_0 [simp]: "junk_at junk off 0 = []"
  by (simp add: junk_at_def)

section \<open>The records\<close>

definition filter_config_bytes :: "(nat \<Rightarrow> u8) \<Rightarrow> filter_config \<Rightarrow> u8 list" where
  "filter_config_bytes junk c = c_struct junk
     [(4, u32_bytes (fc_pid c)), (8, u64_bytes (fc_cgroup_id c)), (1, fc_name c),
      (4, u32_bytes (fc_dev_t c))]"

definition trace_event_bytes :: "(nat \<Rightarrow> u8) \<Rightarrow> trace_event \<Rightarrow> u8 list" where
  "trace_event_bytes junk e = c_struct junk
     [(4, u32_bytes (te_pid e)), (4, u32_bytes (te_port e)), (1, te_comm e)]"

definition block_event_bytes :: "(nat \<Rightarrow> u8) \<Rightarrow> block_event \<Rightarrow> u8 list" where
  "block_event_bytes junk e = c_struct junk
     [(4, u32_bytes (be_dev e)), (4, u32_bytes (be_pid e)), (4, u32_bytes (be_bytes e)),
      (1, be_comm e)]"

definition rq_key_bytes :: "(nat \<Rightarrow> u8) \<Rightarrow> rq_key \<Rightarrow> u8 list" where
  "rq_key_bytes junk k = c_struct junk
     [(4, u32_bytes (rk_dev k)), (4, u32_bytes (rk_pad k)), (8, u64_bytes (rk_sector k))]"

definition latency_event_bytes :: "(nat \<Rightarrow> u8) \<Rightarrow> block_io_latency_event \<Rightarrow> u8 list" where
  "latency_event_bytes junk e = c_struct junk
     [(4, u32_bytes (le_dev e)), (1, [le_op_class e]), (1, le_pad e), (4, u32_bytes (le_bytes e)),
      (8, u64_bytes (le_latency_ns e))]"

definition temp_file_event_bytes :: "(nat \<Rightarrow> u8) \<Rightarrow> temp_file_event \<Rightarrow> u8 list" where
  "temp_file_event_bytes junk e = c_struct junk
     [(4, u32_bytes (fe_pid e)), (1, [fe_syscall e]), (1, fe_pad e), (8, u64_bytes (fe_bytes e)),
      (8, u64_bytes (fe_query_hash e)), (1, fe_comm e), (1, fe_path e)]"

text \<open>What the loader reads at the fields of a record behind a pointer to its bytes.\<close>

definition trace_event_at :: "u8 list \<Rightarrow> trace_event" where
  "trace_event_at bs = \<lparr>te_pid = u32_at 0 bs, te_port = u32_at 4 bs, te_comm = slice 8 16 bs\<rparr>"

definition block_event_at :: "u8 list \<Rightarrow> block_event" where
  "block_event_at bs =
     \<lparr>be_dev = u32_at 0 bs, be_pid = u32_at 4 bs, be_bytes = u32_at 8 bs, be_comm = slice 12 16 bs\<rparr>"

definition latency_event_at :: "u8 list \<Rightarrow> block_io_latency_event" where
  "latency_event_at bs =
     \<lparr>le_dev = u32_at 0 bs, le_op_class = bs ! 4, le_pad = slice 5 3 bs, le_bytes = u32_at 8 bs,
      le_latency_ns = u64_at 16 bs\<rparr>"

definition temp_file_event_at :: "u8 list \<Rightarrow> temp_file_event" where
  "temp_file_event_at bs =
     \<lparr>fe_pid = u32_at 0 bs, fe_syscall = bs ! 4, fe_pad = slice 5 3 bs, fe_bytes = u64_at 8 bs,
      fe_query_hash = u64_at 16 bs, fe_comm = slice 24 16 bs,
      fe_path = slice 40 FILE_EVENT_PATH_LEN bs\<rparr>"

definition filter_config_at :: "u8 list \<Rightarrow> filter_config" where
  "filter_config_at bs =
     \<lparr>fc_pid = u32_at 0 bs, fc_cgroup_id = u64_at 8 bs, fc_name = slice 16 16 bs,
      fc_dev_t = u32_at 32 bs\<rparr>"

section \<open>Facts\<close>

lemmas struct_simps = c_struct_def pad_to_def Let_def

lemmas field_simps = u32_at_def u64_at_def slice_def nth_append

lemma take_skip [simp]: "length xs = m \<Longrightarrow> take n (drop m (xs @ ys)) = take n ys"
  by simp

text \<open>The arrays of a record have the length of their type.\<close>

definition trace_event_ok :: "trace_event \<Rightarrow> bool" where
  "trace_event_ok e \<longleftrightarrow> length (te_comm e) = 16"

definition block_event_ok :: "block_event \<Rightarrow> bool" where
  "block_event_ok e \<longleftrightarrow> length (be_comm e) = 16"

definition latency_event_ok :: "block_io_latency_event \<Rightarrow> bool" where
  "latency_event_ok e \<longleftrightarrow> length (le_pad e) = 3"

definition temp_file_event_ok :: "temp_file_event \<Rightarrow> bool" where
  "temp_file_event_ok e \<longleftrightarrow>
     length (fe_pad e) = 3 \<and> length (fe_comm e) = 16 \<and> length (fe_path e) = FILE_EVENT_PATH_LEN"

definition filter_config_ok :: "filter_config \<Rightarrow> bool" where
  "filter_config_ok c \<longleftrightarrow> length (fc_name c) = 16"

lemma trace_event_wire:
  "trace_event_ok e \<Longrightarrow> trace_event_at (trace_event_bytes junk e) = e"
  by (simp add: trace_event_at_def trace_event_bytes_def trace_event_ok_def struct_simps field_simps)

lemma block_event_wire:
  "block_event_ok e \<Longrightarrow> block_event_at (block_event_bytes junk e) = e"
  by (simp add: block_event_at_def block_event_bytes_def block_event_ok_def struct_simps field_simps)

lemma latency_event_wire:
  "latency_event_ok e \<Longrightarrow> latency_event_at (latency_event_bytes junk e) = e"
  by (simp add: latency_event_at_def latency_event_bytes_def latency_event_ok_def struct_simps
      field_simps)

lemma temp_file_event_wire:
  "temp_file_event_ok e \<Longrightarrow> temp_file_event_at (temp_file_event_bytes junk e) = e"
  by (simp add: temp_file_event_at_def temp_file_event_bytes_def temp_file_event_ok_def
      struct_simps field_simps FILE_EVENT_PATH_LEN_def)

lemma filter_config_wire:
  "filter_config_ok c \<Longrightarrow> filter_config_at (filter_config_bytes junk c) = c"
  by (simp add: filter_config_at_def filter_config_bytes_def filter_config_ok_def struct_simps
      field_simps)


text \<open>
  The key of \<open>INFLIGHT\<close> has no byte between its fields, as the explicit padding is for: two keys are the
  same record exactly when they are the same bytes, which is what a BPF hash map compares.
\<close>

lemma u32_bytes_inject [simp]: "u32_bytes a = u32_bytes b \<longleftrightarrow> a = b"
  by (metis of_u32_bytes)

lemma u64_bytes_inject [simp]: "u64_bytes a = u64_bytes b \<longleftrightarrow> a = b"
  by (metis of_u64_bytes)

lemma rq_key_bytes_inject:
  "rq_key_bytes junk k = rq_key_bytes junk' k' \<longleftrightarrow> k = (k' :: rq_key)"
proof -
  have "rq_key_bytes junk k = rq_key_bytes junk' k' \<longleftrightarrow>
      rk_dev k = rk_dev k' \<and> rk_pad k = rk_pad k' \<and> rk_sector k = rk_sector k'"
    by (simp add: rq_key_bytes_def struct_simps)
  then show ?thesis by (auto intro: rq_key.equality)
qed

text \<open>
  The other padded record, the latency event, has four such bytes before its 64-bit field: they
  carry whatever the ring buffer held.
\<close>

lemma latency_event_junk:
  "latency_event_ok e \<Longrightarrow> slice 12 4 (latency_event_bytes junk e) = map junk [12..<16]"
  by (simp add: latency_event_bytes_def latency_event_ok_def struct_simps slice_def junk_at_def)

text \<open>The sizes of the records, without and with the bytes between their fields.\<close>

lemma record_sizes:
  "filter_config_ok c \<Longrightarrow> length (filter_config_bytes junk c) = 40"
  "trace_event_ok te \<Longrightarrow> length (trace_event_bytes junk te) = 24"
  "block_event_ok be \<Longrightarrow> length (block_event_bytes junk be) = 28"
  "length (rq_key_bytes junk k) = 16"
  "latency_event_ok le \<Longrightarrow> length (latency_event_bytes junk le) = 24"
  "temp_file_event_ok fe \<Longrightarrow> length (temp_file_event_bytes junk fe) = 168"
  by (simp_all add: filter_config_bytes_def filter_config_ok_def trace_event_bytes_def
      trace_event_ok_def block_event_bytes_def block_event_ok_def rq_key_bytes_def
      latency_event_bytes_def latency_event_ok_def temp_file_event_bytes_def
      temp_file_event_ok_def FILE_EVENT_PATH_LEN_def struct_simps)

end
