(* ===== verification/Ebpf_Probes.thy ===== *)
theory Ebpf_Probes
  imports Ebpf_Common Edge_Alarm "HOL-Library.Sublist" "HOL-Library.AList"
begin

text \<open>
  \<open>crates/pgsleuth-ebpf/src/main.rs\<close>: the five kernel programs. What the kernel gives a program
  is a parameter (\<open>probe_ctx\<close>): the current task, the clock, the fields of the trace record at
  their offsets (None when the read fails), the user string a pointer refers to and whether a
  ring buffer has room. The \<open>INFLIGHT\<close> map is a BPF hash map; its three operations are arguments
  of the block programs, and the locale \<open>bpf_hash_map\<close> states what BPF documents of them.
\<close>

section \<open>What the kernel gives a program\<close>

record probe_ctx =
  cx_pid :: u32
  cx_cgroup_id :: u64
  cx_comm :: "u8 list option"
  cx_ktime_ns :: u64
  cx_read_u32 :: "nat \<Rightarrow> u32 option"
  cx_read_u64 :: "nat \<Rightarrow> u64 option"
  cx_read_u8x8 :: "nat \<Rightarrow> u8 list option"
  cx_read_ptr :: "nat \<Rightarrow> u64 option"
  cx_user_str :: "u64 \<Rightarrow> u8 list \<Rightarrow> u8 list"
  cx_reserve :: bool

definition comm_or_zero :: "probe_ctx \<Rightarrow> u8 list" where
  "comm_or_zero ctx = (case cx_comm ctx of Some c \<Rightarrow> c | None \<Rightarrow> replicate 16 0)"

definition OPENAT_OFF_FILENAME :: nat where "OPENAT_OFF_FILENAME = 24"
definition UNLINKAT_OFF_FILENAME :: nat where "UNLINKAT_OFF_FILENAME = 24"
definition BLOCK_RQ_OFF_DEV :: nat where "BLOCK_RQ_OFF_DEV = 8"
definition BLOCK_RQ_OFF_SECTOR :: nat where "BLOCK_RQ_OFF_SECTOR = 16"
definition BLOCK_RQ_ISSUE_OFF_BYTES :: nat where "BLOCK_RQ_ISSUE_OFF_BYTES = 28"
definition BLOCK_RQ_OFF_RWBS :: nat where "BLOCK_RQ_OFF_RWBS = 32"
definition BLOCK_RQ_COMPLETE_OFF_NR_SECTOR :: nat where "BLOCK_RQ_COMPLETE_OFF_NR_SECTOR = 24"
definition SECTOR_SIZE_BYTES :: u32 where "SECTOR_SIZE_BYTES = 512"

section \<open>The \<open>vfs_open\<close> kprobe\<close>

text \<open>The comparison loop: it stops at the end of the configured name.\<close>

fun name_loop :: "u8 list \<Rightarrow> u8 list \<Rightarrow> bool" where
  "name_loop (n # name) (c # comm) =
     (if n = 0 then True else if c \<noteq> n then False else name_loop name comm)"
| "name_loop _ _ = True"

text \<open>The three criteria in turn, as the pair \<open>(matches, criteria_met)\<close>.\<close>

definition filter_cgroup :: "filter_config \<Rightarrow> probe_ctx \<Rightarrow> bool \<times> nat \<Rightarrow> bool \<times> nat" where
  "filter_cgroup cfg ctx st =
     (if fc_cgroup_id cfg \<noteq> 0
      then (if cx_cgroup_id ctx = fc_cgroup_id cfg then True else fst st, snd st + 1)
      else st)"

definition filter_pid :: "filter_config \<Rightarrow> probe_ctx \<Rightarrow> bool \<times> nat \<Rightarrow> bool \<times> nat" where
  "filter_pid cfg ctx st =
     (if \<not> fst st \<and> fc_pid cfg \<noteq> 0
      then (if cx_pid ctx = fc_pid cfg then True else fst st, snd st + 1)
      else st)"

definition filter_name :: "filter_config \<Rightarrow> probe_ctx \<Rightarrow> bool \<times> nat \<Rightarrow> bool \<times> nat" where
  "filter_name cfg ctx st =
     (if \<not> fst st \<and> fc_name cfg ! 0 \<noteq> 0
      then (if name_loop (fc_name cfg) (comm_or_zero ctx) then True else fst st, snd st + 1)
      else st)"

definition vfs_open_probe :: "filter_config option \<Rightarrow> probe_ctx \<Rightarrow> u32 \<times> trace_event option" where
  "vfs_open_probe config ctx =
     (case config of
        None \<Rightarrow> (1, None)
      | Some cfg \<Rightarrow>
          let st = filter_name cfg ctx (filter_pid cfg ctx (filter_cgroup cfg ctx (False, 0))) in
          if 0 < snd st \<and> \<not> fst st then (1, None)
          else
            (0, if cx_reserve ctx
                then Some \<lparr>te_pid = cx_pid ctx, te_port = 0, te_comm = comm_or_zero ctx\<rparr>
                else None))"

section \<open>The block-layer tracepoints\<close>

definition b_R :: u8 where "b_R = 0x52"
definition b_W :: u8 where "b_W = 0x57"
definition b_F :: u8 where "b_F = 0x46"
definition b_A :: u8 where "b_A = 0x41"

definition classify_rwbs :: "u8 list \<Rightarrow> u8" where
  "classify_rwbs rwbs =
     (let first = rwbs ! 0;
          is_write = (first = b_W \<or> first = b_F);
          is_flush_or_fua = list_ex (\<lambda>c. c = b_F \<or> c = b_A) rwbs
      in if first = b_R then op_class_u8 Op_Read
         else if is_write \<and> is_flush_or_fua then op_class_u8 Op_WriteFlush
         else if is_write then op_class_u8 Op_Write
         else op_class_u8 Op_Other)"

definition block_rq_issue ::
  "('m \<Rightarrow> rq_key \<Rightarrow> u64 \<Rightarrow> 'm) \<Rightarrow> filter_config option \<Rightarrow> 'm \<Rightarrow> probe_ctx
   \<Rightarrow> 'm \<times> block_event option" where
  "block_rq_issue bpf_insert config inflight ctx =
     (case config of
        None \<Rightarrow> (inflight, None)
      | Some cfg \<Rightarrow>
     (case cx_read_u32 ctx BLOCK_RQ_OFF_DEV of
        None \<Rightarrow> (inflight, None)
      | Some dev \<Rightarrow>
          let pass_dev_filter = (fc_dev_t cfg = 0 \<or> dev = fc_dev_t cfg) in
          if \<not> pass_dev_filter then (inflight, None)
          else
     (case cx_read_u64 ctx BLOCK_RQ_OFF_SECTOR of
        None \<Rightarrow> (inflight, None)
      | Some sector \<Rightarrow>
          let key = \<lparr>rk_dev = dev, rk_pad = 0, rk_sector = sector\<rparr>;
              inflight = bpf_insert inflight key (cx_ktime_ns ctx);
              bytes = (case cx_read_u32 ctx BLOCK_RQ_ISSUE_OFF_BYTES of Some b \<Rightarrow> b | None \<Rightarrow> 0)
          in (inflight,
              if cx_reserve ctx
              then Some \<lparr>be_dev = dev, be_pid = cx_pid ctx, be_bytes = bytes,
                         be_comm = comm_or_zero ctx\<rparr>
              else None))))"

definition block_rq_complete ::
  "('m \<Rightarrow> rq_key \<Rightarrow> u64 option) \<Rightarrow> ('m \<Rightarrow> rq_key \<Rightarrow> 'm) \<Rightarrow> filter_config option \<Rightarrow> 'm
   \<Rightarrow> probe_ctx \<Rightarrow> 'm \<times> block_io_latency_event option" where
  "block_rq_complete bpf_get bpf_remove config inflight ctx =
     (case config of
        None \<Rightarrow> (inflight, None)
      | Some cfg \<Rightarrow>
     (case cx_read_u32 ctx BLOCK_RQ_OFF_DEV of
        None \<Rightarrow> (inflight, None)
      | Some dev \<Rightarrow>
          if fc_dev_t cfg \<noteq> 0 \<and> dev \<noteq> fc_dev_t cfg then (inflight, None)
          else
     (case cx_read_u64 ctx BLOCK_RQ_OFF_SECTOR of
        None \<Rightarrow> (inflight, None)
      | Some sector \<Rightarrow>
          let key = \<lparr>rk_dev = dev, rk_pad = 0, rk_sector = sector\<rparr> in
     (case bpf_get inflight key of
        None \<Rightarrow> (inflight, None)
      | Some issue_ts \<Rightarrow>
          let inflight = bpf_remove inflight key;
              latency_ns = sat_sub (cx_ktime_ns ctx) issue_ts;
              nr_sector = (case cx_read_u32 ctx BLOCK_RQ_COMPLETE_OFF_NR_SECTOR of
                             Some n \<Rightarrow> n | None \<Rightarrow> 0);
              bytes = sat_mul nr_sector SECTOR_SIZE_BYTES;
              rwbs = (case cx_read_u8x8 ctx BLOCK_RQ_OFF_RWBS of
                        Some b \<Rightarrow> b | None \<Rightarrow> replicate 8 0);
              op_class = classify_rwbs rwbs
          in (inflight,
              if cx_reserve ctx
              then Some \<lparr>le_dev = dev, le_op_class = op_class, le_pad = replicate 3 0,
                         le_bytes = bytes, le_latency_ns = latency_ns\<rparr>
              else None)))))"

section \<open>The file syscall tracepoints\<close>

definition capture_file_syscall ::
  "filter_config option \<Rightarrow> probe_ctx \<Rightarrow> u8 \<Rightarrow> nat \<Rightarrow> temp_file_event option" where
  "capture_file_syscall config ctx syscall_kind off_filename =
     (case config of
        None \<Rightarrow> None
      | Some cfg \<Rightarrow>
          let current_pid = cx_pid ctx in
          if fc_pid cfg \<noteq> 0 \<and> current_pid \<noteq> fc_pid cfg then None
          else
     (case cx_read_ptr ctx off_filename of
        None \<Rightarrow> None
      | Some filename_ptr \<Rightarrow>
          if filename_ptr = 0 then None
          else if cx_reserve ctx
          then Some
            \<lparr>fe_pid = current_pid, fe_syscall = syscall_kind, fe_pad = replicate 3 0,
             fe_bytes = 0, fe_query_hash = 0, fe_comm = comm_or_zero ctx,
             fe_path = cx_user_str ctx filename_ptr (replicate FILE_EVENT_PATH_LEN 0)\<rparr>
          else None))"

definition sys_enter_openat :: "filter_config option \<Rightarrow> probe_ctx \<Rightarrow> temp_file_event option" where
  "sys_enter_openat config ctx = capture_file_syscall config ctx 0 OPENAT_OFF_FILENAME"

definition sys_enter_unlinkat :: "filter_config option \<Rightarrow> probe_ctx \<Rightarrow> temp_file_event option" where
  "sys_enter_unlinkat config ctx = capture_file_syscall config ctx 1 UNLINKAT_OFF_FILENAME"

section \<open>Sequences of block-layer events\<close>

text \<open>
  The two block programs share \<open>INFLIGHT\<close>; the kernel runs them in the order of the events. A
  step's output is the latency event the completion emitted, if any.
\<close>

datatype block_tp = Tp_Issue probe_ctx | Tp_Complete probe_ctx

fun block_step ::
  "('m \<Rightarrow> rq_key \<Rightarrow> u64 option) \<Rightarrow> ('m \<Rightarrow> rq_key \<Rightarrow> u64 \<Rightarrow> 'm) \<Rightarrow> ('m \<Rightarrow> rq_key \<Rightarrow> 'm)
   \<Rightarrow> filter_config option \<Rightarrow> 'm \<Rightarrow> block_tp \<Rightarrow> 'm \<times> block_io_latency_event option" where
  "block_step bget bins brem config m (Tp_Issue ctx) =
     (fst (block_rq_issue bins config m ctx), None)"
| "block_step bget bins brem config m (Tp_Complete ctx) =
     block_rq_complete bget brem config m ctx"

declare block_step.simps [simp del]

text \<open>The request an event is about, when the programs can read it and the filter lets it pass.\<close>

definition rq_of :: "filter_config option \<Rightarrow> probe_ctx \<Rightarrow> rq_key option" where
  "rq_of config ctx =
     (case (config, cx_read_u32 ctx BLOCK_RQ_OFF_DEV, cx_read_u64 ctx BLOCK_RQ_OFF_SECTOR) of
        (Some cfg, Some dev, Some sector) \<Rightarrow>
          if fc_dev_t cfg = 0 \<or> dev = fc_dev_t cfg
          then Some \<lparr>rk_dev = dev, rk_pad = 0, rk_sector = sector\<rparr> else None
      | _ \<Rightarrow> None)"

text \<open>The latency event of a completion whose request was issued at the given time.\<close>

definition latency_event :: "probe_ctx \<Rightarrow> rq_key \<Rightarrow> u64 \<Rightarrow> block_io_latency_event" where
  "latency_event ctx key issue_ts =
     \<lparr>le_dev = rk_dev key,
      le_op_class = classify_rwbs
        (case cx_read_u8x8 ctx BLOCK_RQ_OFF_RWBS of Some b \<Rightarrow> b | None \<Rightarrow> replicate 8 0),
      le_pad = replicate 3 0,
      le_bytes = sat_mul
        (case cx_read_u32 ctx BLOCK_RQ_COMPLETE_OFF_NR_SECTOR of Some n \<Rightarrow> n | None \<Rightarrow> 0)
        SECTOR_SIZE_BYTES,
      le_latency_ns = sat_sub (cx_ktime_ns ctx) issue_ts\<rparr>"

lemma block_rq_issue_map:
  "fst (block_rq_issue bins config m ctx) =
     (case rq_of config ctx of None \<Rightarrow> m | Some k \<Rightarrow> bins m k (cx_ktime_ns ctx))"
  by (simp add: block_rq_issue_def rq_of_def Let_def split: option.split)

lemma block_rq_complete_eq:
  "block_rq_complete bget brem config m ctx =
     (case rq_of config ctx of
        None \<Rightarrow> (m, None)
      | Some k \<Rightarrow>
          (case bget m k of
             None \<Rightarrow> (m, None)
           | Some t \<Rightarrow>
               (brem m k, if cx_reserve ctx then Some (latency_event ctx k t) else None)))"
  by (simp add: block_rq_complete_def rq_of_def latency_event_def Let_def split: option.split)

text \<open>
  The reference: when was the request \<open>k\<close> last issued and not completed since, in a list of
  events read from its end.
\<close>

fun pending_rev :: "filter_config option \<Rightarrow> rq_key \<Rightarrow> block_tp list \<Rightarrow> u64 option" where
  "pending_rev config k [] = None"
| "pending_rev config k (Tp_Issue ctx # es) =
     (if rq_of config ctx = Some k then Some (cx_ktime_ns ctx) else pending_rev config k es)"
| "pending_rev config k (Tp_Complete ctx # es) =
     (if rq_of config ctx = Some k then None else pending_rev config k es)"

definition pending_since :: "filter_config option \<Rightarrow> rq_key \<Rightarrow> block_tp list \<Rightarrow> u64 option" where
  "pending_since config k es = pending_rev config k (rev es)"

lemma pending_since_simps [simp]:
  "pending_since config k [] = None"
  "pending_since config k (es @ [Tp_Issue ctx]) =
     (if rq_of config ctx = Some k then Some (cx_ktime_ns ctx) else pending_since config k es)"
  "pending_since config k (es @ [Tp_Complete ctx]) =
     (if rq_of config ctx = Some k then None else pending_since config k es)"
  by (simp_all add: pending_since_def)

text \<open>The requests a list of events issues.\<close>

fun issued :: "filter_config option \<Rightarrow> block_tp list \<Rightarrow> rq_key list" where
  "issued config [] = []"
| "issued config (Tp_Issue ctx # es) =
     (case rq_of config ctx of None \<Rightarrow> issued config es | Some k \<Rightarrow> k # issued config es)"
| "issued config (Tp_Complete ctx # es) = issued config es"

lemma issued_append [simp]: "issued config (es @ es') = issued config es @ issued config es'"
  by (induction config es rule: issued.induct) (simp_all split: option.split)

section \<open>The BPF hash map as an interface\<close>

text \<open>
  What BPF documents of a \<open>BPF_MAP_TYPE_HASH\<close> of \<open>cap\<close> entries used with flag \<open>BPF_ANY\<close>: a removal
  removes that key, an insertion touches no other key, replaces the value of a present key, and
  succeeds when there is room; a full map may drop it.
\<close>

locale bpf_hash_map =
  fixes bempty :: "'m"
    and bget :: "'m \<Rightarrow> rq_key \<Rightarrow> u64 option"
    and bins :: "'m \<Rightarrow> rq_key \<Rightarrow> u64 \<Rightarrow> 'm"
    and brem :: "'m \<Rightarrow> rq_key \<Rightarrow> 'm"
    and cap :: nat
  assumes get_empty: "bget bempty k = None"
    and ins_other: "k' \<noteq> k \<Longrightarrow> bget (bins m k v) k' = bget m k'"
    and ins_present: "bget m k \<noteq> None \<Longrightarrow> bget (bins m k v) k = Some v"
    and ins_room: "card (dom (bget m)) < cap \<Longrightarrow> bget (bins m k v) k = Some v"
    and ins_dropped: "bget (bins m k v) k = Some v \<or> bget (bins m k v) k = bget m k"
    and rem_get: "bget (brem m k) = (bget m)(k := None)"
begin

lemma get_ins_Some: "bget (bins m k v) k = Some t \<Longrightarrow> t = v"
  using ins_present ins_dropped by (metis option.distinct(1) option.inject)

lemma step_get:
  "bget (fst (block_step bget bins brem config m e)) k =
     (case e of
        Tp_Issue ctx \<Rightarrow>
          (if rq_of config ctx = Some k then bget (bins m k (cx_ktime_ns ctx)) k else bget m k)
      | Tp_Complete ctx \<Rightarrow> if rq_of config ctx = Some k then None else bget m k)"
  by (cases e)
    (auto simp: block_step.simps block_rq_issue_map block_rq_complete_eq rem_get ins_other split: option.split)

lemma get_pending:
  "bget (after (block_step bget bins brem config) bempty es) k = Some t \<Longrightarrow>
     pending_since config k es = Some t"
proof (induction es arbitrary: t rule: rev_induct)
  case (snoc e es)
  then show ?case by (cases e) (auto simp: step_get split: if_splits dest: get_ins_Some)
qed (simp add: get_empty)

lemma dom_issued:
  "dom (bget (after (block_step bget bins brem config) bempty es)) \<subseteq> set (issued config es)"
proof (induction es rule: rev_induct)
  case (snoc e es)
  have "k \<in> set (issued config (es @ [e]))"
    if "bget (fst (block_step bget bins brem config
      (after (block_step bget bins brem config) bempty es) e)) k \<noteq> None" for k
    using that snoc by (cases e) (auto simp: step_get split: if_splits)
  then show ?case by auto
qed (auto simp: get_empty)

lemma get_exact:
  assumes "card (set (issued config es)) \<le> cap"
  shows "bget (after (block_step bget bins brem config) bempty es) k = pending_since config k es"
  using assms
proof (induction es arbitrary: k rule: rev_induct)
  case (snoc e es)
  let ?m = "after (block_step bget bins brem config) bempty es"
  have "set (issued config es) \<subseteq> set (issued config (es @ [e]))" by simp
  then have "card (set (issued config es)) \<le> cap"
    using snoc.prems by (meson List.finite_set card_mono order_trans)
  then have IH: "bget ?m k = pending_since config k es" for k by (rule snoc.IH)
  have ins: "bget (bins ?m k (cx_ktime_ns ctx)) k = Some (cx_ktime_ns ctx)"
    if e: "e = Tp_Issue ctx" and rq: "rq_of config ctx = Some k" for ctx k
  proof (cases "bget ?m k")
    case None
    then have "dom (bget ?m) \<subset> set (issued config (es @ [e]))"
      using dom_issued [of config es] e rq by auto
    then have "card (dom (bget ?m)) < cap"
      using snoc.prems by (meson List.finite_set psubset_card_mono order.strict_trans2)
    then show ?thesis by (rule ins_room)
  next
    case (Some t)
    then show ?thesis by (simp add: ins_present)
  qed
  show ?case by (cases e) (auto simp: step_get IH ins)
qed (simp add: get_empty)

end

text \<open>
  Per request, a completion that finds its issue is an edge-triggered alarm re-armed by the issue
  of the request: delete-on-read disarms it.
\<close>

definition completes :: "('m \<Rightarrow> rq_key \<Rightarrow> u64 option) \<Rightarrow> filter_config option \<Rightarrow> rq_key \<Rightarrow> 'm
    \<Rightarrow> block_tp \<Rightarrow> bool" where
  "completes bget config k m e =
     (case e of
        Tp_Issue _ \<Rightarrow> False
      | Tp_Complete ctx \<Rightarrow> rq_of config ctx = Some k \<and> bget m k \<noteq> None)"

definition issues :: "filter_config option \<Rightarrow> rq_key \<Rightarrow> block_tp \<Rightarrow> bool" where
  "issues config k e =
     (case e of Tp_Issue ctx \<Rightarrow> rq_of config ctx = Some k | Tp_Complete _ \<Rightarrow> False)"

sublocale bpf_hash_map \<subseteq> request: edge_alarm "block_step bget bins brem config"
  "completes bget config k" "\<lambda>m. bget m k \<noteq> None" "\<lambda>_. issues config k" for config k
  by unfold_locales
    (auto simp: completes_def issues_def step_get split: block_tp.splits if_splits)

lemma count_ticks_inputs: "count_ticks f (\<lambda>_. P) s es = length (filter P es)"
  by (induction es arbitrary: s) simp_all

context bpf_hash_map
begin

lemma completes_bounded:
  "count_ticks (block_step bget bins brem config) (completes bget config k) bempty es
    \<le> length (filter (issues config k) es)"
  using request.fires_bounded [of config k bempty es]
  by (simp add: get_empty count_ticks_inputs)

end

text \<open>
  A map of at most \<open>cap\<close> entries as an association list; \<open>INFLIGHT\<close> is declared with 8192.
\<close>

definition INFLIGHT_MAX_ENTRIES :: nat where
  "INFLIGHT_MAX_ENTRIES = 8192"

definition inflight_insert ::
  "nat \<Rightarrow> (rq_key \<times> u64) list \<Rightarrow> rq_key \<Rightarrow> u64 \<Rightarrow> (rq_key \<times> u64) list" where
  "inflight_insert cap m k v =
     (if k \<in> set (map fst m) \<or> card (set (map fst m)) < cap then AList.update k v m else m)"

definition inflight_remove :: "(rq_key \<times> u64) list \<Rightarrow> rq_key \<Rightarrow> (rq_key \<times> u64) list" where
  "inflight_remove m k = AList.delete k m"

interpretation inflight: bpf_hash_map "[]" map_of "inflight_insert INFLIGHT_MAX_ENTRIES"
  inflight_remove INFLIGHT_MAX_ENTRIES
  by unfold_locales
    (auto simp: inflight_insert_def inflight_remove_def update_conv' delete_conv'
      dom_map_of_conv_image_fst map_of_eq_None_iff)

section \<open>The name filter\<close>

lemma name_loop_prefix:
  "length name \<le> length comm \<Longrightarrow> name_loop name comm = prefix (takeWhile (\<lambda>b. b \<noteq> 0) name) comm"
  by (induction name comm rule: name_loop.induct) auto

section \<open>The operation class\<close>

lemma rwbs_letters [simp]: "b_R \<noteq> b_W" "b_R \<noteq> b_F" "b_W \<noteq> b_F" "b_W \<noteq> b_R" "b_F \<noteq> b_R" "b_F \<noteq> b_W"
  "b_W \<noteq> b_A" "b_R \<noteq> b_A"
  by (simp_all add: b_R_def b_W_def b_F_def b_A_def)

lemma classify_rwbs_Cons:
  "classify_rwbs (c # rest) = op_class_u8
    (if c = b_R then Op_Read
     else if c = b_F \<or> (c = b_W \<and> (b_F \<in> set rest \<or> b_A \<in> set rest)) then Op_WriteFlush
     else if c = b_W then Op_Write
     else Op_Other)"
  by (auto simp: classify_rwbs_def Let_def list_ex_iff)

section \<open>Properties\<close>

text \<open>
  C2. Every latency event is right: whatever sequence of block-layer events came before, when a
  completion emits an event then the request (device, sector) was issued before, was not completed
  since, and the event carries the saturating difference to the time of its latest issue, the
  device, the byte count \<open>nr_sector * 512\<close> (saturating) and the operation class. BPF's hash map is
  any map with its documented laws.
\<close>

theorem latency_matches_issue:
  assumes "bpf_hash_map bempty bget bins brem cap"
    and "snd (block_step bget bins brem config
      (after (block_step bget bins brem config) bempty es) (Tp_Complete ctx)) = Some ev"
  shows "\<exists>k t. rq_of config ctx = Some k \<and> pending_since config k es = Some t
    \<and> ev = latency_event ctx k t"
  using assms(2) bpf_hash_map.get_pending [OF assms(1), of config es]
  by (auto simp: block_step.simps block_rq_complete_eq split: option.splits if_splits)

definition example_ctx :: "u64 \<Rightarrow> probe_ctx" where
  "example_ctx ts =
     \<lparr>cx_pid = 10, cx_cgroup_id = 1, cx_comm = None, cx_ktime_ns = ts,
      cx_read_u32 = (\<lambda>off. if off = 8 then Some 0x800010 else if off = 24 then Some 16 else None),
      cx_read_u64 = (\<lambda>off. if off = 16 then Some 4096 else None),
      cx_read_u8x8 = (\<lambda>off. if off = 32 then Some [0x57, 0x46, 0x53, 0, 0, 0, 0, 0] else None),
      cx_read_ptr = (\<lambda>off. Some 0x7000),
      cx_user_str = (\<lambda>p buf. [112, 103] @ drop 2 buf),
      cx_reserve = True\<rparr>"

definition example_filter :: filter_config where
  "example_filter =
     \<lparr>fc_pid = 0, fc_cgroup_id = 0, fc_name = replicate 16 0, fc_dev_t = 0x800010\<rparr>"

lemmas example_simps = block_step.simps example_ctx_def example_filter_def rq_of_def BLOCK_RQ_OFF_DEV_def
  BLOCK_RQ_OFF_SECTOR_def block_rq_issue_map block_rq_complete_eq inflight_insert_def
  inflight_remove_def INFLIGHT_MAX_ENTRIES_def

theorem latency_matches_issue_witness:
  "\<exists>k t. rq_of (Some example_filter) (example_ctx 9000) = Some k
    \<and> pending_since (Some example_filter) k [Tp_Issue (example_ctx 1500)] = Some t
    \<and> latency_event (example_ctx 9000) \<lparr>rk_dev = 0x800010, rk_pad = 0, rk_sector = 4096\<rparr> 1500 =
      latency_event (example_ctx 9000) k t"
  by (rule latency_matches_issue [OF inflight.bpf_hash_map_axioms])
    (simp add: example_simps)

text \<open>
  C14. No latency is lost while \<open>INFLIGHT\<close> has room: when the events so far issued at most as many
  different requests as the map holds, a completion emits exactly when its request is pending and
  the ring buffer has room, with the time since the latest issue.
\<close>

theorem latency_complete_within_capacity:
  assumes "bpf_hash_map bempty bget bins brem cap"
    and "card (set (issued config es)) \<le> cap"
  shows "snd (block_step bget bins brem config
      (after (block_step bget bins brem config) bempty es) (Tp_Complete ctx)) =
    (case rq_of config ctx of
       None \<Rightarrow> None
     | Some k \<Rightarrow>
         (case pending_since config k es of
            None \<Rightarrow> None
          | Some t \<Rightarrow> if cx_reserve ctx then Some (latency_event ctx k t) else None))"
  using bpf_hash_map.get_exact [OF assms]
  by (simp add: block_step.simps block_rq_complete_eq split: option.split)

theorem latency_complete_within_capacity_witness:
  "snd (block_step map_of (inflight_insert INFLIGHT_MAX_ENTRIES) inflight_remove
      (Some example_filter)
      (after (block_step map_of (inflight_insert INFLIGHT_MAX_ENTRIES) inflight_remove
        (Some example_filter)) [] [Tp_Issue (example_ctx 1500)])
      (Tp_Complete (example_ctx 9000))) =
    Some (latency_event (example_ctx 9000)
      \<lparr>rk_dev = 0x800010, rk_pad = 0, rk_sector = 4096\<rparr> 1500)"
  by (subst latency_complete_within_capacity [OF inflight.bpf_hash_map_axioms])
    (simp_all add: example_ctx_def example_filter_def rq_of_def BLOCK_RQ_OFF_DEV_def
      BLOCK_RQ_OFF_SECTOR_def INFLIGHT_MAX_ENTRIES_def pending_since_def)

text \<open>
  No double counting: over any sequence of events from an empty map, the completions of a
  request that find an issue are at most as many as its issues, so one issue is measured at most
  once, however often the kernel reports its completion.
\<close>

lemma one_latency_per_issue:
  assumes "bpf_hash_map bempty bget bins brem cap"
  shows "count_ticks (block_step bget bins brem config) (completes bget config k) bempty es
    \<le> length (filter (issues config k) es)"
  using assms by (rule bpf_hash_map.completes_bounded)

lemma one_latency_per_issue_witness:
  "count_ticks (block_step map_of (inflight_insert INFLIGHT_MAX_ENTRIES) inflight_remove
      (Some example_filter))
    (completes map_of (Some example_filter) \<lparr>rk_dev = 0x800010, rk_pad = 0, rk_sector = 4096\<rparr>) []
    [Tp_Issue (example_ctx 1500), Tp_Complete (example_ctx 9000), Tp_Complete (example_ctx 9900)]
   \<le> length (filter
     (issues (Some example_filter) \<lparr>rk_dev = 0x800010, rk_pad = 0, rk_sector = 4096\<rparr>)
     [Tp_Issue (example_ctx 1500), Tp_Complete (example_ctx 9000), Tp_Complete (example_ctx 9900)])"
  by (rule one_latency_per_issue [OF inflight.bpf_hash_map_axioms])

text \<open>
  C36. Which \<open>vfs_open\<close> calls are reported: with no criterion configured all of them; otherwise those
  that satisfy one of the configured criteria, which are the cgroup, the process id, and a process
  name that starts with the configured name. The event is dropped when the ring buffer is full.
\<close>

theorem vfs_open_filter:
  assumes "length (fc_name cfg) = 16" and "length (comm_or_zero ctx) = 16"
  shows "snd (vfs_open_probe (Some cfg) ctx) \<noteq> None \<longleftrightarrow>
    cx_reserve ctx \<and>
    ((fc_cgroup_id cfg = 0 \<and> fc_pid cfg = 0 \<and> fc_name cfg ! 0 = 0)
     \<or> (fc_cgroup_id cfg \<noteq> 0 \<and> cx_cgroup_id ctx = fc_cgroup_id cfg)
     \<or> (fc_pid cfg \<noteq> 0 \<and> cx_pid ctx = fc_pid cfg)
     \<or> (fc_name cfg ! 0 \<noteq> 0 \<and>
        prefix (takeWhile (\<lambda>b. b \<noteq> 0) (fc_name cfg)) (comm_or_zero ctx)))"
  using name_loop_prefix [of "fc_name cfg" "comm_or_zero ctx"] assms
  by (auto simp: vfs_open_probe_def filter_cgroup_def filter_pid_def filter_name_def Let_def)

theorem vfs_open_filter_witness:
  "snd (vfs_open_probe
      (Some \<lparr>fc_pid = 0, fc_cgroup_id = 0, fc_name = [112, 111, 115, 116] @ replicate 12 0,
             fc_dev_t = 0\<rparr>)
      ((example_ctx 5)\<lparr>cx_comm := Some ([112, 111, 115, 116, 103, 114, 101, 115] @ replicate 8 0)\<rparr>))
    \<noteq> None"
  by (subst vfs_open_filter) (simp_all add: example_ctx_def comm_or_zero_def numeral_eq_Suc)

text \<open>
  The file probes look at the process id only: an \<open>openat\<close> or \<open>unlinkat\<close> is captured exactly when
  the configured process id is 0 or the caller's, the path pointer can be read and is not null and
  the ring buffer has room. The configured cgroup and name are ignored: two configurations with
  the same process id capture the same events.
\<close>

lemma file_probe_filters_by_pid_only:
  "(capture_file_syscall (Some cfg) ctx kind off \<noteq> None \<longleftrightarrow>
      (fc_pid cfg = 0 \<or> cx_pid ctx = fc_pid cfg)
      \<and> (\<exists>p. cx_read_ptr ctx off = Some p \<and> p \<noteq> 0) \<and> cx_reserve ctx) \<and>
   capture_file_syscall (Some (cfg\<lparr>fc_cgroup_id := cg, fc_name := nm\<rparr>)) ctx kind off =
     capture_file_syscall (Some cfg) ctx kind off"
  by (auto simp: capture_file_syscall_def Let_def split: option.split)

end
