(* ===== verification/Loader_Life.thy ===== *)
theory Loader_Life
  imports Loader
begin

text \<open>
  The loader as a process (\<open>crates/pgsleuth-ebpf-loader/src/main.rs\<close>): how its loop ends and what it
  leaves behind, and that a storage problem that lasts long enough is reported.
\<close>

section \<open>The life of the loop\<close>

lemma stopped_step: "ls_status st \<noteq> Running \<Longrightarrow> loader_step cfg st ev = (st, [])"
  by (simp add: loader_step_def)

lemma stopped_run:
  "ls_status st \<noteq> Running \<Longrightarrow> after (loader_step cfg) st evs = st
    \<and> tick_outs (loader_step cfg) st evs = replicate (length evs) []"
  by (induction evs) (simp_all add: stopped_step)

lemma running_step:
  "\<not> ends_loop ev \<Longrightarrow> ls_status st = Running \<Longrightarrow> ls_status (fst (loader_step cfg st ev)) = Running"
  by (cases ev) (simp_all add: loader_step_def Let_def)

text \<open>How an event ends the loop, and what the loop does last.\<close>

fun end_status :: "loader_event list \<Rightarrow> run_status" where
  "end_status (Ev_Ctrl_C # _) = Stopped"
| "end_status (Ev_Poll_Error which # _) = Poll_Failed which"
| "end_status _ = Running"

lemma ending_step:
  "ends_loop ev \<Longrightarrow> ls_status st = Running \<Longrightarrow>
     loader_step cfg st ev =
       (st\<lparr>ls_status := end_status (ev # evs)\<rparr>,
        if end_status (ev # evs) = Stopped then loader_shutdown cfg else [])
     \<and> end_status (ev # evs) \<noteq> Running"
  by (cases ev) (simp_all add: loader_step_def)

lemma loop_life:
  assumes "ls_status st = Running"
  shows "ls_status (after (loader_step cfg) st evs) = end_status (dropWhile (Not \<circ> ends_loop) evs)
    \<and> concat (tick_outs (loader_step cfg) st evs) =
        concat (tick_outs (loader_step cfg) st (takeWhile (Not \<circ> ends_loop) evs))
        @ (if end_status (dropWhile (Not \<circ> ends_loop) evs) = Stopped
           then loader_shutdown cfg else [])"
  using assms
proof (induction evs arbitrary: st)
  case (Cons e evs)
  show ?case
  proof (cases "ends_loop e")
    case True
    then show ?thesis
      using ending_step [OF True Cons.prems, of cfg evs] by (simp add: stopped_run)
  next
    case False
    then show ?thesis
      using Cons.IH [of "fst (loader_step cfg st e)"] Cons.prems running_step [of e st cfg]
      by simp
  qed
qed simp

abbreviation is_shutdown :: "loader_effect \<Rightarrow> bool" where
  "is_shutdown e \<equiv> e = Eff_Metrics_Shutdown \<or> e = Eff_Log_Shutdown"

lemma on_temp_no_shutdown:
  "e \<in> set (concat (tick_outs (on_temp cfg) seen es)) \<Longrightarrow> \<not> is_shutdown e"
  by (induction es arbitrary: seen) (auto simp: on_temp_def Let_def split: if_splits)

lemma on_latency_no_shutdown:
  "e \<in> set (concat (tick_outs (on_latency cfg) samples es)) \<Longrightarrow> \<not> is_shutdown e"
  by (induction es arbitrary: samples) (auto simp: on_latency_def split: if_splits)

lemma on_tick_no_shutdown: "e \<in> set (snd (on_tick cfg now c samples)) \<Longrightarrow> \<not> is_shutdown e"
  by (auto simp: on_tick_def Let_def split: breach_state.splits if_splits)

lemma loader_step_no_shutdown:
  "\<not> ends_loop ev \<Longrightarrow> e \<in> set (snd (loader_step cfg st ev)) \<Longrightarrow> \<not> is_shutdown e"
  by (cases ev)
    (auto simp: loader_step_def Let_def on_trace_def on_block_def simp del: set_concat
      split: if_splits dest: on_temp_no_shutdown on_latency_no_shutdown on_tick_no_shutdown)

lemma loop_no_shutdown:
  "\<not> (\<exists>ev\<in>set evs. ends_loop ev) \<Longrightarrow>
     e \<in> set (concat (tick_outs (loader_step cfg) st evs)) \<Longrightarrow> \<not> is_shutdown e"
proof (induction evs arbitrary: st)
  case (Cons ev evs)
  then show ?case
    using loader_step_no_shutdown [of ev e cfg st] Cons.IH [of "fst (loader_step cfg st ev)"]
    by auto
qed simp

section \<open>Ticks one by one\<close>

lemma split_ticks_snoc:
  "fst (split_ticks acc (evs @ [e])) =
     fst (split_ticks acc evs) @ (case e of Ev_Tick _ \<Rightarrow> [snd (split_ticks acc evs)] | _ \<Rightarrow> [])"
  by (induction acc evs rule: split_ticks.induct) (cases e; simp)+

lemma tick_reports:
  assumes "run_len (map (fsync_breached (lc_args cfg))
      (fst (split_ticks [] evs) @ [snd (split_ticks [] evs)]))
    = max 1 (unat (la_fsync_fire_after (lc_args cfg)))"
  shows "\<exists>f. f_rule_id f = ''storage.wal.fsync.jitter''
    \<and> Eff_Fired (f_summary f) \<in> set (fsync_tick_effects cfg now evs)
    \<and> (lc_log_emitter cfg \<longrightarrow> Eff_Emit f \<in> set (fsync_tick_effects cfg now evs))"
  using assms
  by (intro exI [of _ "fsync_build_finding now _ _ _ _ _ _"])
    (auto simp: fsync_tick_effects_def Let_def fsync_build_finding_def)

section \<open>Properties\<close>

text \<open>
  Slow storage is reported: whatever events arrive and however they interleave, once the last
  \<open>max 1 fire_after\<close> finished intervals (or more) were all slow, the loop has reported the
  fsync-jitter rule, in its own log and to the emitter when there is one.
\<close>

lemma slow_storage_is_reported:
  assumes "\<not> (\<exists>e\<in>set evs. ends_loop e)"
    and "max 1 (unat (la_fsync_fire_after (lc_args cfg))) \<le>
      run_len (map (fsync_breached (lc_args cfg)) (fst (split_ticks [] evs)))"
  shows "\<exists>f. f_rule_id f = ''storage.wal.fsync.jitter''
    \<and> Eff_Fired (f_summary f) \<in> set (concat (tick_outs (loader_step cfg) loader_init evs))
    \<and> (lc_log_emitter cfg \<longrightarrow>
        Eff_Emit f \<in> set (concat (tick_outs (loader_step cfg) loader_init evs)))"
  using assms
proof (induction evs rule: rev_induct)
  case (snoc e evs)
  let ?B = "\<lambda>evs. map (fsync_breached (lc_args cfg)) (fst (split_ticks [] evs))"
  let ?m = "max 1 (unat (la_fsync_fire_after (lc_args cfg)))"
  from snoc.prems have rest: "\<not> (\<exists>e\<in>set evs. ends_loop e)" by simp
  show ?case
  proof (cases "?m \<le> run_len (?B evs)")
    case True
    from snoc.IH [OF rest this] show ?thesis by auto
  next
    case False
    then obtain now where e: "e = Ev_Tick now"
      using snoc.prems(2) by (cases e) (simp_all add: split_ticks_snoc)
    have "run_len (map (fsync_breached (lc_args cfg))
        (fst (split_ticks [] evs) @ [snd (split_ticks [] evs)])) = ?m"
      using False snoc.prems(2)
      by (auto simp: e split_ticks_snoc run_len_snoc max_def split: if_splits)
    from tick_reports [OF this, of now] show ?thesis
      by (simp add: e fsync_tick_step [OF rest]) blast
  qed
qed simp

lemma slow_storage_is_reported_witness:
  "\<exists>f :: finding. f_rule_id f = ''storage.wal.fsync.jitter''
    \<and> Eff_Fired (f_summary f) \<in> set (concat (tick_outs (loader_step example_loader) loader_init
        [Ev_Latency [slow_write 12000000, slow_write 5, slow_write 30000000], Ev_Trace [],
         Ev_Tick \<lparr>dt_timestamp = 7, dt_subsec_nanos = 0\<rparr>]))"
proof -
  let ?evs = "[Ev_Latency [slow_write 12000000, slow_write 5, slow_write 30000000], Ev_Trace [],
    Ev_Tick \<lparr>dt_timestamp = 7, dt_subsec_nanos = 0\<rparr>]"
  have running: "\<not> (\<exists>e\<in>set ?evs. ends_loop e)" by simp
  have slow: "max 1 (unat (la_fsync_fire_after (lc_args example_loader))) \<le>
      run_len (map (fsync_breached (lc_args example_loader)) (fst (split_ticks [] ?evs)))"
    by (simp add: example_loader_def loader_setup_def example_args_def slow_write_def
        write_latencies_def fsync_breached_def p50_ns_def sat_mul_def run_len_def)
  from slow_storage_is_reported [OF running slow] show ?thesis by blast
qed

text \<open>
  C24. How the loader ends: once its start-up went through, every call to the eBPF library succeeded,
  so the five programs are attached, and the first Ctrl-C or poll error among the events decides
  the rest. Until then it runs and shuts no emitter down; Ctrl-C ends it after shutting down both
  emitters, metrics first; a poll error ends it without; later events have no effect.
\<close>

theorem loader_lifecycle:
  assumes "loader_main args connects row log_ok metrics_ok ok evs = Loader_Ran calls msgs status outs"
  shows "calls = map fst (bpf_startup (la_bpf_object args)
      (loader_filter_config args (loader_discovery args connects row)))
    \<and> (\<forall>c\<in>set calls. ok c)
    \<and> status = end_status (dropWhile (Not \<circ> ends_loop) evs)
    \<and> (let cfg = loader_setup args (loader_discovery args connects row) log_ok metrics_ok;
           before = concat (tick_outs (loader_step cfg) loader_init (takeWhile (Not \<circ> ends_loop) evs))
       in concat outs = before @ (if status = Stopped then loader_shutdown cfg else [])
          \<and> (\<forall>e\<in>set before. \<not> is_shutdown e))"
proof -
  let ?cfg = "loader_setup args (loader_discovery args connects row) log_ok metrics_ok"
  let ?bpf = "bpf_startup (la_bpf_object args)
    (loader_filter_config args (loader_discovery args connects row))"
  have ran: "snd (run_calls ok ?bpf) = None" "calls = fst (run_calls ok ?bpf)"
    "status = ls_status (after (loader_step ?cfg) loader_init evs)"
    "outs = tick_outs (loader_step ?cfg) loader_init evs"
    using assms by (auto simp: loader_main_def Let_def split: option.splits if_splits)
  then have all: "\<forall>c\<in>set ?bpf. ok (fst c)" by (simp add: run_calls_ok_iff)
  have "\<not> (\<exists>e\<in>set (takeWhile (Not \<circ> ends_loop) evs). ends_loop e)"
    by (auto dest: set_takeWhileD)
  then have quiet: "\<not> is_shutdown e"
    if "e \<in> set (concat (tick_outs (loader_step ?cfg) loader_init (takeWhile (Not \<circ> ends_loop) evs)))"
    for e
    using loop_no_shutdown that by blast
  have "ls_status loader_init = Running" by (simp add: loader_init_def)
  from loop_life [OF this, of ?cfg evs] show ?thesis
    using all quiet by (simp add: ran run_calls_all Let_def) blast
qed

theorem loader_lifecycle_witness:
  "\<exists>calls msgs outs. loader_main example_args False None (\<lambda>_. True) (\<lambda>_. True) (\<lambda>_. True)
      [Ev_Trace [], Ev_Ctrl_C, Ev_Poll_Error ''EVENTS''] = Loader_Ran calls msgs Stopped outs
    \<and> concat outs = [Eff_Metrics_Shutdown, Eff_Log_Shutdown]"
proof -
  let ?evs = "[Ev_Trace [], Ev_Ctrl_C, Ev_Poll_Error ''EVENTS'']"
  have "snd (run_calls (\<lambda>_. True) cs) = None" for cs by (simp add: run_calls_ok_iff)
  then obtain calls msgs status outs where ran:
    "loader_main example_args False None (\<lambda>_. True) (\<lambda>_. True) (\<lambda>_. True) ?evs
      = Loader_Ran calls msgs status outs"
    by (auto simp: loader_main_def Let_def example_args_def)
  note life = loader_lifecycle [OF ran]
  from life have status: "status = Stopped" by simp
  with life have "concat outs = [Eff_Metrics_Shutdown, Eff_Log_Shutdown]"
    by (simp add: Let_def loader_shutdown_def loader_setup_def example_args_def
        loader_step_def loader_init_def)
  with ran status show ?thesis by blast
qed

end
