(* ===== verification/Agent_System.thy ===== *)
theory Agent_System
  imports Wire Ebpf_Probes Loader_Life
begin

text \<open>
  The kernel programs of \<open>crates/pgsleuth-ebpf/src/main.rs\<close> and the loop of
  \<open>crates/pgsleuth-ebpf-loader/src/main.rs\<close> as one system. A state holds the \<open>INFLIGHT\<close> map, the four
  ring buffers, each with the bytes of the records not yet read, and the state of the loader. An
  event is the run of one kernel program, or one arm of the loader's \<open>select!\<close>; they interleave in
  any order. An arm of a ring buffer reads until the buffer is empty: what a program adds
  meanwhile can be taken as added before, because the arm touches the loader's state only.
\<close>

section \<open>Single events\<close>

text \<open>
  What the kernel promises a program: a task name has 16 bytes, and reading a user string fills a part
  of the buffer it is given.
\<close>

definition ctx_ok :: "probe_ctx \<Rightarrow> bool" where
  "ctx_ok ctx \<longleftrightarrow>
     (case cx_comm ctx of None \<Rightarrow> True | Some c \<Rightarrow> length c = 16)
     \<and> (\<forall>ptr buf. length buf = FILE_EVENT_PATH_LEN \<longrightarrow>
        length (cx_user_str ctx ptr buf) = FILE_EVENT_PATH_LEN)"

lemma comm_length: "ctx_ok ctx \<Longrightarrow> length (comm_or_zero ctx) = 16"
  by (simp add: ctx_ok_def comm_or_zero_def split: option.splits)

lemma path_length:
  "ctx_ok ctx \<Longrightarrow>
     length (cx_user_str ctx ptr (replicate FILE_EVENT_PATH_LEN 0)) = FILE_EVENT_PATH_LEN"
  by (simp add: ctx_ok_def)

lemma probe_events_ok:
  assumes "ctx_ok ctx"
  shows "snd (vfs_open_probe config ctx) = Some te \<Longrightarrow> trace_event_ok te"
    and "snd (block_rq_issue ins config m ctx) = Some be \<Longrightarrow> block_event_ok be"
    and "snd (block_rq_complete get rem config m ctx) = Some le \<Longrightarrow> latency_event_ok le"
    and "capture_file_syscall config ctx kind off = Some fe \<Longrightarrow> temp_file_event_ok fe"
  using assms
  by (auto simp: vfs_open_probe_def trace_event_ok_def block_rq_issue_def block_event_ok_def
      block_rq_complete_eq latency_event_def latency_event_ok_def capture_file_syscall_def
      temp_file_event_ok_def comm_length path_length Let_def split: option.splits if_splits)

lemma filter_config_arrays: "filter_config_ok (loader_filter_config args d)"
  by (simp add: filter_config_ok_def loader_filter_config_def name_field_def Let_def)

text \<open>
  C27. What one side writes the other side reads: each event a kernel program submits is, read through
  the loader's pointer cast from its bytes in the ring buffer, the same event, whatever bytes lie
  between its fields; and so is the filter the loader writes for the programs.
\<close>

theorem events_survive_ring_buffers:
  assumes "ctx_ok ctx"
  shows "(\<forall>e. snd (vfs_open_probe config ctx) = Some e \<longrightarrow>
        trace_event_at (trace_event_bytes junk e) = e)
    \<and> (\<forall>e. snd (block_rq_issue ins config m ctx) = Some e \<longrightarrow>
        block_event_at (block_event_bytes junk e) = e)
    \<and> (\<forall>e. snd (block_rq_complete get rem config m ctx) = Some e \<longrightarrow>
        latency_event_at (latency_event_bytes junk e) = e)
    \<and> (\<forall>e. sys_enter_openat config ctx = Some e \<or> sys_enter_unlinkat config ctx = Some e \<longrightarrow>
        temp_file_event_at (temp_file_event_bytes junk e) = e)
    \<and> filter_config_at (filter_config_bytes junk (loader_filter_config args d)) =
        loader_filter_config args d"
  by (auto simp: sys_enter_openat_def sys_enter_unlinkat_def
      intro!: trace_event_wire block_event_wire latency_event_wire temp_file_event_wire
        filter_config_wire filter_config_arrays
      dest: probe_events_ok [OF assms])

theorem events_survive_ring_buffers_witness:
  "block_event_at (block_event_bytes (\<lambda>i. of_nat i)
      \<lparr>be_dev = 0x800010, be_pid = 10, be_bytes = 0, be_comm = replicate 16 0\<rparr>) =
     \<lparr>be_dev = 0x800010, be_pid = 10, be_bytes = 0, be_comm = replicate 16 0\<rparr>"
proof -
  let ?e = "\<lparr>be_dev = 0x800010, be_pid = 10, be_bytes = 0, be_comm = replicate 16 (0::u8)\<rparr>"
  have ok: "ctx_ok (example_ctx 5)" by (simp add: ctx_ok_def example_ctx_def FILE_EVENT_PATH_LEN_def)
  have "snd (block_rq_issue (\<lambda>m _ _. m) (Some example_filter) () (example_ctx 5)) = Some ?e"
    by (simp add: block_rq_issue_def example_filter_def example_ctx_def comm_or_zero_def
        BLOCK_RQ_OFF_DEV_def BLOCK_RQ_OFF_SECTOR_def BLOCK_RQ_ISSUE_OFF_BYTES_def Let_def)
  then show ?thesis
    by (rule mp [OF spec [OF conjunct1 [OF conjunct2 [OF events_survive_ring_buffers [OF ok]]]]])
qed

section \<open>The system\<close>

datatype kernel_event =
    K_Open probe_ctx
  | K_Issue probe_ctx
  | K_Complete probe_ctx
  | K_Openat probe_ctx
  | K_Unlinkat probe_ctx

datatype loader_arm =
    Ready_Events
  | Ready_Blocks
  | Ready_Latency
  | Ready_Temp "nat \<Rightarrow> datetime"
  | Rule_Tick datetime
  | Ctrl_C
  | Poll_Error string

text \<open>A kernel event comes with what the memory of the ring buffer held between the fields.\<close>

datatype agent_event =
    Kernel kernel_event "nat \<Rightarrow> u8"
  | Loader loader_arm

record 'm bpf_ops =
  op_empty :: 'm
  op_get :: "'m \<Rightarrow> rq_key \<Rightarrow> u64 option"
  op_ins :: "'m \<Rightarrow> rq_key \<Rightarrow> u64 \<Rightarrow> 'm"
  op_rem :: "'m \<Rightarrow> rq_key \<Rightarrow> 'm"

record 'm agent_state =
  ag_inflight :: 'm
  ag_events :: "u8 list list"
  ag_block_events :: "u8 list list"
  ag_latency_events :: "u8 list list"
  ag_temp_events :: "u8 list list"
  ag_loader :: loader_state

definition agent_init :: "'m bpf_ops \<Rightarrow> 'm agent_state" where
  "agent_init ops =
     \<lparr>ag_inflight = op_empty ops, ag_events = [], ag_block_events = [], ag_latency_events = [],
      ag_temp_events = [], ag_loader = loader_init\<rparr>"

definition submit :: "('e \<Rightarrow> u8 list) \<Rightarrow> 'e option \<Rightarrow> u8 list list \<Rightarrow> u8 list list" where
  "submit bytes entry ring = (case entry of None \<Rightarrow> ring | Some e \<Rightarrow> ring @ [bytes e])"

fun kernel_step ::
  "'m bpf_ops \<Rightarrow> filter_config option \<Rightarrow> (nat \<Rightarrow> u8) \<Rightarrow> 'm agent_state \<Rightarrow> kernel_event
   \<Rightarrow> 'm agent_state" where
  "kernel_step ops config junk st (K_Open ctx) =
     st\<lparr>ag_events := submit (trace_event_bytes junk) (snd (vfs_open_probe config ctx)) (ag_events st)\<rparr>"
| "kernel_step ops config junk st (K_Issue ctx) =
     (let r = block_rq_issue (op_ins ops) config (ag_inflight st) ctx in
      st\<lparr>ag_inflight := fst r,
         ag_block_events := submit (block_event_bytes junk) (snd r) (ag_block_events st)\<rparr>)"
| "kernel_step ops config junk st (K_Complete ctx) =
     (let r = block_rq_complete (op_get ops) (op_rem ops) config (ag_inflight st) ctx in
      st\<lparr>ag_inflight := fst r,
         ag_latency_events := submit (latency_event_bytes junk) (snd r) (ag_latency_events st)\<rparr>)"
| "kernel_step ops config junk st (K_Openat ctx) =
     st\<lparr>ag_temp_events :=
       submit (temp_file_event_bytes junk) (sys_enter_openat config ctx) (ag_temp_events st)\<rparr>"
| "kernel_step ops config junk st (K_Unlinkat ctx) =
     st\<lparr>ag_temp_events :=
       submit (temp_file_event_bytes junk) (sys_enter_unlinkat config ctx) (ag_temp_events st)\<rparr>"

text \<open>What an arm hands to its handler, and the buffer it leaves empty.\<close>

fun arm_input :: "'m agent_state \<Rightarrow> loader_arm \<Rightarrow> loader_event" where
  "arm_input st Ready_Events = Ev_Trace (map trace_event_at (ag_events st))"
| "arm_input st Ready_Blocks = Ev_Block (map block_event_at (ag_block_events st))"
| "arm_input st Ready_Latency = Ev_Latency (map latency_event_at (ag_latency_events st))"
| "arm_input st (Ready_Temp now) =
     Ev_Temp (zip (map temp_file_event_at (ag_temp_events st))
       (map now [0..<length (ag_temp_events st)]))"
| "arm_input st (Rule_Tick now) = Ev_Tick now"
| "arm_input st Ctrl_C = Ev_Ctrl_C"
| "arm_input st (Poll_Error which) = Ev_Poll_Error which"

fun drain :: "loader_arm \<Rightarrow> 'm agent_state \<Rightarrow> 'm agent_state" where
  "drain Ready_Events st = st\<lparr>ag_events := []\<rparr>"
| "drain Ready_Blocks st = st\<lparr>ag_block_events := []\<rparr>"
| "drain Ready_Latency st = st\<lparr>ag_latency_events := []\<rparr>"
| "drain (Ready_Temp _) st = st\<lparr>ag_temp_events := []\<rparr>"
| "drain _ st = st"

fun agent_step ::
  "'m bpf_ops \<Rightarrow> filter_config option \<Rightarrow> loader_cfg \<Rightarrow> 'm agent_state \<Rightarrow> agent_event
   \<Rightarrow> 'm agent_state \<times> loader_effect list" where
  "agent_step ops config cfg st (Kernel k junk) = (kernel_step ops config junk st k, [])"
| "agent_step ops config cfg st (Loader arm) =
     (if ls_status (ag_loader st) \<noteq> Running then (st, [])
      else let r = loader_step cfg (ag_loader st) (arm_input st arm)
           in ((drain arm st)\<lparr>ag_loader := fst r\<rparr>, snd r))"

text \<open>The runs of the system: the events so far, the state they lead to and what the loader did.\<close>

inductive agent_run ::
  "'m bpf_ops \<Rightarrow> filter_config option \<Rightarrow> loader_cfg \<Rightarrow> agent_event list \<Rightarrow> 'm agent_state
   \<Rightarrow> loader_effect list \<Rightarrow> bool"
  for ops config cfg where
  run_start: "agent_run ops config cfg [] (agent_init ops) []"
| run_step: "agent_run ops config cfg es st effs \<Longrightarrow> agent_step ops config cfg st e = (st', out) \<Longrightarrow>
     agent_run ops config cfg (es @ [e]) st' (effs @ out)"

section \<open>What the kernel programs emit\<close>

text \<open>
  The events of a run seen from the kernel alone: its block-layer events in order, the latency
  events they give, and the records each other program submits.
\<close>

fun block_tps :: "agent_event list \<Rightarrow> block_tp list" where
  "block_tps [] = []"
| "block_tps (Kernel (K_Issue ctx) _ # es) = Tp_Issue ctx # block_tps es"
| "block_tps (Kernel (K_Complete ctx) _ # es) = Tp_Complete ctx # block_tps es"
| "block_tps (_ # es) = block_tps es"

definition kernel_inflight :: "'m bpf_ops \<Rightarrow> filter_config option \<Rightarrow> agent_event list \<Rightarrow> 'm" where
  "kernel_inflight ops config es =
     after (block_step (op_get ops) (op_ins ops) (op_rem ops) config) (op_empty ops) (block_tps es)"

definition kernel_latencies ::
  "'m bpf_ops \<Rightarrow> filter_config option \<Rightarrow> agent_event list \<Rightarrow> block_io_latency_event list" where
  "kernel_latencies ops config es =
     somes (tick_outs (block_step (op_get ops) (op_ins ops) (op_rem ops) config) (op_empty ops)
       (block_tps es))"

fun traced :: "filter_config option \<Rightarrow> agent_event \<Rightarrow> trace_event option" where
  "traced config (Kernel (K_Open ctx) _) = snd (vfs_open_probe config ctx)"
| "traced config _ = None"

fun captured :: "filter_config option \<Rightarrow> agent_event \<Rightarrow> temp_file_event option" where
  "captured config (Kernel (K_Openat ctx) _) = sys_enter_openat config ctx"
| "captured config (Kernel (K_Unlinkat ctx) _) = sys_enter_unlinkat config ctx"
| "captured config _ = None"

fun observed :: "filter_config option \<Rightarrow> agent_event \<Rightarrow> block_event option" where
  "observed config (Kernel (K_Issue ctx) _) = snd (block_rq_issue (\<lambda>m _ _. m) config () ctx)"
| "observed config _ = None"

fun event_ctx :: "agent_event \<Rightarrow> probe_ctx option" where
  "event_ctx (Kernel (K_Open ctx) _) = Some ctx"
| "event_ctx (Kernel (K_Issue ctx) _) = Some ctx"
| "event_ctx (Kernel (K_Complete ctx) _) = Some ctx"
| "event_ctx (Kernel (K_Openat ctx) _) = Some ctx"
| "event_ctx (Kernel (K_Unlinkat ctx) _) = Some ctx"
| "event_ctx (Loader _) = None"

definition kernel_ok :: "agent_event list \<Rightarrow> bool" where
  "kernel_ok es \<longleftrightarrow> (\<forall>e\<in>set es. case event_ctx e of None \<Rightarrow> True | Some ctx \<Rightarrow> ctx_ok ctx)"

text \<open>The records a list of loader events delivers.\<close>

fun latency_inputs :: "loader_event list \<Rightarrow> block_io_latency_event list" where
  "latency_inputs [] = []"
| "latency_inputs (Ev_Latency ls # evs) = ls @ latency_inputs evs"
| "latency_inputs (_ # evs) = latency_inputs evs"

fun trace_inputs :: "loader_event list \<Rightarrow> trace_event list" where
  "trace_inputs [] = []"
| "trace_inputs (Ev_Trace ts # evs) = ts @ trace_inputs evs"
| "trace_inputs (_ # evs) = trace_inputs evs"

fun block_inputs :: "loader_event list \<Rightarrow> block_event list" where
  "block_inputs [] = []"
| "block_inputs (Ev_Block bs # evs) = bs @ block_inputs evs"
| "block_inputs (_ # evs) = block_inputs evs"

lemma block_tps_append [simp]: "block_tps (es @ es') = block_tps es @ block_tps es'"
  by (induction es rule: block_tps.induct) simp_all

lemma inputs_append [simp]:
  "latency_inputs (evs @ evs') = latency_inputs evs @ latency_inputs evs'"
  "trace_inputs (evs @ evs') = trace_inputs evs @ trace_inputs evs'"
  "block_inputs (evs @ evs') = block_inputs evs @ block_inputs evs'"
  "temp_events (evs @ evs') = temp_events evs @ temp_events evs'"
proof -
  show "latency_inputs (evs @ evs') = latency_inputs evs @ latency_inputs evs'"
    by (induction evs rule: latency_inputs.induct) simp_all
  show "trace_inputs (evs @ evs') = trace_inputs evs @ trace_inputs evs'"
    by (induction evs rule: trace_inputs.induct) simp_all
  show "block_inputs (evs @ evs') = block_inputs evs @ block_inputs evs'"
    by (induction evs rule: block_inputs.induct) simp_all
  show "temp_events (evs @ evs') = temp_events evs @ temp_events evs'"
    by (induction evs rule: temp_events.induct) simp_all
qed

section \<open>Conservation\<close>

text \<open>
  The invariant of the system: the loader is in the state, and has done, what its loop does on some
  list of events; of each kind of record, those delivered and then those still in the ring
  buffer are the ones the kernel programs emitted, in their order.
\<close>

definition conserved ::
  "'m bpf_ops \<Rightarrow> filter_config option \<Rightarrow> loader_cfg \<Rightarrow> agent_event list \<Rightarrow> 'm agent_state
   \<Rightarrow> loader_effect list \<Rightarrow> loader_event list \<Rightarrow> bool" where
  "conserved ops config cfg es st effs evs \<longleftrightarrow>
     ag_loader st = after (loader_step cfg) loader_init evs
     \<and> effs = concat (tick_outs (loader_step cfg) loader_init evs)
     \<and> ag_inflight st = kernel_inflight ops config es
     \<and> latency_inputs evs @ map latency_event_at (ag_latency_events st) =
         kernel_latencies ops config es
     \<and> map fst (temp_events evs) @ map temp_file_event_at (ag_temp_events st) =
         somes (map (captured config) es)
     \<and> trace_inputs evs @ map trace_event_at (ag_events st) = somes (map (traced config) es)
     \<and> block_inputs evs @ map block_event_at (ag_block_events st) =
         somes (map (observed config) es)"

lemma map_submit:
  "(\<And>e. entry = Some e \<Longrightarrow> at (bytes e) = e) \<Longrightarrow>
     map at (submit bytes entry ring) = map at ring @ somes [entry]"
  by (cases entry) (simp_all add: submit_def)

lemma block_rq_issue_event:
  "snd (block_rq_issue ins config m ctx) = snd (block_rq_issue (\<lambda>m _ _. m) config () ctx)"
  by (simp add: block_rq_issue_def Let_def split: option.split)

lemma kernel_blocks_simps [simp]:
  "kernel_inflight ops config [] = op_empty ops"
  "kernel_latencies ops config [] = []"
  "kernel_inflight ops config (es @ [e]) =
     (case e of
        Kernel (K_Issue ctx) _ \<Rightarrow> fst (block_rq_issue (op_ins ops) config (kernel_inflight ops config es) ctx)
      | Kernel (K_Complete ctx) _ \<Rightarrow>
          fst (block_rq_complete (op_get ops) (op_rem ops) config (kernel_inflight ops config es) ctx)
      | _ \<Rightarrow> kernel_inflight ops config es)"
  "kernel_latencies ops config (es @ [e]) =
     kernel_latencies ops config es @
     (case e of
        Kernel (K_Complete ctx) _ \<Rightarrow> somes
          [snd (block_rq_complete (op_get ops) (op_rem ops) config (kernel_inflight ops config es) ctx)]
      | _ \<Rightarrow> [])"
  by (simp_all add: kernel_inflight_def kernel_latencies_def block_step.simps
      split: agent_event.split kernel_event.split)

lemma event_wire:
  assumes "ctx_ok ctx"
  shows "snd (vfs_open_probe config ctx) = Some te \<Longrightarrow> trace_event_at (trace_event_bytes junk te) = te"
    and "snd (block_rq_issue ins config m ctx) = Some be \<Longrightarrow>
      block_event_at (block_event_bytes junk be) = be"
    and "snd (block_rq_complete get rem config m ctx) = Some le \<Longrightarrow>
      latency_event_at (latency_event_bytes junk le) = le"
    and "sys_enter_openat config ctx = Some fe \<Longrightarrow>
      temp_file_event_at (temp_file_event_bytes junk fe) = fe"
    and "sys_enter_unlinkat config ctx = Some fe \<Longrightarrow>
      temp_file_event_at (temp_file_event_bytes junk fe) = fe"
  by (auto simp: sys_enter_openat_def sys_enter_unlinkat_def
      intro!: trace_event_wire block_event_wire latency_event_wire temp_file_event_wire
      dest: probe_events_ok [OF assms])

lemma conserved_kernel:
  assumes "conserved ops config cfg es st effs evs" and "event_ctx (Kernel k junk) = Some ctx"
    and "ctx_ok ctx"
  shows "conserved ops config cfg (es @ [Kernel k junk]) (kernel_step ops config junk st k) effs evs"
  using assms
  by (cases k)
    (simp_all add: conserved_def Let_def map_submit event_wire block_rq_issue_event [of "op_ins ops"]
      flip: append_assoc)

lemma conserved_arm:
  assumes "conserved ops config cfg es st effs evs"
  shows "conserved ops config cfg (es @ [Loader arm])
    ((drain arm st)\<lparr>ag_loader := fst (loader_step cfg (ag_loader st) (arm_input st arm))\<rparr>)
    (effs @ snd (loader_step cfg (ag_loader st) (arm_input st arm))) (evs @ [arm_input st arm])"
  using assms by (cases arm) (simp_all add: conserved_def)

lemma conserved_idle:
  "conserved ops config cfg es st effs evs \<Longrightarrow>
     conserved ops config cfg (es @ [Loader arm]) st effs evs"
  by (simp add: conserved_def)

lemma agent_run_conserved:
  "agent_run ops config cfg es st effs \<Longrightarrow> kernel_ok es \<Longrightarrow>
     \<exists>evs. conserved ops config cfg es st effs evs"
proof (induction rule: agent_run.induct)
  case run_start
  show ?case by (rule exI [of _ "[]"]) (simp add: conserved_def agent_init_def)
next
  case (run_step es st effs e st' out)
  then obtain evs where evs: "conserved ops config cfg es st effs evs"
    by (auto simp: kernel_ok_def)
  show ?case
  proof (cases e)
    case (Kernel k junk)
    then obtain ctx where "event_ctx e = Some ctx" "ctx_ok ctx"
      using run_step.prems by (cases k) (auto simp: kernel_ok_def)
    with conserved_kernel [OF evs] Kernel run_step.hyps show ?thesis by auto
  next
    case (Loader arm)
    then show ?thesis
      using conserved_arm [OF evs, of arm] conserved_idle [OF evs, of arm] run_step.hyps
      by (auto simp: Let_def split: if_splits)
  qed
qed

text \<open>The step is a function, so every list of events has a run.\<close>

lemma agent_run_exists:
  "agent_run ops config cfg es (after (agent_step ops config cfg) (agent_init ops) es)
     (concat (tick_outs (agent_step ops config cfg) (agent_init ops) es))"
proof (induction es rule: rev_induct)
  case Nil
  show ?case using run_start by simp
next
  case (snoc e es)
  from run_step [OF this, of e] show ?case by (cases "agent_step ops config cfg
      (after (agent_step ops config cfg) (agent_init ops) es) e") simp
qed

section \<open>Behind an alarm\<close>

lemma p50_in_samples: "p50_ns xs = Some ns \<Longrightarrow> ns \<in> set xs"
  by (auto simp: p50_ns_def split: if_splits) (metis length_sort nth_mem set_sort div_less_dividend
      length_greater_0_conv one_less_numeral_iff semiring_norm(76))

lemma breached_sample:
  "fsync_breached args xs \<Longrightarrow> \<exists>x\<in>set xs. sat_mul (la_fsync_threshold_ms args) 1000000 < x"
  by (auto simp: fsync_breached_def dest: p50_in_samples split: option.splits)

lemma on_tick_fired:
  "Eff_Fired m \<in> set (snd (on_tick cfg now c xs)) \<Longrightarrow> fsync_breached (lc_args cfg) xs"
  by (auto simp: on_tick_def Let_def observe_def split: breach_state.splits if_splits)

lemma write_latencies_append: "write_latencies (ls @ ls') = write_latencies ls @ write_latencies ls'"
  by (simp add: write_latencies_def)

lemma loader_step_fired:
  "Eff_Fired m \<in> set (snd (loader_step cfg st ev)) \<Longrightarrow> fsync_breached (lc_args cfg) (ls_samples st)"
  by (cases ev)
    (auto simp: loader_step_def Let_def on_trace_def on_block_def loader_shutdown_def on_temp_def
      on_latency_def dest: on_tick_fired dest!: tick_out_of_step split: if_splits)

lemma loader_step_samples:
  "set (ls_samples (fst (loader_step cfg st ev))) \<subseteq>
     set (ls_samples st) \<union> set (write_latencies (latency_inputs [ev]))"
  by (cases ev) (auto simp: loader_step_def Let_def after_on_latency)

lemma fired_sample:
  "Eff_Fired m \<in> set (concat (tick_outs (loader_step cfg) st evs)) \<Longrightarrow>
     \<exists>x\<in>set (ls_samples st) \<union> set (write_latencies (latency_inputs evs)).
       sat_mul (la_fsync_threshold_ms (lc_args cfg)) 1000000 < x"
proof (induction evs arbitrary: st)
  case (Cons ev evs)
  have split: "latency_inputs (ev # evs) = latency_inputs [ev] @ latency_inputs evs"
    using inputs_append(1) [of "[ev]" evs] by simp
  show ?case
  proof (cases "Eff_Fired m \<in> set (snd (loader_step cfg st ev))")
    case True
    from breached_sample [OF loader_step_fired [OF this]] show ?thesis by auto
  next
    case False
    then have "Eff_Fired m \<in> set (concat (tick_outs (loader_step cfg)
        (fst (loader_step cfg st ev)) evs))"
      using Cons.prems by simp
    from Cons.IH [OF this] loader_step_samples [of cfg st ev] show ?thesis
      unfolding split write_latencies_append by auto
  qed
qed simp

text \<open>Every latency event belongs to a completion among the events of the run.\<close>

lemma kernel_latency_origin:
  "le \<in> set (kernel_latencies ops config es) \<Longrightarrow>
     \<exists>pre ctx junk post. es = pre @ Kernel (K_Complete ctx) junk # post
       \<and> snd (block_rq_complete (op_get ops) (op_rem ops) config (kernel_inflight ops config pre) ctx)
           = Some le"
proof (induction es rule: rev_induct)
  case (snoc e es)
  show ?case
  proof (cases "le \<in> set (kernel_latencies ops config es)")
    case True
    from snoc.IH [OF this] show ?thesis by fastforce
  next
    case False
    with snoc.prems show ?thesis
      by (auto split: agent_event.splits kernel_event.splits option.splits) blast
  qed
qed simp

lemma write_latency_origin:
  "x \<in> set (write_latencies ls) \<Longrightarrow> \<exists>e\<in>set ls. x = le_latency_ns e
     \<and> (le_op_class e = op_class_u8 Op_Write \<or> le_op_class e = op_class_u8 Op_WriteFlush)"
  by (auto simp: write_latencies_def)

lemma threshold_less:
  "sat_mul t 1000000 < x \<longleftrightarrow> min (2 ^ 64 - 1) (unat t * 1000000) < unat x" for t x :: u64
  by (simp add: word_less_nat_alt unat_simps)

section \<open>Behind the reports\<close>

lemma running_no_end:
  assumes "ls_status (after (loader_step cfg) loader_init evs) = Running"
  shows "\<not> (\<exists>ev\<in>set evs. ends_loop ev)"
proof
  assume "\<exists>ev\<in>set evs. ends_loop ev"
  then have ne: "dropWhile (Not \<circ> ends_loop) evs \<noteq> []" by simp
  then obtain ev evs' where drop: "dropWhile (Not \<circ> ends_loop) evs = ev # evs'"
    by (cases "dropWhile (Not \<circ> ends_loop) evs") simp_all
  with hd_dropWhile [OF ne] have "ends_loop ev" by simp
  moreover have "ls_status loader_init = Running" by (simp add: loader_init_def)
  ultimately show False
    using loop_life [of loader_init cfg evs] ending_step [of ev loader_init cfg evs'] drop assms
    by simp
qed

text \<open>The pairs of process and path among captured events, in order.\<close>

definition capture_keys :: "temp_file_event list \<Rightarrow> (u32 \<times> string) list" where
  "capture_keys es =
     filter (\<lambda>k. contains ''pgsql_tmp'' (snd k))
       (map (\<lambda>e. (fe_pid e, path_from_event (fe_path e))) es)"

lemma spill_keys_captures: "spill_keys ts = capture_keys (map fst ts)"
  by (simp add: spill_keys_def capture_keys_def comp_def)

lemma capture_keys_append: "capture_keys (es @ es') = capture_keys es @ capture_keys es'"
  by (simp add: capture_keys_def)

lemma conserved_spills:
  assumes "conserved ops config cfg es st effs evs" and "ls_status (ag_loader st) = Running"
  shows "fresh {} (capture_keys (somes (map (captured config) es))) =
    spills_reported effs
    @ fresh (set (spill_keys (temp_events evs)))
        (capture_keys (map temp_file_event_at (ag_temp_events st)))"
proof -
  from assms have all: "somes (map (captured config) es) =
      map fst (temp_events evs) @ map temp_file_event_at (ag_temp_events st)"
    and effs: "effs = concat (tick_outs (loader_step cfg) loader_init evs)"
    and no_end: "\<not> (\<exists>ev\<in>set evs. ends_loop ev)"
    by (simp_all add: conserved_def running_no_end)
  have init: "ls_status loader_init = Running" "ls_seen_spills loader_init = {}"
    by (simp_all add: loader_init_def)
  show ?thesis
    unfolding all effs loader_spills [OF no_end init(1)] init(2) capture_keys_append fresh_append
      spill_keys_captures
    by simp
qed

text \<open>The numbers of samples the ticks report.\<close>

fun tick_size :: "loader_effect \<Rightarrow> nat list" where
  "tick_size (Eff_Rule_Tick n _ _ _ _) = [n]"
| "tick_size _ = []"

definition tick_sizes :: "loader_effect list \<Rightarrow> nat list" where
  "tick_sizes effs = concat (map tick_size effs)"

lemma tick_sizes_simps [simp]:
  "tick_sizes [] = []"
  "tick_sizes (x # xs) = tick_size x @ tick_sizes xs"
  "tick_sizes (xs @ ys) = tick_sizes xs @ tick_sizes ys"
  by (simp_all add: tick_sizes_def)

lemma other_sizes:
  "tick_sizes (map on_trace ts) = []" "tick_sizes (map on_block bs) = []"
  "tick_sizes (concat (tick_outs (on_temp cfg) seen es)) = []"
  "tick_sizes (concat (tick_outs (on_latency cfg) samples ls)) = []"
  "tick_sizes (snd (on_tick cfg now c samples)) = [length samples]"
proof -
  show "tick_sizes (map on_trace ts) = []" by (induction ts) (simp_all add: on_trace_def)
  show "tick_sizes (map on_block bs) = []" by (induction bs) (simp_all add: on_block_def)
  show "tick_sizes (concat (tick_outs (on_temp cfg) seen es)) = []"
    by (induction es arbitrary: seen) (simp_all add: on_temp_def Let_def)
  show "tick_sizes (concat (tick_outs (on_latency cfg) samples ls)) = []"
    by (induction ls arbitrary: samples) (simp_all add: on_latency_def)
  show "tick_sizes (snd (on_tick cfg now c samples)) = [length samples]"
    by (simp add: on_tick_def Let_def split: breach_state.split)
qed

lemma loop_tick_sizes:
  assumes "\<not> (\<exists>ev\<in>set evs. ends_loop ev)" and "ls_status st = Running"
  shows "tick_sizes (concat (tick_outs (loader_step cfg) st evs)) =
    map length (fst (split_ticks (ls_samples st) evs))"
  using assms
proof (induction evs arbitrary: st)
  case (Cons e evs)
  then show ?case
    by (cases e) (simp_all add: loader_step_def Let_def other_sizes after_on_latency)
qed simp

lemma split_ticks_samples:
  "xs \<in> set (fst (split_ticks acc evs)) \<Longrightarrow>
     set xs \<subseteq> set acc \<union> set (write_latencies (latency_inputs evs))"
  by (induction acc evs rule: split_ticks.induct) (auto simp: write_latencies_append)

lemma breached_all:
  "xs \<noteq> [] \<Longrightarrow> \<forall>x\<in>set xs. sat_mul (la_fsync_threshold_ms args) 1000000 < x \<Longrightarrow>
     fsync_breached args xs"
  by (auto simp: fsync_breached_def dest: p50_in_samples split: option.splits)
    (simp add: p50_ns_def)

lemma conserved_slow:
  assumes con: "conserved ops config cfg es st effs evs" and run: "ls_status (ag_loader st) = Running"
    and slow: "\<forall>x\<in>set (write_latencies (kernel_latencies ops config es)).
      sat_mul (la_fsync_threshold_ms (lc_args cfg)) 1000000 < x"
  shows "run_len (map (\<lambda>n. 0 < n) (tick_sizes effs)) \<le>
    run_len (map (fsync_breached (lc_args cfg)) (fst (split_ticks [] evs)))"
proof -
  have no_end: "\<not> (\<exists>ev\<in>set evs. ends_loop ev)" and init: "ls_status loader_init = Running"
    and effs: "effs = concat (tick_outs (loader_step cfg) loader_init evs)"
    using con run by (simp_all add: conserved_def running_no_end loader_init_def)
  from con have "set (latency_inputs evs) \<subseteq> set (kernel_latencies ops config es)"
    by (simp add: conserved_def) (metis set_append Un_upper1)
  then have "set (write_latencies (latency_inputs evs)) \<subseteq>
      set (write_latencies (kernel_latencies ops config es))"
    by (auto simp: write_latencies_def)
  then have "fsync_breached (lc_args cfg) xs"
    if "xs \<in> set (fst (split_ticks [] evs))" "xs \<noteq> []" for xs
    using split_ticks_samples [OF that(1)] slow by (intro breached_all that(2)) auto
  then have "\<forall>xs\<in>set (fst (split_ticks [] evs)). xs \<noteq> [] \<longrightarrow> fsync_breached (lc_args cfg) xs"
    by blast
  from run_len_mono [OF this] show ?thesis
    unfolding effs loop_tick_sizes [OF no_end init] by (simp add: loader_init_def comp_def)
qed

lemma conserved_fired:
  assumes con: "conserved ops config cfg es st effs evs" and fired: "Eff_Fired m \<in> set effs"
  shows "\<exists>le\<in>set (kernel_latencies ops config es).
    sat_mul (la_fsync_threshold_ms (lc_args cfg)) 1000000 < le_latency_ns le
    \<and> (le_op_class le = op_class_u8 Op_Write \<or> le_op_class le = op_class_u8 Op_WriteFlush)"
proof -
  from con fired have "Eff_Fired m \<in> set (concat (tick_outs (loader_step cfg) loader_init evs))"
    by (simp add: conserved_def)
  from fired_sample [OF this] obtain x where "x \<in> set (write_latencies (latency_inputs evs))"
    and "sat_mul (la_fsync_threshold_ms (lc_args cfg)) 1000000 < x"
    by (auto simp: loader_init_def)
  moreover from con have "set (latency_inputs evs) \<subseteq> set (kernel_latencies ops config es)"
    by (simp add: conserved_def) (metis set_append Un_upper1)
  ultimately show ?thesis by (blast dest: write_latency_origin)
qed

lemma pending_latency:
  assumes map: "bpf_hash_map (op_empty ops) (op_get ops) (op_ins ops) (op_rem ops) cap"
    and le: "le \<in> set (kernel_latencies ops config es)"
  shows "\<exists>pre ctx junk post k t. es = pre @ Kernel (K_Complete ctx) junk # post
    \<and> rq_of config ctx = Some k \<and> pending_since config k (block_tps pre) = Some t
    \<and> le = latency_event ctx k t"
proof -
  from kernel_latency_origin [OF le] obtain pre ctx junk post
    where es: "es = pre @ Kernel (K_Complete ctx) junk # post"
      and out: "snd (block_rq_complete (op_get ops) (op_rem ops) config
        (kernel_inflight ops config pre) ctx) = Some le"
    by blast
  from out obtain k t where "rq_of config ctx = Some k"
    and "op_get ops (kernel_inflight ops config pre) k = Some t" and "le = latency_event ctx k t"
    by (auto simp: block_rq_complete_eq split: option.splits if_splits)
  with bpf_hash_map.get_pending [OF map, of config "block_tps pre" k t] es show ?thesis
    unfolding kernel_inflight_def by blast
qed


section \<open>Properties\<close>

text \<open>\<open>INFLIGHT\<close> as an association list, and a run of one slow write on it.\<close>

definition inflight_ops :: "(rq_key \<times> u64) list bpf_ops" where
  "inflight_ops =
     \<lparr>op_empty = [], op_get = map_of, op_ins = inflight_insert INFLIGHT_MAX_ENTRIES,
      op_rem = inflight_remove\<rparr>"

text \<open>Programs first, then the loader: what they emitted is what the loader is given.\<close>

lemma kernel_prefix:
  "kernel_ok es \<Longrightarrow> \<forall>e\<in>set es. event_ctx e \<noteq> None \<Longrightarrow>
     \<exists>st. agent_run ops config cfg es st [] \<and> conserved ops config cfg es st [] []"
proof (induction es rule: rev_induct)
  case Nil
  show ?case
    by (intro exI [of _ "agent_init ops"] conjI run_start) (simp add: conserved_def agent_init_def)
next
  case (snoc e es)
  then obtain st where st: "agent_run ops config cfg es st []" "conserved ops config cfg es st [] []"
    by (auto simp: kernel_ok_def)
  from snoc.prems obtain ctx where ctx: "event_ctx e = Some ctx" "ctx_ok ctx"
    by (auto simp: kernel_ok_def)
  then obtain k junk where e: "e = Kernel k junk" by (cases e) simp_all
  show ?case
    using run_step [OF st(1), of e] conserved_kernel [OF st(2)] ctx
    by (intro exI [of _ "kernel_step ops config junk st k"]) (simp add: e)
qed

lemma run_arm:
  assumes "agent_run ops config cfg es st effs" and "conserved ops config cfg es st effs evs"
    and "ls_status (ag_loader st) = Running"
  shows "agent_run ops config cfg (es @ [Loader arm])
      ((drain arm st)\<lparr>ag_loader := fst (loader_step cfg (ag_loader st) (arm_input st arm))\<rparr>)
      (effs @ snd (loader_step cfg (ag_loader st) (arm_input st arm)))"
  by (rule run_step [OF assms(1)]) (simp add: assms(3) Let_def)

lemma first_interval:
  assumes "kernel_ok es" and "\<forall>e\<in>set es. event_ctx e \<noteq> None"
  shows "\<exists>st effs. agent_run ops config cfg (es @ [Loader Ready_Latency, Loader (Rule_Tick now)]) st effs
    \<and> ls_status (ag_loader st) = Running
    \<and> effs = concat (tick_outs (loader_step cfg) loader_init
        [Ev_Latency (kernel_latencies ops config es), Ev_Tick now])"
proof -
  from kernel_prefix [OF assms] obtain st where run: "agent_run ops config cfg es st []"
    and con: "conserved ops config cfg es st [] []" by blast
  have st: "ag_loader st = loader_init"
    "map latency_event_at (ag_latency_events st) = kernel_latencies ops config es"
    using con by (simp_all add: conserved_def)
  have live: "ls_status loader_init = Running" by (simp add: loader_init_def)
  let ?st = "(drain Ready_Latency st)\<lparr>ag_loader := fst (loader_step cfg (ag_loader st)
    (arm_input st Ready_Latency))\<rparr>"
  note run1 = run_arm [OF run con, of Ready_Latency]
    and con1 = conserved_arm [OF con, of Ready_Latency]
  have live1: "ls_status (ag_loader ?st) = Running" by (simp add: st live running_step)
  from run_arm [OF run1 con1 live1, of "Rule_Tick now"] show ?thesis
    by (intro exI conjI) (auto simp: st live running_step)
qed

lemma inflight_ops_map:
  "bpf_hash_map (op_empty inflight_ops) (op_get inflight_ops) (op_ins inflight_ops)
     (op_rem inflight_ops) INFLIGHT_MAX_ENTRIES"
  by (simp add: inflight_ops_def inflight.bpf_hash_map_axioms)

definition example_now :: datetime where
  "example_now = \<lparr>dt_timestamp = 7, dt_subsec_nanos = 0\<rparr>"

definition slow_io :: "agent_event list" where
  "slow_io =
     [Kernel (K_Issue (example_ctx 1500)) (\<lambda>_. 0), Kernel (K_Complete (example_ctx 20001500)) (\<lambda>_. 7)]"

lemma slow_io_ok: "kernel_ok slow_io" "\<forall>e\<in>set slow_io. event_ctx e \<noteq> None"
  by (simp_all add: kernel_ok_def slow_io_def ctx_ok_def example_ctx_def FILE_EVENT_PATH_LEN_def)

lemma slow_io_latencies:
  "write_latencies (kernel_latencies inflight_ops (Some example_filter) slow_io) = [20000000]"
  by (simp add: kernel_latencies_def slow_io_def inflight_ops_def example_simps
      write_latencies_def latency_event_def sat_sub_def classify_rwbs_def b_R_def b_W_def b_F_def
      b_A_def BLOCK_RQ_OFF_RWBS_def)

lemma first_capture:
  assumes "kernel_ok es" and "\<forall>e\<in>set es. event_ctx e \<noteq> None"
  shows "\<exists>st effs. agent_run ops config cfg (es @ [Loader (Ready_Temp now)]) st effs
    \<and> ls_status (ag_loader st) = Running \<and> ag_temp_events st = []"
proof -
  from kernel_prefix [OF assms] obtain st where run: "agent_run ops config cfg es st []"
    and con: "conserved ops config cfg es st [] []" by blast
  have st: "ag_loader st = loader_init" and live: "ls_status loader_init = Running"
    using con by (simp_all add: conserved_def loader_init_def)
  from run_arm [OF run con, of "Ready_Temp now"] show ?thesis
    by (intro exI conjI) (auto simp: st live running_step)
qed

text \<open>
  C16. Nothing is lost, invented or reordered between the kernel and the loader: in every run of the
  system, whatever way programs and arms interleave, the loader has done exactly what its loop does
  on some list of deliveries, and for each of the four kinds of record the records delivered,
  followed by those still in the ring buffer, are the ones the kernel programs submitted, in order.
\<close>

theorem agent_run_conserves:
  assumes "agent_run ops config cfg es st effs" and "kernel_ok es"
  shows "\<exists>evs. ag_loader st = after (loader_step cfg) loader_init evs
    \<and> effs = concat (tick_outs (loader_step cfg) loader_init evs)
    \<and> latency_inputs evs @ map latency_event_at (ag_latency_events st) =
        kernel_latencies ops config es
    \<and> map fst (temp_events evs) @ map temp_file_event_at (ag_temp_events st) =
        somes (map (captured config) es)
    \<and> trace_inputs evs @ map trace_event_at (ag_events st) = somes (map (traced config) es)
    \<and> block_inputs evs @ map block_event_at (ag_block_events st) = somes (map (observed config) es)"
  using agent_run_conserved [OF assms] unfolding conserved_def by blast

theorem agent_run_conserves_witness:
  "\<exists>st effs evs.
     agent_run inflight_ops (Some example_filter) example_loader
       (slow_io @ [Loader Ready_Latency, Loader (Rule_Tick example_now)]) st effs
     \<and> effs = concat (tick_outs (loader_step example_loader) loader_init evs)
     \<and> latency_inputs evs @ map latency_event_at (ag_latency_events st) =
         kernel_latencies inflight_ops (Some example_filter)
           (slow_io @ [Loader Ready_Latency, Loader (Rule_Tick example_now)])"
proof -
  let ?es = "slow_io @ [Loader Ready_Latency, Loader (Rule_Tick example_now)]"
  from first_interval [OF slow_io_ok] obtain st effs where run:
    "agent_run inflight_ops (Some example_filter) example_loader ?es st effs" by blast
  have "kernel_ok ?es" using slow_io_ok(1) by (simp add: kernel_ok_def)
  from agent_run_conserves [OF run this] run show ?thesis by blast
qed

text \<open>
  C17. Every fsync alarm has a slow request behind it: when the loader reports the fsync-jitter rule,
  the kernel completed a write or flush request of the filtered device that had been issued, and not
  completed, more than the threshold before (in nanoseconds, the threshold capped at \<open>u64::MAX\<close>).
\<close>

theorem fsync_alarm_is_real:
  assumes "bpf_hash_map (op_empty ops) (op_get ops) (op_ins ops) (op_rem ops) cap"
    and "agent_run ops config cfg es st effs" and "kernel_ok es" and "Eff_Fired m \<in> set effs"
  shows "\<exists>pre ctx junk post k t. es = pre @ Kernel (K_Complete ctx) junk # post
    \<and> rq_of config ctx = Some k \<and> pending_since config k (block_tps pre) = Some t
    \<and> min (2 ^ 64 - 1) (unat (la_fsync_threshold_ms (lc_args cfg)) * 1000000)
        < unat (cx_ktime_ns ctx) - unat t
    \<and> (le_op_class (latency_event ctx k t) = op_class_u8 Op_Write
       \<or> le_op_class (latency_event ctx k t) = op_class_u8 Op_WriteFlush)"
proof -
  from agent_run_conserved [OF assms(2,3)] obtain evs where
    "conserved ops config cfg es st effs evs" ..
  from conserved_fired [OF this assms(4)] obtain le where le: "le \<in> set (kernel_latencies ops config es)"
    and slow: "sat_mul (la_fsync_threshold_ms (lc_args cfg)) 1000000 < le_latency_ns le"
    and cls: "le_op_class le = op_class_u8 Op_Write \<or> le_op_class le = op_class_u8 Op_WriteFlush"
    by blast
  from pending_latency [OF assms(1) le] obtain pre ctx junk post k t
    where "es = pre @ Kernel (K_Complete ctx) junk # post" "rq_of config ctx = Some k"
      "pending_since config k (block_tps pre) = Some t" and ev: "le = latency_event ctx k t" by blast
  moreover have "le_latency_ns (latency_event ctx k t) = sat_sub (cx_ktime_ns ctx) t"
    by (simp add: latency_event_def)
  then have "min (2 ^ 64 - 1) (unat (la_fsync_threshold_ms (lc_args cfg)) * 1000000)
      < unat (cx_ktime_ns ctx) - unat t"
    using slow by (simp only: threshold_less ev unat_sat_sub)
  ultimately show ?thesis using cls by blast
qed

lemma slow_io_reported:
  assumes effs: "effs = concat (tick_outs (loader_step example_loader) loader_init
      [Ev_Latency (kernel_latencies inflight_ops (Some example_filter) slow_io), Ev_Tick now])"
  shows "\<exists>m. Eff_Fired m \<in> set effs"
proof -
  have "max 1 (unat (la_fsync_fire_after (lc_args example_loader))) \<le>
      run_len (map (fsync_breached (lc_args example_loader)) (fst (split_ticks []
        [Ev_Latency (kernel_latencies inflight_ops (Some example_filter) slow_io), Ev_Tick now])))"
    by (simp add: slow_io_latencies example_loader_def loader_setup_def example_args_def
        fsync_breached_def p50_ns_def sat_mul_def run_len_def)
  from slow_storage_is_reported [OF _ this] show ?thesis unfolding effs by auto
qed

theorem fsync_alarm_is_real_witness:
  "\<exists>pre ctx junk post. slow_io @ [Loader Ready_Latency, Loader (Rule_Tick example_now)] =
     pre @ Kernel (K_Complete ctx) junk # post
     \<and> (\<exists>t. 10 * 1000000 < unat (cx_ktime_ns ctx) - unat (t :: u64))"
proof -
  let ?es = "slow_io @ [Loader Ready_Latency, Loader (Rule_Tick example_now)]"
  from first_interval [OF slow_io_ok] obtain st effs where run:
    "agent_run inflight_ops (Some example_filter) example_loader ?es st effs"
    and effs: "effs = concat (tick_outs (loader_step example_loader) loader_init
      [Ev_Latency (kernel_latencies inflight_ops (Some example_filter) slow_io),
       Ev_Tick example_now])" by blast
  from slow_io_reported [OF effs] obtain m where fired: "Eff_Fired m \<in> set effs" ..
  have ok: "kernel_ok ?es" using slow_io_ok(1) by (simp add: kernel_ok_def)
  have "la_fsync_threshold_ms (lc_args example_loader) = 10"
    by (simp add: example_loader_def loader_setup_def example_args_def)
  with fsync_alarm_is_real [OF inflight_ops_map run ok fired] show ?thesis by fastforce
qed

text \<open>
  C18. Slow storage is reported from end to end: while every write or flush the kernel times takes
  longer than the threshold, as soon as the last \<open>max 1 fire_after\<close> ticks (or more) had samples, the
  running loader has reported the fsync-jitter rule, and to the emitter when there is one.
\<close>

theorem slow_device_is_reported:
  assumes "agent_run ops config cfg es st effs" and "kernel_ok es"
    and "ls_status (ag_loader st) = Running"
    and "\<forall>x\<in>set (write_latencies (kernel_latencies ops config es)).
      min (2 ^ 64 - 1) (unat (la_fsync_threshold_ms (lc_args cfg)) * 1000000) < unat x"
    and "max 1 (unat (la_fsync_fire_after (lc_args cfg))) \<le>
      run_len (map (\<lambda>n. 0 < n) (tick_sizes effs))"
  shows "\<exists>f. f_rule_id f = ''storage.wal.fsync.jitter'' \<and> Eff_Fired (f_summary f) \<in> set effs
    \<and> (lc_log_emitter cfg \<longrightarrow> Eff_Emit f \<in> set effs)"
proof -
  from agent_run_conserved [OF assms(1,2)] obtain evs where
    con: "conserved ops config cfg es st effs evs" ..
  from con assms(3) have no_end: "\<not> (\<exists>ev\<in>set evs. ends_loop ev)"
    and effs: "effs = concat (tick_outs (loader_step cfg) loader_init evs)"
    by (simp_all add: conserved_def running_no_end)
  note len = order_trans [OF assms(5) conserved_slow [OF con assms(3)
    assms(4) [folded threshold_less]]]
  from slow_storage_is_reported [OF no_end len] show ?thesis unfolding effs .
qed

theorem slow_device_is_reported_witness:
  "\<exists>st effs. agent_run inflight_ops (Some example_filter) example_loader
     (slow_io @ [Loader Ready_Latency, Loader (Rule_Tick example_now)]) st effs
     \<and> (\<exists>f :: finding. f_rule_id f = ''storage.wal.fsync.jitter''
          \<and> Eff_Fired (f_summary f) \<in> set effs)"
proof -
  let ?es = "slow_io @ [Loader Ready_Latency, Loader (Rule_Tick example_now)]"
  from first_interval [OF slow_io_ok] obtain st effs where run:
    "agent_run inflight_ops (Some example_filter) example_loader ?es st effs"
    and live: "ls_status (ag_loader st) = Running"
    and effs: "effs = concat (tick_outs (loader_step example_loader) loader_init
      [Ev_Latency (kernel_latencies inflight_ops (Some example_filter) slow_io),
       Ev_Tick example_now])" by blast
  have ok: "kernel_ok ?es" using slow_io_ok(1) by (simp add: kernel_ok_def)
  have "kernel_latencies inflight_ops (Some example_filter) ?es =
      kernel_latencies inflight_ops (Some example_filter) slow_io"
    by (simp add: kernel_latencies_def)
  then have slow: "\<forall>x\<in>set (write_latencies (kernel_latencies inflight_ops (Some example_filter) ?es)).
      min (2 ^ 64 - 1) (unat (la_fsync_threshold_ms (lc_args example_loader)) * 1000000) < unat x"
    by (simp add: slow_io_latencies example_loader_def loader_setup_def example_args_def)
  have cfg: "la_fsync_fire_after (lc_args example_loader) = 1"
    by (simp add: example_loader_def loader_setup_def example_args_def)
  have "tick_sizes effs = [1]"
    unfolding effs
    by (subst loop_tick_sizes) (simp_all add: loader_init_def slow_io_latencies)
  then have len: "max 1 (unat (la_fsync_fire_after (lc_args example_loader))) \<le>
      run_len (map (\<lambda>n. 0 < n) (tick_sizes effs))"
    by (simp add: cfg run_len_def)
  from slow_device_is_reported [OF run ok live slow len] run show ?thesis by blast
qed

text \<open>
  C22. Temp files from end to end: while the loader runs, the spills it has reported are the first of
  the files the syscall programs captured, one report for each pair of process and path whose path
  names \<open>pgsql_tmp\<close>, in order and without repetition; once the ring buffer is read, all of them.
\<close>

theorem agent_spills_exact:
  assumes "agent_run ops config cfg es st effs" and "kernel_ok es"
    and "ls_status (ag_loader st) = Running"
  shows "prefix (spills_reported effs) (fresh {} (capture_keys (somes (map (captured config) es))))
    \<and> distinct (spills_reported effs)
    \<and> (ag_temp_events st = [] \<longrightarrow>
        spills_reported effs = fresh {} (capture_keys (somes (map (captured config) es))))"
proof -
  from agent_run_conserved [OF assms(1,2)] obtain evs where
    "conserved ops config cfg es st effs evs" ..
  note eq = conserved_spills [OF this assms(3)]
  have "distinct (fresh {} (capture_keys (somes (map (captured config) es))))"
    by (rule distinct_fresh)
  then show ?thesis unfolding eq by (simp add: capture_keys_def)
qed

definition spill_open :: agent_event where
  "spill_open = Kernel (K_Openat ((example_ctx 1000)
     \<lparr>cx_user_str := (\<lambda>ptr buf. take (length buf) (fe_path tmp_event @ buf))\<rparr>)) (\<lambda>_. 3)"

theorem agent_spills_exact_witness:
  "\<exists>st effs. agent_run inflight_ops (Some example_filter) example_loader
     [spill_open, spill_open, Loader (Ready_Temp (\<lambda>_. example_now))] st effs
     \<and> spills_reported effs = [(10, ''pgsql_tmp'')]"
proof -
  let ?es = "[spill_open, spill_open]"
  let ?all = "?es @ [Loader (Ready_Temp (\<lambda>_. example_now))]"
  have ok: "kernel_ok ?es" "\<forall>e\<in>set ?es. event_ctx e \<noteq> None"
    by (simp_all add: kernel_ok_def spill_open_def ctx_ok_def example_ctx_def tmp_event_def
        FILE_EVENT_PATH_LEN_def)
  from first_capture [OF ok] obtain st effs where run:
    "agent_run inflight_ops (Some example_filter) example_loader ?all st effs"
    and live: "ls_status (ag_loader st) = Running" and read: "ag_temp_events st = []" by blast
  have all_ok: "kernel_ok ?all" using ok(1) by (simp add: kernel_ok_def)
  have path: "path_from_event (fe_path tmp_event) = ''pgsql_tmp''"
    by (simp add: path_from_event_def tmp_event_def) code_simp
  have capture: "captured (Some example_filter) spill_open = Some \<lparr>fe_pid = 10, fe_syscall = 0,
      fe_pad = replicate 3 0, fe_bytes = 0, fe_query_hash = 0, fe_comm = replicate 16 0,
      fe_path = fe_path tmp_event\<rparr>"
    by (simp add: spill_open_def sys_enter_openat_def capture_file_syscall_def example_filter_def
        example_ctx_def comm_or_zero_def FILE_EVENT_PATH_LEN_def tmp_event_def)
  have tmp: "contains ''pgsql_tmp'' ''pgsql_tmp''" by code_simp
  have "spills_reported effs = fresh {} (capture_keys (somes (map (captured (Some example_filter)) ?all)))"
    using agent_spills_exact [OF run all_ok live] read by blast
  then have "spills_reported effs = [(10, ''pgsql_tmp'')]"
    by (simp add: capture capture_keys_def path tmp)
  with run show ?thesis by auto
qed

end
