(* ===== verification/Agent_Rings.thy ===== *)
theory Agent_Rings
  imports Agent_System
begin

text \<open>
  The sizes of the four ring buffers (\<open>crates/pgsleuth-ebpf/src/main.rs\<close>) and what follows from them:
  when a reservation must succeed, and that no spilled file is missed by a loader that keeps up.
\<close>

section \<open>Sizes\<close>

definition EVENTS_BYTES :: nat where "EVENTS_BYTES = 2 ^ 12"
definition BLOCK_EVENTS_BYTES :: nat where "BLOCK_EVENTS_BYTES = 2 ^ 12"
definition LATENCY_EVENTS_BYTES :: nat where "LATENCY_EVENTS_BYTES = 2 ^ 14"
definition TEMP_FILE_EVENTS_BYTES :: nat where "TEMP_FILE_EVENTS_BYTES = 2 ^ 15"

text \<open>
  A record occupies its bytes and a header of eight, rounded up to a multiple of eight. The kernel
  reserves whenever all unread records and the new one are shorter than the buffer.
\<close>

definition ring_record :: "nat \<Rightarrow> nat" where
  "ring_record n = (n + 15) div 8 * 8"

definition ring_room :: "nat \<Rightarrow> nat \<Rightarrow> u8 list list \<Rightarrow> bool" where
  "ring_room capacity n ring \<longleftrightarrow> sum_list (map (ring_record \<circ> length) ring) + ring_record n < capacity"

fun reserve_honest :: "'m agent_state \<Rightarrow> agent_event \<Rightarrow> bool" where
  "reserve_honest st (Kernel (K_Open ctx) _) \<longleftrightarrow>
     (ring_room EVENTS_BYTES 24 (ag_events st) \<longrightarrow> cx_reserve ctx)"
| "reserve_honest st (Kernel (K_Issue ctx) _) \<longleftrightarrow>
     (ring_room BLOCK_EVENTS_BYTES 28 (ag_block_events st) \<longrightarrow> cx_reserve ctx)"
| "reserve_honest st (Kernel (K_Complete ctx) _) \<longleftrightarrow>
     (ring_room LATENCY_EVENTS_BYTES 24 (ag_latency_events st) \<longrightarrow> cx_reserve ctx)"
| "reserve_honest st (Kernel (K_Openat ctx) _) \<longleftrightarrow>
     (ring_room TEMP_FILE_EVENTS_BYTES 168 (ag_temp_events st) \<longrightarrow> cx_reserve ctx)"
| "reserve_honest st (Kernel (K_Unlinkat ctx) _) \<longleftrightarrow>
     (ring_room TEMP_FILE_EVENTS_BYTES 168 (ag_temp_events st) \<longrightarrow> cx_reserve ctx)"
| "reserve_honest st (Loader _) \<longleftrightarrow> True"

text \<open>The states before each event of a run, with that event.\<close>

fun run_states :: "('s \<Rightarrow> 'e \<Rightarrow> 's \<times> 'o) \<Rightarrow> 's \<Rightarrow> 'e list \<Rightarrow> ('s \<times> 'e) list" where
  "run_states f s [] = []"
| "run_states f s (e # es) = (s, e) # run_states f (fst (f s e)) es"

lemma run_states_append [simp]:
  "run_states f s (es @ es') = run_states f s es @ run_states f (after f s es) es'"
  by (induction es arbitrary: s) simp_all

abbreviation agent_states where
  "agent_states ops config cfg es \<equiv>
     run_states (agent_step ops config cfg) (agent_init ops) es"

definition kernel_honest ::
  "'m bpf_ops \<Rightarrow> filter_config option \<Rightarrow> loader_cfg \<Rightarrow> agent_event list \<Rightarrow> bool" where
  "kernel_honest ops config cfg es \<longleftrightarrow>
     (\<forall>(st, e)\<in>set (agent_states ops config cfg es). reserve_honest st e)"

text \<open>The loader keeps up with the file events: it never leaves more than 185 of them unread.\<close>

definition temp_ring_kept_up ::
  "'m bpf_ops \<Rightarrow> filter_config option \<Rightarrow> loader_cfg \<Rightarrow> agent_event list \<Rightarrow> bool" where
  "temp_ring_kept_up ops config cfg es \<longleftrightarrow>
     (\<forall>(st, e)\<in>set (agent_states ops config cfg es). length (ag_temp_events st) \<le> 185)"

section \<open>No record is dropped\<close>

lemma ring_room_count:
  assumes "\<forall>r\<in>set ring. length r = n" and "Suc (length ring) * ring_record n < capacity"
  shows "ring_room capacity n ring"
proof -
  have "sum_list (map (ring_record \<circ> length) ring) = length ring * ring_record n"
    using assms(1) by (induction ring) simp_all
  then show ?thesis using assms(2) by (simp add: ring_room_def)
qed

text \<open>Up to how many unread records each buffer has room for one more.\<close>

lemma ring_capacities:
  "\<forall>r\<in>set ring. length r = 24 \<Longrightarrow> length ring \<le> 126 \<Longrightarrow> ring_room EVENTS_BYTES 24 ring"
  "\<forall>r\<in>set ring. length r = 28 \<Longrightarrow> length ring \<le> 101 \<Longrightarrow> ring_room BLOCK_EVENTS_BYTES 28 ring"
  "\<forall>r\<in>set ring. length r = 24 \<Longrightarrow> length ring \<le> 510 \<Longrightarrow> ring_room LATENCY_EVENTS_BYTES 24 ring"
  "\<forall>r\<in>set ring. length r = 168 \<Longrightarrow> length ring \<le> 185 \<Longrightarrow>
     ring_room TEMP_FILE_EVENTS_BYTES 168 ring"
  by (rule ring_room_count; simp add: ring_record_def EVENTS_BYTES_def BLOCK_EVENTS_BYTES_def
      LATENCY_EVENTS_BYTES_def TEMP_FILE_EVENTS_BYTES_def)+

lemma captured_ok: "ctx_ok ctx \<Longrightarrow> captured config (Kernel k junk) = Some fe \<Longrightarrow>
    event_ctx (Kernel k junk) = Some ctx \<Longrightarrow> temp_file_event_ok fe"
  by (cases k) (auto simp: sys_enter_openat_def sys_enter_unlinkat_def dest: probe_events_ok(4))

lemma agent_step_temp:
  assumes "kernel_ok [e]" and "\<forall>r\<in>set (ag_temp_events st). length r = 168"
  shows "\<forall>r\<in>set (ag_temp_events (fst (agent_step ops config cfg st e))). length r = 168"
proof (cases e)
  case (Kernel k junk)
  with assms show ?thesis
    by (cases k)
      (auto simp: Let_def submit_def kernel_ok_def sys_enter_openat_def sys_enter_unlinkat_def
        split: option.splits dest: probe_events_ok(4) intro!: record_sizes)
next
  case (Loader arm)
  with assms show ?thesis by (cases arm) (auto simp: Let_def)
qed

text \<open>The event a file program would submit with room in the buffer.\<close>

definition with_room :: "probe_ctx \<Rightarrow> probe_ctx" where
  "with_room ctx = ctx\<lparr>cx_reserve := True\<rparr>"

fun attempted :: "filter_config option \<Rightarrow> agent_event \<Rightarrow> temp_file_event option" where
  "attempted config (Kernel (K_Openat ctx) _) = sys_enter_openat config (with_room ctx)"
| "attempted config (Kernel (K_Unlinkat ctx) _) = sys_enter_unlinkat config (with_room ctx)"
| "attempted config _ = None"

lemma captured_with_room:
  assumes "reserve_honest st e" and "length (ag_temp_events st) \<le> 185"
    and "\<forall>r\<in>set (ag_temp_events st). length r = 168"
  shows "captured config e = attempted config e"
proof -
  have room: "ring_room TEMP_FILE_EVENTS_BYTES 168 (ag_temp_events st)"
    using assms(2,3) by (intro ring_capacities)
  have same: "cx_reserve ctx \<Longrightarrow> with_room ctx = ctx" for ctx by (simp add: with_room_def)
  show ?thesis
  proof (cases e)
    case (Kernel k junk)
    with assms(1) room same show ?thesis by (cases k) simp_all
  qed simp
qed

lemma all_captured:
  assumes "kernel_ok es" and "\<forall>(st, e)\<in>set (run_states (agent_step ops config cfg) s es).
      reserve_honest st e \<and> length (ag_temp_events st) \<le> 185"
    and "\<forall>r\<in>set (ag_temp_events s). length r = 168"
  shows "map (captured config) es = map (attempted config) es"
  using assms
proof (induction es arbitrary: s)
  case (Cons e es)
  then have ok: "kernel_ok [e]" "kernel_ok es" by (simp_all add: kernel_ok_def)
  have "map (captured config) es = map (attempted config) es"
    using Cons.prems
    by (intro Cons.IH [OF ok(2), of "fst (agent_step ops config cfg s e)"] agent_step_temp [OF ok(1)])
      simp_all
  moreover have "captured config e = attempted config e"
    using Cons.prems by (intro captured_with_room [of s]) simp_all
  ultimately show ?case by simp
qed simp

lemma no_capture_dropped:
  assumes "kernel_ok es" and "kernel_honest ops config cfg es"
    and "temp_ring_kept_up ops config cfg es"
  shows "map (captured config) es = map (attempted config) es"
  using assms(2,3)
  by (intro all_captured [OF assms(1), of ops config cfg "agent_init ops"])
    (auto simp: kernel_honest_def temp_ring_kept_up_def agent_init_def)

section \<open>The path in the report\<close>

lemma event_path:
  assumes "CHR 0x00 \<notin> set path" and "valid_utf8 path"
  shows "path_from_event (map (of_nat \<circ> code) path @ 0 # junk) = path"
proof -
  have nz: "(of_nat (code c) :: u8) \<noteq> 0" if "c \<in> set path" for c
  proof
    assume "(of_nat (code c) :: u8) = 0"
    then have "unat (of_nat (code c) :: u8) = 0" by simp
    then have "code c = code (CHR 0x00)"
      by (simp add: unsigned_of_nat take_bit_nat_eq_self) (simp add: code_def)
    with that assms(1) show False by simp
  qed
  then have "\<And>b. b \<in> set (map (of_nat \<circ> code) path) \<Longrightarrow> (b :: u8) \<noteq> 0" by auto
  then have "takeWhile (\<lambda>b. b \<noteq> 0) (map (of_nat \<circ> code) path @ 0 # junk) =
      map (of_nat \<circ> code) path"
    by (subst takeWhile_append2) simp_all
  moreover have "string_of_bytes (map (of_nat \<circ> code) path) = path"
    by (simp add: string_of_bytes_def char_of_u8_def unsigned_of_nat take_bit_nat_eq_self
        code_def map_idI)
  ultimately show ?thesis using assms(2) by (simp add: path_from_event_def valid_utf8_lossy)
qed

lemma count_list_distinct: "distinct xs \<Longrightarrow> count_list xs x = (if x \<in> set xs then 1 else 0)"
  by (induction xs) auto

lemma spills_all_reported:
  assumes "agent_run ops config cfg es st effs" and "kernel_ok es"
    and "ls_status (ag_loader st) = Running" and "ag_temp_events st = []"
    and "kernel_honest ops config cfg es" and "temp_ring_kept_up ops config cfg es"
  shows "spills_reported effs = fresh {} (capture_keys (somes (map (attempted config) es)))"
proof -
  from agent_run_conserved [OF assms(1,2)] obtain evs where
    "conserved ops config cfg es st effs evs" ..
  from conserved_spills [OF this assms(3)] show ?thesis
    using assms(4) by (simp add: no_capture_dropped [OF assms(2,5,6)] capture_keys_def)
qed

section \<open>Properties\<close>

text \<open>
  C6. A spilled file is reported exactly once, from end to end: when a process the filter lets pass
  opens a file at any time of a run, and its path is valid UTF-8, shorter than the buffer, and names
  \<open>pgsql_tmp\<close>, then the running loader has reported this pair of process and path, unchanged, once
  and only once as soon as it has read the ring buffer, however often the file was touched; provided
  the kernel reserves whenever there is room and the loader never leaves more than 185 records.
\<close>

theorem spilled_file_reported_once:
  assumes "agent_run (ops :: 'm bpf_ops) (Some c) cfg es st effs" and "kernel_ok es"
    and "ls_status (ag_loader st) = Running" and "ag_temp_events st = []"
    and "kernel_honest ops (Some c) cfg es" and "temp_ring_kept_up ops (Some c) cfg es"
    and "es = pre @ Kernel (K_Openat ctx) junk # post"
    and "fc_pid c = 0 \<or> cx_pid ctx = fc_pid c"
    and "cx_read_ptr ctx OPENAT_OFF_FILENAME = Some ptr" and "ptr \<noteq> 0"
    and "cx_user_str ctx ptr (replicate FILE_EVENT_PATH_LEN 0) =
      map (of_nat \<circ> code) path @ 0 # rest"
    and "CHR 0x00 \<notin> set path" and "valid_utf8 path" and "contains ''pgsql_tmp'' path"
  shows "count_list (spills_reported effs) (cx_pid ctx, path) = 1"
proof -
  note eq = spills_all_reported [OF assms(1-6)]
  from assms(8-11) obtain fe where fe: "attempted (Some c) (Kernel (K_Openat ctx) junk) = Some fe"
      "fe_pid fe = cx_pid ctx" "fe_path fe = map (of_nat \<circ> code) path @ 0 # rest"
    by (auto simp: sys_enter_openat_def capture_file_syscall_def with_room_def Let_def)
  have key: "path_from_event (fe_path fe) = path" by (simp add: fe(3) event_path [OF assms(12,13)])
  from fe have "fe \<in> set (somes (map (attempted (Some c)) es))"
    by (auto simp: in_somes assms(7) image_iff)
  then have "(cx_pid ctx, path) \<in> set (capture_keys (somes (map (attempted (Some c)) es)))"
    using fe(2) key assms(14) by (auto simp: capture_keys_def image_iff intro!: bexI [of _ fe])
  then show ?thesis by (simp add: eq count_list_distinct [OF distinct_fresh] set_fresh)
qed

theorem spilled_file_reported_once_witness:
  "\<exists>st effs. agent_run inflight_ops (Some example_filter) example_loader
     [spill_open, spill_open, Loader (Ready_Temp (\<lambda>_. example_now))] st effs
     \<and> count_list (spills_reported effs) (10, ''pgsql_tmp'') = 1"
proof -
  let ?es = "[spill_open, spill_open]"
  let ?all = "?es @ [Loader (Ready_Temp (\<lambda>_. example_now))]"
  have ok: "kernel_ok ?es" "\<forall>e\<in>set ?es. event_ctx e \<noteq> None"
    by (simp_all add: kernel_ok_def spill_open_def ctx_ok_def example_ctx_def tmp_event_def
        FILE_EVENT_PATH_LEN_def)
  from first_capture [OF ok] obtain st effs where run:
    "agent_run inflight_ops (Some example_filter) example_loader ?all st effs"
    and live: "ls_status (ag_loader st) = Running" and read: "ag_temp_events st = []" by blast
  have all_ok: "kernel_ok ?all" using ok(1) by (simp add: kernel_ok_def)
  have honest: "kernel_honest inflight_ops (Some example_filter) example_loader ?all"
    by (simp add: kernel_honest_def spill_open_def example_ctx_def)
  have kept: "temp_ring_kept_up inflight_ops (Some example_filter) example_loader ?all"
    by (simp add: temp_ring_kept_up_def spill_open_def agent_init_def submit_def split: option.split)
  let ?ctx = "(example_ctx 1000)
    \<lparr>cx_user_str := (\<lambda>ptr buf. take (length buf) (fe_path tmp_event @ buf))\<rparr>"
  have ev: "?all = [] @ Kernel (K_Openat ?ctx) (\<lambda>_. 3) # [spill_open,
      Loader (Ready_Temp (\<lambda>_. example_now))]"
    by (simp add: spill_open_def)
  have pass: "fc_pid example_filter = 0 \<or> cx_pid ?ctx = fc_pid example_filter"
    by (simp add: example_filter_def)
  have ptr: "cx_read_ptr ?ctx OPENAT_OFF_FILENAME = Some 0x7000" "(0x7000 :: u64) \<noteq> 0"
    by (simp_all add: example_ctx_def)
  have str: "cx_user_str ?ctx 0x7000 (replicate FILE_EVENT_PATH_LEN 0) =
      map (of_nat \<circ> code) ''pgsql_tmp'' @ 0 # replicate 118 0"
    by (simp add: tmp_event_def FILE_EVENT_PATH_LEN_def code_def flip: replicate_Suc)
  have path: "CHR 0x00 \<notin> set ''pgsql_tmp''" "valid_utf8 ''pgsql_tmp''"
    "contains ''pgsql_tmp'' ''pgsql_tmp''" by code_simp+
  have "cx_pid ?ctx = 10" by (simp add: example_ctx_def)
  with spilled_file_reported_once [OF run all_ok live read honest kept ev pass ptr str path] run
  show ?thesis by auto
qed

end
