(* ===== verification/Xtask.thy ===== *)
theory Xtask
  imports Utf8
begin

text \<open>
  \<open>crates/xtask/src/main.rs\<close>: the build helper. Running \<open>cargo\<close> is a parameter: the output of the
  process for a program and its arguments, or None when it could not be started. The text on the
  two standard streams of the helper is its output, line by line.
\<close>

datatype xtask_cmd = BuildEbpf

record process_output =
  po_success :: bool
  po_stdout :: string
  po_stderr :: string

datatype xtask_error = Spawn_Failed | Build_Failed string

record xtask_outcome =
  xo_stdout :: "string list"
  xo_stderr :: "string list"
  xo_error :: "xtask_error option"

definition build_ebpf_args :: "string list" where
  "build_ebpf_args =
     [''build'', ''-Zbuild-std'', ''--target'', ''bpfel-unknown-none'', ''--release'', ''-p'',
      ''pgsleuth-ebpf'']"

definition xtask_main ::
  "(string \<Rightarrow> string list \<Rightarrow> process_output option) \<Rightarrow> xtask_cmd \<Rightarrow> xtask_outcome" where
  "xtask_main run cmd =
     (case cmd of BuildEbpf \<Rightarrow>
       (case run ''cargo'' build_ebpf_args of
          None \<Rightarrow>
            \<lparr>xo_stdout = [''Building eBPF program...''], xo_stderr = [],
             xo_error = Some Spawn_Failed\<rparr>
        | Some output \<Rightarrow>
            if \<not> po_success output
            then \<lparr>xo_stdout = [''Building eBPF program...''],
                  xo_stderr = [''Build failed:'', from_utf8_lossy (po_stderr output)],
                  xo_error = Some (Build_Failed ''eBPF build failed'')\<rparr>
            else \<lparr>xo_stdout = [''Building eBPF program...'', ''Build successful!'',
                               ''Output: '' @ from_utf8_lossy (po_stdout output)],
                  xo_stderr = [], xo_error = None\<rparr>))"

text \<open>The helper fails exactly when \<open>cargo\<close> does, and says so on the error stream only then.\<close>

lemma xtask_succeeds_iff:
  "xo_error (xtask_main run cmd) = None \<longleftrightarrow>
     (\<exists>out. run ''cargo'' build_ebpf_args = Some out \<and> po_success out)"
  by (cases cmd) (simp add: xtask_main_def split: option.split)

end
