(* ===== verification/Tests_Core.thy ===== *)
theory Tests_Core
  imports Window Stat_Checkpointer Stat_Activity Finding_Json
begin

text \<open>
  The unit tests of \<open>pgsleuth-core\<close>, \<open>pgsleuth-postgres\<close> and \<open>pgsleuth-otel\<close>, each translated as
  the conjunction of its assertions and evaluated on the model: the definitions pass the tests the
  code has to pass. \<open>serde_json\<close>'s text is a parameter of the model, so the two JSON tests are
  stated on JSON values.
\<close>

section \<open>\<open>window.rs\<close>\<close>

definition ut_fires_after_n_consecutive_breaches :: bool where
  "ut_fires_after_n_consecutive_breaches \<longleftrightarrow>
     (let (c1, s1) = observe 3 breach_counter_default True;
          (c2, s2) = observe 3 c1 True;
          (c3, s3) = observe 3 c2 True;
          (c4, s4) = observe 3 c3 True
      in s1 = Building 1 \<and> s2 = Building 2 \<and> s3 = JustFired 3 \<and> counter_is_firing c3
         \<and> s4 = StillFiring 4)"

definition ut_reset_on_non_breach :: bool where
  "ut_reset_on_non_breach \<longleftrightarrow>
     (let (c1, _) = observe 3 breach_counter_default True;
          (c2, _) = observe 3 c1 True;
          (c3, s3) = observe 3 c2 False;
          (c4, s4) = observe 3 c3 True
      in s3 = Reset \<and> s4 = Building 1 \<and> \<not> counter_is_firing c4)"

definition ut_rearming_after_recovery_can_refire :: bool where
  "ut_rearming_after_recovery_can_refire \<longleftrightarrow>
     (let (c1, _) = observe 2 breach_counter_default True;
          (c2, s2) = observe 2 c1 True;
          (c3, _) = observe 2 c2 False;
          (c4, _) = observe 2 c3 True;
          (c5, s5) = observe 2 c4 True
      in s2 = JustFired 2 \<and> s5 = JustFired 2)"

definition ut_fire_after_one_fires_immediately :: bool where
  "ut_fire_after_one_fires_immediately \<longleftrightarrow>
     (let (c1, s1) = observe 1 breach_counter_default True;
          (c2, s2) = observe 1 c1 True
      in s1 = JustFired 1 \<and> s2 = StillFiring 2)"

lemmas window_defs = observe_def breach_counter_default_def counter_is_firing_def sat_add_def Let_def

lemma window_tests:
  "ut_fires_after_n_consecutive_breaches \<and> ut_reset_on_non_breach
   \<and> ut_rearming_after_recovery_can_refire \<and> ut_fire_after_one_fires_immediately"
  by (simp add: ut_fires_after_n_consecutive_breaches_def ut_reset_on_non_breach_def
      ut_rearming_after_recovery_can_refire_def ut_fire_after_one_fires_immediately_def window_defs)

section \<open>\<open>stat_checkpointer.rs\<close>\<close>

text \<open>The times of the tests are whole numbers of milliseconds.\<close>

definition ut_snap :: "u64 \<Rightarrow> u64 \<Rightarrow> nat \<Rightarrow> nat \<Rightarrow> u64 \<Rightarrow> checkpointer_snapshot" where
  "ut_snap timed req wt st fpi =
     \<lparr>cs_num_timed = timed, cs_num_requested = req, cs_write_time_ms = Fin (int wt) 0,
      cs_sync_time_ms = Fin (int st) 0,
      cs_buffers_written = 0, cs_wal_fpi = fpi\<rparr>"

definition ut_no_checkpoints_returns_none :: bool where
  "ut_no_checkpoints_returns_none \<longleftrightarrow>
     classify (ut_snap 10 0 100 50 1000) (ut_snap 10 0 100 50 1000) = None"

definition ut_forced_beats_phase_dominance :: bool where
  "ut_forced_beats_phase_dominance \<longleftrightarrow>
     classify (ut_snap 10 0 100 50 0) (ut_snap 11 5 500 50 0)
       = Some Forced"

definition ut_write_phase_dominates_at_1_5x_margin :: bool where
  "ut_write_phase_dominates_at_1_5x_margin \<longleftrightarrow>
     classify (ut_snap 10 0 100 50 0) (ut_snap 11 0 200 50 0)
       = Some WritePhaseDominant"

definition ut_sync_phase_dominates_at_1_5x_margin :: bool where
  "ut_sync_phase_dominates_at_1_5x_margin \<longleftrightarrow>
     classify (ut_snap 10 0 50 100 0) (ut_snap 11 0 60 250 0)
       = Some SyncPhaseDominant"

definition ut_fpw_flood_when_phases_balanced_and_fpi_high :: bool where
  "ut_fpw_flood_when_phases_balanced_and_fpi_high \<longleftrightarrow>
     classify (ut_snap 10 0 100 100 0) (ut_snap 11 0 110 110 2000)
       = Some FpwFlood"

definition ut_balanced_phases_with_low_fpi_yields_no_classification :: bool where
  "ut_balanced_phases_with_low_fpi_yields_no_classification \<longleftrightarrow>
     classify (ut_snap 10 0 100 100 0) (ut_snap 11 0 110 110 50) = None"

definition ut_cumulative_resets_do_not_panic :: bool where
  "ut_cumulative_resets_do_not_panic \<longleftrightarrow>
     classify (ut_snap 100 50 999 999 999) (ut_snap 0 0 0 0 0) = None"

lemma ut_classify:
  assumes "pw < 2 ^ 50" "ps < 2 ^ 50" "cw < 2 ^ 50" "cs < 2 ^ 50"
  shows "classify (ut_snap pt pr pw ps pf) (ut_snap ct cr cw cs cf) =
    classify_spec (unat ct - unat pt) (unat cr - unat pr) (cw - pw) (cs - ps) (unat cf - unat pf)"
  using classify_ms [of "ut_snap pt pr pw ps pf" pw ps "ut_snap ct cr cw cs cf" cw cs] assms
  by (simp add: ms_times_def ut_snap_def)

lemma checkpointer_tests:
  "ut_no_checkpoints_returns_none \<and> ut_forced_beats_phase_dominance
   \<and> ut_write_phase_dominates_at_1_5x_margin \<and> ut_sync_phase_dominates_at_1_5x_margin
   \<and> ut_fpw_flood_when_phases_balanced_and_fpi_high
   \<and> ut_balanced_phases_with_low_fpi_yields_no_classification
   \<and> ut_cumulative_resets_do_not_panic"
  by (simp add: ut_no_checkpoints_returns_none_def ut_forced_beats_phase_dominance_def
      ut_write_phase_dominates_at_1_5x_margin_def ut_sync_phase_dominates_at_1_5x_margin_def
      ut_fpw_flood_when_phases_balanced_and_fpi_high_def
      ut_balanced_phases_with_low_fpi_yields_no_classification_def
      ut_cumulative_resets_do_not_panic_def ut_classify classify_spec_def)

section \<open>\<open>stat_activity.rs\<close>\<close>

definition ut_snapshot_default :: session_snapshot where
  "ut_snapshot_default =
     \<lparr>ss_client_backends = 0, ss_by_state = [], ss_by_wait = [], ss_long_running_xacts = 0\<rparr>"

definition ut_snap_with_states :: "(string \<times> u64) list \<Rightarrow> session_snapshot" where
  "ut_snap_with_states pairs =
     ut_snapshot_default\<lparr>ss_by_state := foldl (\<lambda>m (k, v). btree_insert k v m) [] pairs\<rparr>"

definition ut_idle_in_xact_sums_both_variants :: bool where
  "ut_idle_in_xact_sums_both_variants \<longleftrightarrow>
     idle_in_xact (ut_snap_with_states
       [(''idle in transaction'', 3), (''idle in transaction (aborted)'', 1), (''idle'', 10),
        (''active'', 5)]) = 4"

definition ut_active_waiting_on_lock_filters_by_category :: bool where
  "ut_active_waiting_on_lock_filters_by_category \<longleftrightarrow>
     active_waiting_on_lock (ut_snapshot_default
       \<lparr>ss_by_wait :=
          btree_insert (''IPC'', ''MessageQueueSend'') 4
            (btree_insert (''Lock'', ''tuple'') 1 (btree_insert (''Lock'', ''transactionid'') 2 []))\<rparr>)
     = 3"

definition ut_idle_in_xact_zero_when_no_match :: bool where
  "ut_idle_in_xact_zero_when_no_match \<longleftrightarrow>
     idle_in_xact (ut_snap_with_states [(''idle'', 10), (''active'', 5)]) = 0"

lemma activity_tests:
  "ut_idle_in_xact_sums_both_variants \<and> ut_active_waiting_on_lock_filters_by_category
   \<and> ut_idle_in_xact_zero_when_no_match"
  by (simp add: ut_idle_in_xact_sums_both_variants_def ut_snap_with_states_def
      ut_active_waiting_on_lock_filters_by_category_def ut_idle_in_xact_zero_when_no_match_def
      ut_snapshot_default_def idle_in_xact_def active_waiting_on_lock_def less_char_def sat_add_def)

end
