(* ===== verification/Tests_Otel.thy ===== *)
theory Tests_Otel
  imports Finding_Read
begin

text \<open>
  The unit tests of \<open>pgsleuth-core/src/finding.rs\<close> and \<open>pgsleuth-otel/src/mapping.rs\<close>, each
  translated as the conjunction of its assertions. They hold for every rendering of JSON. A text
  that does not contain the name of a field is stated as a JSON value without such a key, and the
  text that is read back as the JSON value read back.
\<close>

section \<open>\<open>finding.rs\<close>\<close>

definition ut_sample_finding :: finding where
  "ut_sample_finding =
     \<lparr>f_schema_version = FINDING_SCHEMA_VERSION,
      f_rule_id = ''replica.lag.high'',
      f_rule_version = 1,
      f_tier = Standard,
      f_severity = High,
      f_fired_at = \<lparr>dt_timestamp = 1781276400, dt_subsec_nanos = 0\<rparr>,
      f_pg_instance = \<lparr>inst_id = ''prod-main'', inst_db_name = Some ''app'', inst_role = Replica\<rparr>,
      f_summary = ''Replica prod-main lag 142s exceeds 60s'',
      f_evidence = JObj [(''lag_seconds'', JNum 142), (''threshold_seconds'', JNum 60)],
      f_remediation =
        \<lparr>rem_text = ''Investigate write volume on primary'', rem_knobs = [''max_wal_senders'']\<rparr>,
      f_otel_attributes =
        btree_insert ''pgsleuth.replica.id'' (Attr_String ''replica-2'') []\<rparr>"

definition ut_finding_round_trips_through_json ::
  "(string \<Rightarrow> datetime option) \<Rightarrow> (datetime \<Rightarrow> string) \<Rightarrow> bool" where
  "ut_finding_round_trips_through_json parse_dt show_dt \<longleftrightarrow>
     (case read_finding parse_dt (finding_json show_dt ut_sample_finding) of
        None \<Rightarrow> False
      | Some back \<Rightarrow>
          f_rule_id back = f_rule_id ut_sample_finding
          \<and> f_schema_version back = FINDING_SCHEMA_VERSION
          \<and> f_rule_version back = 1
          \<and> inst_role (f_pg_instance back) = Replica
          \<and> rem_knobs (f_remediation back) = [''max_wal_senders'']
          \<and> length (f_otel_attributes back) = 1)"

text \<open>The test passes when chrono reads back the timestamp of the sample.\<close>

lemma round_trip_test:
  assumes "\<And>d. parse_dt (show_dt d) = Some d"
  shows "ut_finding_round_trips_through_json parse_dt show_dt"
proof -
  have "read_finding parse_dt (finding_json show_dt ut_sample_finding) = Some ut_sample_finding"
    by (rule read_finding_json) (simp_all add: assms ut_sample_finding_def btree_wf_def)
  then show ?thesis
    by (simp add: ut_finding_round_trips_through_json_def) (simp add: ut_sample_finding_def)
qed

text \<open>The keys of all objects in a JSON value.\<close>

fun json_keys :: "json \<Rightarrow> string list" where
  "json_keys (JObj m) = concat (map (\<lambda>kv. fst kv # json_keys (snd kv)) m)"
| "json_keys (JArr js) = concat (map json_keys js)"
| "json_keys _ = []"

definition ut_omits_empty_optional_collections_on_the_wire :: "(datetime \<Rightarrow> string) \<Rightarrow> bool" where
  "ut_omits_empty_optional_collections_on_the_wire show_dt \<longleftrightarrow>
     (let f = ut_sample_finding
          \<lparr>f_otel_attributes := [],
           f_remediation := (f_remediation ut_sample_finding)\<lparr>rem_knobs := []\<rparr>,
           f_pg_instance := (f_pg_instance ut_sample_finding)\<lparr>inst_db_name := None\<rparr>\<rparr>;
          keys = json_keys (finding_json show_dt f)
      in ''otel_attributes'' \<notin> set keys \<and> ''knobs'' \<notin> set keys \<and> ''db_name'' \<notin> set keys)"

definition ut_schema_version_is_one :: bool where
  "ut_schema_version_is_one \<longleftrightarrow> FINDING_SCHEMA_VERSION = 1"

lemma finding_tests:
  "ut_omits_empty_optional_collections_on_the_wire show_dt \<and> ut_schema_version_is_one"
  by (simp add: ut_omits_empty_optional_collections_on_the_wire_def ut_sample_finding_def Let_def
      finding_json_def instance_json_def remediation_json_def ut_schema_version_is_one_def
      FINDING_SCHEMA_VERSION_def)

section \<open>\<open>mapping.rs\<close>\<close>

definition ut_finding :: finding where
  "ut_finding =
     \<lparr>f_schema_version = FINDING_SCHEMA_VERSION,
      f_rule_id = ''replica.lag.high'',
      f_rule_version = 1,
      f_tier = Standard,
      f_severity = High,
      f_fired_at = \<lparr>dt_timestamp = 1781276400, dt_subsec_nanos = 0\<rparr>,
      f_pg_instance = \<lparr>inst_id = ''prod-main'', inst_db_name = Some ''app'', inst_role = Replica\<rparr>,
      f_summary = ''Replica prod-main lag 142s exceeds 60s'',
      f_evidence = JObj [(''lag_seconds'', JNum 142), (''threshold_seconds'', JNum 60)],
      f_remediation =
        \<lparr>rem_text = ''Investigate write volume on primary'', rem_knobs = [''max_wal_senders'']\<rparr>,
      f_otel_attributes =
        btree_insert ''pgsleuth.replica.id'' (Attr_String ''replica-2'') []\<rparr>"

text \<open>The first attribute with the key; None is the panic of the helper.\<close>

definition ut_attr :: "mapped_finding \<Rightarrow> string \<Rightarrow> any_value option" where
  "ut_attr m key = map_of (mf_attributes m) key"

text \<open>A test gets the record of a finding; a panic of the mapping fails it.\<close>

definition ut_with ::
  "(json \<Rightarrow> string) \<Rightarrow> (remediation \<Rightarrow> string option) \<Rightarrow> finding \<Rightarrow> (mapped_finding \<Rightarrow> bool) \<Rightarrow> bool" where
  "ut_with sj sr f P = (case map_finding sj sr f of None \<Rightarrow> False | Some m \<Rightarrow> P m)"

definition ut_maps_body_and_severity ::
  "(json \<Rightarrow> string) \<Rightarrow> (remediation \<Rightarrow> string option) \<Rightarrow> bool" where
  "ut_maps_body_and_severity sj sr \<longleftrightarrow> ut_with sj sr ut_finding (\<lambda>m.
     mf_body m = ''Replica prod-main lag 142s exceeds 60s''
     \<and> mf_severity_number m = Sev_Error \<and> mf_severity_text m = ''ERROR'')"

definition ut_maps_rule_identity_attributes ::
  "(json \<Rightarrow> string) \<Rightarrow> (remediation \<Rightarrow> string option) \<Rightarrow> bool" where
  "ut_maps_rule_identity_attributes sj sr \<longleftrightarrow> ut_with sj sr ut_finding (\<lambda>m.
     ut_attr m ''pgsleuth.rule.id'' = Some (Any_String ''replica.lag.high'')
     \<and> ut_attr m ''pgsleuth.rule.version'' = Some (Any_Int 1)
     \<and> ut_attr m ''pgsleuth.tier'' = Some (Any_String ''standard''))"

definition ut_db_name_uses_otel_semconv_key ::
  "(json \<Rightarrow> string) \<Rightarrow> (remediation \<Rightarrow> string option) \<Rightarrow> bool" where
  "ut_db_name_uses_otel_semconv_key sj sr \<longleftrightarrow> ut_with sj sr ut_finding (\<lambda>m.
     ut_attr m ''db.name'' = Some (Any_String ''app''))"

definition ut_missing_db_name_is_dropped ::
  "(json \<Rightarrow> string) \<Rightarrow> (remediation \<Rightarrow> string option) \<Rightarrow> bool" where
  "ut_missing_db_name_is_dropped sj sr \<longleftrightarrow>
     ut_with sj sr
       (ut_finding\<lparr>f_pg_instance := (f_pg_instance ut_finding)\<lparr>inst_db_name := None\<rparr>\<rparr>)
       (\<lambda>m. list_all (\<lambda>kv. fst kv \<noteq> ''db.name'') (mf_attributes m))"

definition ut_null_evidence_is_dropped ::
  "(json \<Rightarrow> string) \<Rightarrow> (remediation \<Rightarrow> string option) \<Rightarrow> bool" where
  "ut_null_evidence_is_dropped sj sr \<longleftrightarrow>
     ut_with sj sr (ut_finding\<lparr>f_evidence := JNull\<rparr>)
       (\<lambda>m. list_all (\<lambda>kv. fst kv \<noteq> ''pgsleuth.evidence'') (mf_attributes m))"

definition ut_version_tripwires_are_emitted ::
  "(json \<Rightarrow> string) \<Rightarrow> (remediation \<Rightarrow> string option) \<Rightarrow> bool" where
  "ut_version_tripwires_are_emitted sj sr \<longleftrightarrow> ut_with sj sr ut_finding (\<lambda>m.
     ut_attr m ''pgsleuth.mapping.version'' = Some (Any_Int (ucast MAPPING_VERSION))
     \<and> ut_attr m ''pgsleuth.finding.schema.version'' = Some (Any_Int (ucast FINDING_SCHEMA_VERSION)))"

definition ut_custom_otel_attributes_passed_through ::
  "(json \<Rightarrow> string) \<Rightarrow> (remediation \<Rightarrow> string option) \<Rightarrow> bool" where
  "ut_custom_otel_attributes_passed_through sj sr \<longleftrightarrow> ut_with sj sr ut_finding (\<lambda>m.
     ut_attr m ''pgsleuth.replica.id'' = Some (Any_String ''replica-2''))"

definition ut_all_severity_levels_map ::
  "(json \<Rightarrow> string) \<Rightarrow> (remediation \<Rightarrow> string option) \<Rightarrow> bool" where
  "ut_all_severity_levels_map sj sr \<longleftrightarrow>
     list_all (\<lambda>sev. ut_with sj sr (ut_finding\<lparr>f_severity := sev\<rparr>) (\<lambda>m. mf_severity_text m \<noteq> []))
       [Info, Low, Medium, High, Critical]"

lemmas ut_mapping_defs = ut_with_def map_finding_def chrono_to_system_time_def ut_finding_def
  map_attributes_def ut_attr_def FINDING_SCHEMA_VERSION_def MAPPING_VERSION_def

lemma ut_identity_tests:
  "ut_maps_body_and_severity sj sr \<and> ut_maps_rule_identity_attributes sj sr
   \<and> ut_db_name_uses_otel_semconv_key sj sr \<and> ut_version_tripwires_are_emitted sj sr
   \<and> ut_custom_otel_attributes_passed_through sj sr"
  by (simp add: ut_maps_body_and_severity_def ut_maps_rule_identity_attributes_def
      ut_db_name_uses_otel_semconv_key_def ut_version_tripwires_are_emitted_def
      ut_custom_otel_attributes_passed_through_def ut_mapping_defs split: option.split)

lemma ut_dropped_tests:
  "ut_missing_db_name_is_dropped sj sr \<and> ut_null_evidence_is_dropped sj sr
   \<and> ut_all_severity_levels_map sj sr"
  by (simp add: ut_missing_db_name_is_dropped_def ut_null_evidence_is_dropped_def
      ut_all_severity_levels_map_def ut_mapping_defs split: option.split)

end
