(* ===== verification/Tests_Cli.thy ===== *)
theory Tests_Cli
  imports Temp_Spill Cgroup_Throttle Checkpoint_Storm Collect_Pg_Stmt
begin

text \<open>
  The unit tests of \<open>pgsleuth-cli\<close>, each translated as the conjunction of its assertions and
  evaluated on the model. The clock of a finding is a parameter.
\<close>

section \<open>\<open>temp_spill.rs\<close>\<close>

definition ut_cfg :: "u64 \<Rightarrow> u8 \<Rightarrow> temp_spill_config" where
  "ut_cfg footprint_threshold free_threshold =
     \<lparr>ts_pgdata = ''/tmp/pgdata-stub'',
      ts_footprint_threshold_bytes = footprint_threshold,
      ts_free_threshold_pct = free_threshold,
      ts_interval_ms = 100,
      ts_pg_instance_id = ''fixture-pg''\<rparr>"

definition ut_temp_snap :: "u64 \<Rightarrow> u64 \<Rightarrow> u64 \<Rightarrow> temp_spill_sample" where
  "ut_temp_snap fp tot available =
     \<lparr>sm_footprint_bytes = fp, sm_mount_total_bytes = tot, sm_mount_available_bytes = available\<rparr>"

definition ut_footprint_breach_takes_priority_when_both_trip :: bool where
  "ut_footprint_breach_takes_priority_when_both_trip \<longleftrightarrow>
     (case breaches (ut_temp_snap 2000 100000 10000) (ut_cfg 1000 50) of
        Some (Footprint _ _) \<Rightarrow> True | _ \<Rightarrow> False)"

definition ut_free_space_breach_fires_when_footprint_is_fine :: bool where
  "ut_free_space_breach_fires_when_footprint_is_fine \<longleftrightarrow>
     (case breaches (ut_temp_snap 0 100000 10000) (ut_cfg (- 1) 50) of
        Some (FreeSpace _ _) \<Rightarrow> True | _ \<Rightarrow> False)"

definition ut_no_breach_below_both_thresholds :: bool where
  "ut_no_breach_below_both_thresholds \<longleftrightarrow>
     breaches (ut_temp_snap 500 100000 80000) (ut_cfg 1000 10) = None"

definition ut_free_threshold_zero_disables_free_check :: bool where
  "ut_free_threshold_zero_disables_free_check \<longleftrightarrow>
     breaches (ut_temp_snap 0 100000 0) (ut_cfg (- 1) 0) = None"

definition ut_free_pct_handles_zero_total_without_panic :: bool where
  "ut_free_pct_handles_zero_total_without_panic \<longleftrightarrow> free_pct (ut_temp_snap 0 0 0) = 100"

definition ut_free_pct_correct_for_typical_values :: bool where
  "ut_free_pct_correct_for_typical_values \<longleftrightarrow> free_pct (ut_temp_snap 0 100 25) = 25"

definition ut_temp_build_finding_carries_evidence_and_remediation :: "datetime \<Rightarrow> bool" where
  "ut_temp_build_finding_carries_evidence_and_remediation now \<longleftrightarrow>
     (let c = ut_cfg 1000 10;
          s = ut_temp_snap 2000 1000000 500000;
          r = Footprint (sm_footprint_bytes s) (ts_footprint_threshold_bytes c);
          f = temp_build_finding now c s r
      in f_rule_id f = ''storage.temp_spill.capacity'' \<and> f_tier f = Standard \<and> f_severity f = High
         \<and> json_field (f_evidence f) ''trigger'' = JStr ''footprint''
         \<and> json_field (f_evidence f) ''footprint_bytes'' = JNum 2000
         \<and> list_ex (\<lambda>k. k = ''work_mem'') (rem_knobs (f_remediation f)))"

definition ut_build_finding_free_space_variant_uses_free_trigger :: "datetime \<Rightarrow> bool" where
  "ut_build_finding_free_space_variant_uses_free_trigger now \<longleftrightarrow>
     (let c = ut_cfg (- 1) 50;
          s = ut_temp_snap 100 1000000 100000;
          f = temp_build_finding now c s (FreeSpace 10 50)
      in json_field (f_evidence f) ''trigger'' = JStr ''free_space''
         \<and> json_field (f_evidence f) ''free_pct'' = JNum 10)"

lemma temp_spill_tests:
  "ut_footprint_breach_takes_priority_when_both_trip
   \<and> ut_free_space_breach_fires_when_footprint_is_fine
   \<and> ut_no_breach_below_both_thresholds \<and> ut_free_threshold_zero_disables_free_check
   \<and> ut_free_pct_handles_zero_total_without_panic \<and> ut_free_pct_correct_for_typical_values"
  by (simp add: ut_footprint_breach_takes_priority_when_both_trip_def
      ut_free_space_breach_fires_when_footprint_is_fine_def
      ut_no_breach_below_both_thresholds_def ut_free_threshold_zero_disables_free_check_def
      ut_free_pct_handles_zero_total_without_panic_def ut_free_pct_correct_for_typical_values_def
      ut_cfg_def ut_temp_snap_def breaches_def free_pct_def sat_mul_def Let_def)

lemma temp_spill_finding_tests:
  "ut_temp_build_finding_carries_evidence_and_remediation now
   \<and> ut_build_finding_free_space_variant_uses_free_trigger now"
  by (simp add: ut_temp_build_finding_carries_evidence_and_remediation_def
      ut_build_finding_free_space_variant_uses_free_trigger_def ut_cfg_def ut_temp_snap_def
      temp_build_finding_def json_field_def Let_def)

section \<open>\<open>cgroup_throttle.rs\<close>\<close>

definition ut_parses_canonical_cpu_stat :: bool where
  "ut_parses_canonical_cpu_stat \<longleftrightarrow>
     (let parsed = cpu_stat_parse
        (''usage_usec 12345'' @ CHR 0x0A # ''user_usec 100'' @ CHR 0x0A # ''system_usec 200''
         @ CHR 0x0A # ''nr_periods 1000'' @ CHR 0x0A # ''nr_throttled 5'' @ CHR 0x0A
         # ''throttled_usec 250000'' @ [CHR 0x0A])
      in nr_periods parsed = 1000 \<and> nr_throttled parsed = 5 \<and> throttled_usec parsed = 250000)"

definition ut_parses_with_extra_fields_safely :: bool where
  "ut_parses_with_extra_fields_safely \<longleftrightarrow>
     nr_periods (cpu_stat_parse
       (''nr_periods 1'' @ CHR 0x0A # ''nr_throttled 0'' @ CHR 0x0A # ''throttled_usec 0''
        @ CHR 0x0A # ''future_field 99'' @ [CHR 0x0A])) = 1"

definition ut_breach_value_normalises_to_ms_per_sec :: bool where
  "ut_breach_value_normalises_to_ms_per_sec \<longleftrightarrow>
     (case breach_value_of (Some \<lparr>nr_periods = 10, nr_throttled = 1, throttled_usec = 0\<rparr>)
         \<lparr>nr_periods = 20, nr_throttled = 6, throttled_usec = 500000\<rparr> 1000 of
        None \<Rightarrow> False
      | Some b \<Rightarrow> bv_throttled_ms_per_sec b = 500 \<and> bv_periods_delta b = 10
          \<and> bv_throttled_periods_delta b = 5)"

definition ut_breach_value_handles_no_prev :: bool where
  "ut_breach_value_handles_no_prev \<longleftrightarrow> breach_value_of None cpu_stat_default 1000 = None"

definition ut_breach_value_handles_zero_interval :: bool where
  "ut_breach_value_handles_zero_interval \<longleftrightarrow>
     (case breach_value_of (Some cpu_stat_default) (cpu_stat_default\<lparr>throttled_usec := 100\<rparr>) 0 of
        None \<Rightarrow> False | Some b \<Rightarrow> bv_throttled_ms_per_sec b = 0)"

definition ut_cgroup_build_finding_carries_evidence :: "datetime \<Rightarrow> bool" where
  "ut_cgroup_build_finding_carries_evidence now \<longleftrightarrow>
     (let b = \<lparr>bv_throttled_usec_delta = 60000, bv_throttled_ms_per_sec = 60, bv_periods_delta = 10,
               bv_throttled_periods_delta = 3\<rparr>;
          f = cgroup_build_finding now ''prod-pg'' b 50 3 1000
      in f_rule_id f = ''cpu.cgroup.throttle''
         \<and> json_field (f_evidence f) ''throttled_ms_per_sec'' = JNum 60
         \<and> json_field (f_evidence f) ''threshold_ms_per_sec'' = JNum 50)"

text \<open>The two texts as what the kernel writes for their entries.\<close>

lemma ut_canonical_text:
  "''usage_usec 12345'' @ CHR 0x0A # ''user_usec 100'' @ CHR 0x0A # ''system_usec 200''
     @ CHR 0x0A # ''nr_periods 1000'' @ CHR 0x0A # ''nr_throttled 5'' @ CHR 0x0A
     # ''throttled_usec 250000'' @ [CHR 0x0A] =
   concat (map stat_line [(''usage_usec'', 12345), (''user_usec'', 100), (''system_usec'', 200),
     (''nr_periods'', 1000), (''nr_throttled'', 5), (''throttled_usec'', 250000)])"
  by (simp add: stat_line_def dec_literal)

lemma ut_extra_text:
  "''nr_periods 1'' @ CHR 0x0A # ''nr_throttled 0'' @ CHR 0x0A # ''throttled_usec 0''
     @ CHR 0x0A # ''future_field 99'' @ [CHR 0x0A] =
   concat (map stat_line [(''nr_periods'', 1), (''nr_throttled'', 0), (''throttled_usec'', 0),
     (''future_field'', 99)])"
  by (simp add: stat_line_def dec_literal)

lemma cpu_stat_tests: "ut_parses_canonical_cpu_stat \<and> ut_parses_with_extra_fields_safely"
  unfolding ut_parses_canonical_cpu_stat_def ut_parses_with_extra_fields_safely_def
    ut_canonical_text ut_extra_text Let_def
  by (subst (1 2 3 4) parse_stat_of)
    (simp_all add: stat_entry_def visible_def code_def stat_of_def last_value_def)

lemma cgroup_tests:
  "ut_breach_value_normalises_to_ms_per_sec \<and> ut_breach_value_handles_no_prev
   \<and> ut_breach_value_handles_zero_interval \<and> ut_cgroup_build_finding_carries_evidence now"
  by (simp add: ut_breach_value_normalises_to_ms_per_sec_def ut_breach_value_handles_no_prev_def
      ut_breach_value_handles_zero_interval_def ut_cgroup_build_finding_carries_evidence_def
      breach_value_of_def sat_sub_def checked_div_def cpu_stat_default_def cgroup_build_finding_def
      json_field_def Let_def)

section \<open>\<open>checkpoint_storm.rs\<close>\<close>

definition ut_streak_fires_after_n_same_buckets :: bool where
  "ut_streak_fires_after_n_same_buckets \<longleftrightarrow>
     (let b = WritePhaseDominant;
          (s1, r1) = streak_observe 3 dominant_streak_default (Some b);
          (s2, r2) = streak_observe 3 s1 (Some b);
          (s3, r3) = streak_observe 3 s2 (Some b);
          (s4, r4) = streak_observe 3 s3 (Some b)
      in r1 = Streak_Building b 1 \<and> r2 = Streak_Building b 2 \<and> r3 = Streak_JustFired b 3
         \<and> r4 = Streak_StillFiring b 4)"

definition ut_bucket_change_resets_streak :: bool where
  "ut_bucket_change_resets_streak \<longleftrightarrow>
     (let w = WritePhaseDominant; f = Forced;
          (s1, _) = streak_observe 2 dominant_streak_default (Some w);
          (s2, _) = streak_observe 2 s1 (Some w);
          (s3, r3) = streak_observe 2 s2 (Some f)
      in r3 = Streak_Building f 1)"

definition ut_no_classification_does_not_change_state :: bool where
  "ut_no_classification_does_not_change_state \<longleftrightarrow>
     (let b = Forced;
          (s1, _) = streak_observe 3 dominant_streak_default (Some b);
          (s2, _) = streak_observe 3 s1 None;
          (s3, r3) = streak_observe 3 s2 (Some b)
      in r3 = Streak_Building b 2)"

lemma checkpoint_tests:
  "ut_streak_fires_after_n_same_buckets \<and> ut_bucket_change_resets_streak
   \<and> ut_no_classification_does_not_change_state"
  by (simp add: ut_streak_fires_after_n_same_buckets_def ut_bucket_change_resets_streak_def
      ut_no_classification_does_not_change_state_def streak_observe_def
      dominant_streak_default_def sat_add_def Let_def)

section \<open>\<open>collect_pg_stmt.rs\<close>\<close>

definition ut_sample :: "i64 \<Rightarrow> u64 \<Rightarrow> f64 \<Rightarrow> u64 \<Rightarrow> statement_sample" where
  "ut_sample queryid calls exec_ms rows =
     \<lparr>sp_queryid = queryid, sp_database = ''app'', sp_username = ''pgsleuth_agent'',
      sp_calls = calls, sp_total_exec_time_ms = exec_ms, sp_rows = rows,
      sp_shared_blks_hit = 0, sp_shared_blks_read = 0\<rparr>"

definition ut_delta_saturates_on_reset :: bool where
  "ut_delta_saturates_on_reset \<longleftrightarrow> delta 0 100 = 0"

definition ut_first_tick_emits_full_cumulative_as_delta :: bool where
  "ut_first_tick_emits_full_cumulative_as_delta \<longleftrightarrow> delta 42 0 = 42"

definition ut_emit_deltas_records_when_emitter_absent :: bool where
  "ut_emit_deltas_records_when_emitter_absent \<longleftrightarrow>
     (let samples = [ut_sample 1 100 (Fin 21 (- 1)) 200, ut_sample 2 50 (Fin 5 0) 75];
          (prev1, _) = emit_deltas False samples Map.empty;
          next_samples = [ut_sample 1 150 (Fin 20 0) 300, ut_sample 2 50 (Fin 5 0) 75];
          (prev2, _) = emit_deltas False next_samples prev1
      in map_option pc_calls (prev1 1) = Some 100 \<and> map_option pc_calls (prev1 2) = Some 50
         \<and> map_option pc_calls (prev2 1) = Some 150 \<and> map_option pc_calls (prev2 2) = Some 50)"

lemma statement_tests:
  "ut_delta_saturates_on_reset \<and> ut_first_tick_emits_full_cumulative_as_delta
   \<and> ut_emit_deltas_records_when_emitter_absent"
  by (simp add: ut_delta_saturates_on_reset_def ut_first_tick_emits_full_cumulative_as_delta_def
      ut_emit_deltas_records_when_emitter_absent_def ut_sample_def delta_def sat_sub_def
      emit_deltas_def emit_sample_def cumulative_of_def Let_def)

end
