(* ===== verification/Tests_Loader.thy ===== *)
theory Tests_Loader
  imports Loader
begin

text \<open>
  The unit tests of \<open>pgsleuth-ebpf-loader\<close>, each translated as the conjunction of its assertions
  and evaluated on the model.
\<close>

section \<open>The loader\<close>

definition ut_discovery :: "i32 \<Rightarrow> pg_discovery" where
  "ut_discovery pid = \<lparr>pd_postmaster_pid = pid, pd_wal_dev_t = None\<rparr>"

definition ut_explicit_pid_wins_over_discovery :: bool where
  "ut_explicit_pid_wins_over_discovery \<longleftrightarrow>
     resolve_pid_filter (Some 7) None (Some (ut_discovery 42)) = Some 7"

definition ut_cgroup_id_suppresses_auto_pid :: bool where
  "ut_cgroup_id_suppresses_auto_pid \<longleftrightarrow>
     resolve_pid_filter None (Some 99) (Some (ut_discovery 42)) = None"

definition ut_discovery_pid_used_when_no_flags :: bool where
  "ut_discovery_pid_used_when_no_flags \<longleftrightarrow>
     resolve_pid_filter None None (Some (ut_discovery 42)) = Some 42"

definition ut_no_filter_without_discovery_or_flags :: bool where
  "ut_no_filter_without_discovery_or_flags \<longleftrightarrow> resolve_pid_filter None None None = None"

definition ut_negative_postmaster_pid_is_rejected :: bool where
  "ut_negative_postmaster_pid_is_rejected \<longleftrightarrow>
     resolve_pid_filter None None (Some (ut_discovery (- 1))) = None"

definition ut_parses_kernel_dev_t_basic :: bool where
  "ut_parses_kernel_dev_t_basic \<longleftrightarrow> parse_kernel_dev_t ''254:1'' = Some 0x0FE00001"

definition ut_parses_kernel_dev_t_trims_whitespace :: bool where
  "ut_parses_kernel_dev_t_trims_whitespace \<longleftrightarrow>
     parse_kernel_dev_t ''  8 : 16  '' = Some (or (push_bit 20 8) 16)"

definition ut_rejects_bad_dev_t_strings :: bool where
  "ut_rejects_bad_dev_t_strings \<longleftrightarrow>
     parse_kernel_dev_t [] = None \<and> parse_kernel_dev_t ''254'' = None
     \<and> parse_kernel_dev_t ''a:b'' = None \<and> parse_kernel_dev_t ''254:1:0'' = None"

definition ut_rejects_dev_t_field_overflow :: bool where
  "ut_rejects_dev_t_field_overflow \<longleftrightarrow>
     parse_kernel_dev_t ''4096:0'' = None \<and> parse_kernel_dev_t ''0:1048576'' = None"

definition ut_op_class_str_covers_all_known_variants :: bool where
  "ut_op_class_str_covers_all_known_variants \<longleftrightarrow>
     op_class_str (op_class_u8 Op_Read) = ''read''
     \<and> op_class_str (op_class_u8 Op_Write) = ''write''
     \<and> op_class_str (op_class_u8 Op_WriteFlush) = ''write_flush''
     \<and> op_class_str (op_class_u8 Op_Other) = ''other'' \<and> op_class_str 99 = ''other''"

definition ut_p50_of_empty_is_none :: bool where
  "ut_p50_of_empty_is_none \<longleftrightarrow> p50_ns [] = None"

definition ut_p50_of_odd_count_is_middle :: bool where
  "ut_p50_of_odd_count_is_middle \<longleftrightarrow> p50_ns [1, 5, 3, 9, 2] = Some 3"

definition ut_p50_of_even_count_returns_upper_middle :: bool where
  "ut_p50_of_even_count_returns_upper_middle \<longleftrightarrow> p50_ns [1, 2, 3, 4] = Some 3"

definition ut_build_finding_carries_evidence_and_attrs :: "datetime \<Rightarrow> bool" where
  "ut_build_finding_carries_evidence_and_attrs now \<longleftrightarrow>
     (let f = fsync_build_finding now ''prod-pg'' ''dev_t=266338304'' 42 10 4 1000
      in f_rule_id f = ''storage.wal.fsync.jitter'' \<and> f_tier f = Deep \<and> f_severity f = High
         \<and> inst_id (f_pg_instance f) = ''prod-pg''
         \<and> map_of (f_otel_attributes f) ''pgsleuth.wal.device''
             = Some (Attr_String ''dev_t=266338304'')
         \<and> json_field (f_evidence f) ''p50_ms'' = JNum 42
         \<and> json_field (f_evidence f) ''streak_intervals'' = JNum 4)"

lemma filter_tests:
  "ut_explicit_pid_wins_over_discovery \<and> ut_cgroup_id_suppresses_auto_pid
   \<and> ut_discovery_pid_used_when_no_flags \<and> ut_no_filter_without_discovery_or_flags
   \<and> ut_negative_postmaster_pid_is_rejected"
  by (simp add: ut_explicit_pid_wins_over_discovery_def ut_cgroup_id_suppresses_auto_pid_def
      ut_discovery_pid_used_when_no_flags_def ut_no_filter_without_discovery_or_flags_def
      ut_negative_postmaster_pid_is_rejected_def resolve_pid_filter_def ut_discovery_def
      u32_try_of_i32_def)

lemma ut_trims:
  "trim ''  8 '' = ''8''" "trim '' 16  '' = ''16''" "trim ''254'' = ''254''" "trim ''1'' = ''1''"
  "trim ''a'' = ''a''" "trim ''1:0'' = ''1:0''" "trim ''4096'' = ''4096''" "trim ''0'' = ''0''"
  "trim ''1048576'' = ''1048576''"
  by code_simp+

lemma dev_t_tests:
  "ut_parses_kernel_dev_t_basic \<and> ut_parses_kernel_dev_t_trims_whitespace
   \<and> ut_rejects_bad_dev_t_strings \<and> ut_rejects_dev_t_field_overflow"
  by (simp add: ut_parses_kernel_dev_t_basic_def ut_parses_kernel_dev_t_trims_whitespace_def
      ut_rejects_bad_dev_t_strings_def ut_rejects_dev_t_field_overflow_def parse_kernel_dev_t_def
      ut_trims parse_uint_def is_digit_def code_def word_le_nat_alt)

lemma median_tests:
  "ut_p50_of_empty_is_none \<and> ut_p50_of_odd_count_is_middle
   \<and> ut_p50_of_even_count_returns_upper_middle \<and> ut_op_class_str_covers_all_known_variants"
  by (simp add: ut_p50_of_empty_is_none_def ut_p50_of_odd_count_is_middle_def
      ut_p50_of_even_count_returns_upper_middle_def ut_op_class_str_covers_all_known_variants_def
      p50_ns_def op_class_str_def)

lemma loader_finding_tests: "ut_build_finding_carries_evidence_and_attrs now"
  by (simp add: ut_build_finding_carries_evidence_and_attrs_def fsync_build_finding_def
      json_field_def Let_def)

end
