(* ===== verification/Tests_Pg_Ext.thy ===== *)
theory Tests_Pg_Ext
  imports Pg_Ext
begin

text \<open>
  The tests of \<open>crates/pgsleuth-pg-ext/src/lib.rs\<close>. They run inside a server: its answers, \<open>libc\<close> and
  the program \<open>stat\<close> are parameters. Two of the tests hold whenever the functions return; the
  third compares the extension with a formula for \<open>dev_t\<close>, and when it holds is stated exactly.
\<close>

section \<open>The two simple tests\<close>

definition ut_wal_device_returns_major_minor :: "string option \<Rightarrow> bool" where
  "ut_wal_device_returns_major_minor device =
     (case device of None \<Rightarrow> False | Some dev \<Rightarrow> contains '':'' dev)"

definition ut_postmaster_pid_is_positive :: "i32 \<Rightarrow> bool" where
  "ut_postmaster_pid_is_positive postmaster \<longleftrightarrow> 0 < sint (pgsleuth_postmaster_pid postmaster)"

lemma contains_middle: "contains [c] (l @ c # r)"
  by (induction l) simp_all

lemma wal_device_form_test:
  "stat_dev (from_utf8_lossy data_dir @ ''/pg_wal'') = Some dev \<Longrightarrow>
     ut_wal_device_returns_major_minor (pgsleuth_wal_device libc_major libc_minor stat_dev data_dir)"
  by (simp add: ut_wal_device_returns_major_minor_def pgsleuth_wal_device_def contains_middle)

text \<open>A postmaster id that passes its test is one the loader can filter on.\<close>

lemma positive_pid_is_filtered:
  "ut_postmaster_pid_is_positive postmaster \<Longrightarrow>
     resolve_pid_filter None None
       (Some \<lparr>pd_postmaster_pid = pgsleuth_postmaster_pid postmaster, pd_wal_dev_t = d\<rparr>) =
     Some postmaster"
  by (simp add: ut_postmaster_pid_is_positive_def resolve_pid_filter_def u32_try_of_i32_def
      pgsleuth_postmaster_pid_def)

section \<open>The comparison with \<open>stat\<close>\<close>

definition ut_expected_major :: "u64 \<Rightarrow> u64" where
  "ut_expected_major st_dev = or (and (drop_bit 8 st_dev) 0xfff) (and (drop_bit 32 st_dev) (not 0xfff))"

definition ut_expected_minor :: "u64 \<Rightarrow> u64" where
  "ut_expected_minor st_dev = or (and st_dev 0xff) (and (drop_bit 12 st_dev) (not 0xff))"

text \<open>The assertion of \<open>test_wal_device_matches_stat_on_pgdata\<close>, for the \<open>st_dev\<close> that \<open>stat\<close> printed.\<close>

definition ut_wal_device_matches_stat ::
  "(u64 \<Rightarrow> u32) \<Rightarrow> (u64 \<Rightarrow> u32) \<Rightarrow> (string \<Rightarrow> u64 option) \<Rightarrow> string \<Rightarrow> u64 \<Rightarrow> bool" where
  "ut_wal_device_matches_stat libc_major libc_minor stat_dev data_dir st_dev \<longleftrightarrow>
     pgsleuth_wal_device libc_major libc_minor stat_dev data_dir =
       Some (dec (unat (ut_expected_major st_dev)) @ CHR '':'' # dec (unat (ut_expected_minor st_dev)))"

lemma device_text_inject:
  "dec a @ CHR '':'' # dec b = dec a' @ CHR '':'' # dec b' \<longleftrightarrow> a = a' \<and> b = b'"
proof
  assume "dec a @ CHR '':'' # dec b = dec a' @ CHR '':'' # dec b'"
  then have "split_once CHR '':'' (dec a @ CHR '':'' # dec b) =
      split_once CHR '':'' (dec a' @ CHR '':'' # dec b')"
    by simp
  then show "a = a' \<and> b = b'" by (simp add: split_once_found [OF colon_not_digit])
qed simp

text \<open>The test holds exactly when the two numbers of \<open>libc\<close> are those of its formula.\<close>

lemma wal_device_test_iff:
  assumes "stat_dev (from_utf8_lossy data_dir @ ''/pg_wal'') = Some dev"
  shows "ut_wal_device_matches_stat libc_major libc_minor stat_dev data_dir dev \<longleftrightarrow>
    unat (libc_major dev) = unat (ut_expected_major dev)
    \<and> unat (libc_minor dev) = unat (ut_expected_minor dev)"
  using assms by (simp add: ut_wal_device_matches_stat_def pgsleuth_wal_device_def device_text_inject)

lemma small_word_bit: "unat w < 2 ^ n \<Longrightarrow> n \<le> k \<Longrightarrow> \<not> bit w k" for w :: "'a::len word"
proof
  assume "unat w < 2 ^ n" "n \<le> k" "bit w k"
  then have "take_bit n (unat w) = unat w" by (simp add: take_bit_nat_eq_self)
  then have "bit (take_bit n (unat w)) k" using \<open>bit w k\<close> by (simp add: bit_unsigned_iff)
  with \<open>n \<le> k\<close> show False by (simp add: bit_take_bit_iff)
qed

text \<open>
  The formula takes every bit of the \<open>dev_t\<close> from 20 upwards into the minor number, where \<open>libc\<close> has
  32 bits: for a \<open>dev_t\<close> of more than 44 bits (a major number of 4096 or more) the test fails
  whatever the extension returns.
\<close>

lemma wal_device_test_fails_above_44_bits:
  assumes "2 ^ 44 \<le> unat st_dev"
  shows "\<not> ut_wal_device_matches_stat libc_major libc_minor stat_dev data_dir st_dev"
proof
  assume "ut_wal_device_matches_stat libc_major libc_minor stat_dev data_dir st_dev"
  then obtain m :: u32 where m: "unat m = unat (ut_expected_minor st_dev)"
    by (auto simp: ut_wal_device_matches_stat_def pgsleuth_wal_device_def Let_def device_text_inject
        split: option.splits)
  have "unat m < 2 ^ 32" by simp
  then have "unat (ut_expected_minor st_dev) < 2 ^ 32" by (simp only: m)
  then have high: "\<not> bit (ut_expected_minor st_dev) k" if "32 \<le> k" for k
    using that by (rule small_word_bit)
  have "take_bit 44 st_dev = st_dev"
  proof (rule bit_eqI)
    fix n
    assume "possible_bit TYPE(u64) n"
    then have n: "n < 64" by simp
    have "\<not> bit st_dev n" if "44 \<le> n"
    proof -
      have "\<not> bit (0xff :: u64) (n - 12)"
        using that by (intro small_word_bit [of _ 8]) simp_all
      then have "bit (ut_expected_minor st_dev) (n - 12) \<longleftrightarrow> bit st_dev n"
        using that n
        by (simp only: ut_expected_minor_def bit_or_iff bit_and_iff bit_not_iff bit_drop_bit_eq) auto
      with high [of "n - 12"] that show ?thesis by simp
    qed
    then show "bit (take_bit 44 st_dev) n \<longleftrightarrow> bit st_dev n"
      by (cases "44 \<le> n") (simp_all add: bit_take_bit_iff)
  qed
  then have "unat st_dev = take_bit 44 (unat st_dev)" by (metis unsigned_take_bit_eq)
  then have "unat st_dev < 2 ^ 44" by (metis take_bit_nat_less_exp)
  with assms show False by simp
qed

text \<open>
  The whole test: \<open>stat\<close> is run on the directory the server names; its output is the number the
  formula splits.
\<close>

definition ut_wal_device_matches_stat_on_pgdata ::
  "(u64 \<Rightarrow> u32) \<Rightarrow> (u64 \<Rightarrow> u32) \<Rightarrow> (string \<Rightarrow> u64 option) \<Rightarrow> string
   \<Rightarrow> (string \<Rightarrow> (bool \<times> string) option) \<Rightarrow> string \<Rightarrow> bool" where
  "ut_wal_device_matches_stat_on_pgdata libc_major libc_minor stat_dev data_dir_bytes stat_cmd data_dir =
     (let wal_dir = data_dir @ ''/pg_wal'' in
      case stat_cmd wal_dir of
        None \<Rightarrow> False
      | Some (success, stdout) \<Rightarrow>
          success
          \<and> (case parse_uint (2 ^ 64) (trim (from_utf8_lossy stdout)) of
               None \<Rightarrow> False
             | Some st_dev \<Rightarrow>
                 ut_wal_device_matches_stat libc_major libc_minor stat_dev data_dir_bytes
                   (of_nat st_dev)))"

text \<open>A \<open>stat\<close> that prints the device as a decimal line hands the formula that device.\<close>

lemma stat_line_parses:
  "n < 2 ^ 64 \<Longrightarrow> parse_uint (2 ^ 64) (trim (from_utf8_lossy (dec n @ [CHR 0x0A]))) = Some n"
proof -
  assume n: "n < 2 ^ 64"
  have "code c < 128" if "c \<in> set (dec n @ [CHR 0x0A])" for c
    using that by (auto dest!: dec_digits simp: is_digit_def code_def)
  then have "from_utf8_lossy (dec n @ [CHR 0x0A]) = dec n @ [CHR 0x0A]"
    by (intro valid_utf8_lossy valid_utf8_ascii) blast
  then show ?thesis using n by (simp add: trim_newline parse_uint_dec)
qed

lemma stat_test_on_honest_stat:
  assumes "stat_cmd (data_dir @ ''/pg_wal'') = Some (True, dec (unat (dev :: u64)) @ [CHR 0x0A])"
  shows "ut_wal_device_matches_stat_on_pgdata libc_major libc_minor stat_dev data_dir_bytes stat_cmd
      data_dir
    \<longleftrightarrow> ut_wal_device_matches_stat libc_major libc_minor stat_dev data_dir_bytes dev"
proof -
  have "unat dev < 2 ^ 64" by simp
  from stat_line_parses [OF this] show ?thesis
    using assms by (simp add: ut_wal_device_matches_stat_on_pgdata_def Let_def)
qed

end
