(* ===== verification/Spec2Isabelle.thy ===== *)
theory Spec2Isabelle
  imports Cli_Main Server_Sessions Server_Statements Pg_Ext Agent_Rings Xtask
    Tests_Core Tests_Otel Tests_Cli Tests_Loader Tests_Pg_Ext
begin

text \<open>
  pgsleuth watches PostgreSQL servers. This library models its Rust agent and proves what its
  alarms, collectors and kernel probes compute. Paths below are relative to the repository.

  \<^bold>\<open>The program.\<close> The agent consists of two executables. The command-line program
  \<open>crates/pgsleuth-cli\<close> runs one of six subcommands; each polls a source once per interval (a
  cgroup file, a directory and its file system, or views of the server through
  \<open>crates/pgsleuth-postgres\<close>) and either raises an alarm or exports counters. The eBPF loader
  \<open>crates/pgsleuth-ebpf-loader\<close> runs as root: it asks the server extension \<open>crates/pgsleuth-pg-ext\<close>
  for the postmaster and the WAL device, hands a filter to the kernel programs of
  \<open>crates/pgsleuth-ebpf\<close> and evaluates two rules over the events they send through ring buffers,
  whose layout is \<open>crates/pgsleuth-ebpf-common\<close>. An alarm is a \<open>Finding\<close> (\<open>crates/pgsleuth-core\<close>),
  made into an OpenTelemetry log record by \<open>crates/pgsleuth-otel\<close>.

  \<^bold>\<open>The theories\<close>, in the order of their imports.
  \<^item> \<open>Prelude\<close>: machine integers with Rust's saturating and checked operations, \<open>BTreeMap\<close> insertion,
    and \<open>tick_outs\<close>, \<open>after\<close> and \<open>count_ticks\<close>, by which every loop is read: its outputs, the state
    after a list of ticks, and the number of ticks with a property. The collection \<open>unat_simps\<close>
    reads word operations as natural numbers.
  \<^item> \<open>Rust_Text\<close>, \<open>Utf8\<close>, \<open>F64\<close>: the standard-library text operations the agent uses, on the
    bytes of a string (\<open>Utf8\<close> holds the facts about \<open>from_utf8_lossy\<close>), and IEEE-754 doubles with their
    rounding, comparison and saturating cast.
  \<^item> \<open>Edge_Alarm\<close>: three interfaces, described below.
  \<^item> \<open>Window\<close> (\<open>pgsleuth-core/src/window.rs\<close>): \<open>ConsecutiveBreachCounter\<close> as \<open>breach_counter\<close>, its
    \<open>observe\<close>, \<open>streak\<close> and \<open>is_firing\<close>.
  \<^item> \<open>Finding\<close>, \<open>Finding_Json\<close>, \<open>Finding_Read\<close> (\<open>pgsleuth-core/src/finding.rs\<close>): the envelope and
    the effects of a rule, and its derived serialization to and from JSON values.
  \<^item> \<open>Otel_Mapping\<close>, \<open>Otel_Metrics\<close> (\<open>pgsleuth-otel/src/\<close>): the log record of a finding, the
    pipelines and instruments the emitters ask for, and what is asked of the instruments.
  \<^item> \<open>Pg_Version\<close>, \<open>Stat_Activity\<close>, \<open>Stat_Checkpointer\<close>, \<open>Stat_Statements\<close>
    (\<open>pgsleuth-postgres/src/\<close>): the version gate, the three polls, the checkpoint classifier.
  \<^item> \<open>Sql\<close>, \<open>Server_Sessions\<close>, \<open>Server_Statements\<close>: the queries of \<open>pgsleuth-postgres\<close> on the tables
    and views of a server, and what the polls, the alarm and the counters say of these tables.
  \<^item> \<open>Cgroup_Throttle\<close>, \<open>Temp_Spill\<close>, \<open>Checkpoint_Storm\<close>, \<open>Connection_Storm\<close>, \<open>Collect_Pg_Stmt\<close>
    (\<open>pgsleuth-cli/src/\<close>, one theory per file; \<open>Connection_Storm\<close> also holds the activity collector):
    each has the loop body as a step function \<open>*_tick\<close> on the loop's local variables and the loop as
    \<open>tick_outs\<close> of it over the answers of the outside.
  \<^item> \<open>Cli_Main\<close> (\<open>pgsleuth-cli/src/main.rs\<close>): arguments and their default values, dispatch and
    emitter life cycle.
  \<^item> \<open>Ebpf_Common\<close>, \<open>Wire\<close>, \<open>Ebpf_Probes\<close> (\<open>pgsleuth-ebpf-common\<close>, \<open>pgsleuth-ebpf\<close>): the records on
    the wire, their bytes under \<open>repr(C)\<close> and back, and the five kernel programs.
  \<^item> \<open>Loader_Setup\<close>, \<open>Loader\<close>, \<open>Loader_Life\<close> (\<open>pgsleuth-ebpf-loader/src/main.rs\<close>): the start-up as
    the sequence \<open>bpf_startup\<close> of calls to the eBPF library, each with the error it ends in;
    discovery, the filter configuration, both rules, and the \<open>select!\<close> loop as the step function
    \<open>loader_step\<close> on \<open>loader_state\<close>, with the states it can reach as \<open>loader_reach\<close>; and what a
    whole run does, from \<open>loader_main\<close> to its end.
  \<^item> \<open>Agent_System\<close> (\<open>pgsleuth-ebpf\<close> and \<open>pgsleuth-ebpf-loader\<close> together): the kernel programs, the
    map \<open>INFLIGHT\<close>, the four ring buffers with the bytes of unread records, and the loader, as one
    state \<open>agent_state\<close>; \<open>agent_step\<close> runs one kernel program or one arm of the \<open>select!\<close>, and
    \<open>agent_run\<close> relates a list of events, interleaved in any way, to the state and the effects it
    leads to. \<open>Agent_Rings\<close> adds the sizes of the ring buffers: when a reservation must succeed.
  \<^item> \<open>Pg_Ext\<close> (\<open>pgsleuth-pg-ext/src/lib.rs\<close>): the two SQL functions.
  \<^item> \<open>Xtask\<close> (\<open>xtask/src/main.rs\<close>): the build helper around \<open>cargo\<close>.
  \<^item> \<open>Tests_Core\<close>, \<open>Tests_Otel\<close>, \<open>Tests_Cli\<close>, \<open>Tests_Loader\<close>, \<open>Tests_Pg_Ext\<close>: the tests of the
    repository, each the conjunction \<open>ut_*\<close> of its assertions over the definitions of the other
    theories; those of the extension, which run in a server, with its answers as arguments.
  \<^item> This theory: properties that span the extension, the kernel programs, the loader and the
    subcommands.

  \<^bold>\<open>Interfaces.\<close> \<open>edge_alarm\<close> is the contract of every alarm: it fires only when armed or re-armed by
  that tick, firing disarms it, only a re-arming tick arms it again; its lemmas bound the number of
  reports of a run. The breach counter, the dominant streak, the checkpoint loop and the temp-spill
  loop are interpretations. \<open>history_detector\<close> relates the state of a detector to the list of inputs
  it has seen; interpreted by the counter, the streak, all four alarm loops and the statement
  collector, it turns "the next tick is right" into "the run is right". \<open>sustained_alarm\<close> extends it
  by a level of the history (a breach run, a streak, a breached threshold) and what a tick reports:
  a report is made when the level becomes due, so a level that is due has been reported; the counter
  and the four alarm loops are interpretations. \<open>bpf_hash_map\<close> states what
  BPF documents of the map \<open>INFLIGHT\<close>: insertion with \<open>BPF_ANY\<close> may fail only for a new key in a
  full map. Per request the block programs are an \<open>edge_alarm\<close> (a \<open>sublocale\<close>), and an association
  list of at most 8192 entries, the size the code declares, interprets it.

  \<^bold>\<open>What the properties show.\<close>
  \<^item> Refinements of the alarms: the counter, the streak, the two rules of the loader and the four
    alarm loops report exactly on the ticks their declarative specification over the whole history
    names (\<open>observe_refines_run_length\<close>, \<open>fsync_rule_refines\<close>, \<open>*_run_refines\<close>), and how often.
  \<^item> Exactness of the arithmetic: thresholds and sums on saturating and truncating words and on
    doubles equal their mathematical reading or its stated cap (\<open>cgroup_breach_exact\<close>,
    \<open>breaches_exact\<close>, \<open>footprint_is_capped_sum\<close>, \<open>classify_refines_spec\<close>, \<open>f64_clamp_exact\<close>). The
    classifier is compared with rational arithmetic for times below \<open>2 ^ 50\<close> ms, about 35,000 years,
    where doubles are exact.
  \<^item> Collectors: the counter increments of a run are the differences of the cumulative values, with
    a reset of the statistics visible as stated (\<open>counters_track_cumulative\<close>).
  \<^item> The server behind the polls: the totals of an activity snapshot are numbers of client sessions
    (\<open>activity_poll_counts_sessions\<close>), the connection alarm reports on runs of polls that found too
    many of them (\<open>connection_storm_watches_sessions\<close>), and the statement counters show the values
    in the table of the server (\<open>counters_show_server\<close>), in whatever order rows are returned.
  \<^item> Kernel programs: every latency belongs to the latest open issue of its request, once, and none
    is lost within the capacity of the map; what each filter lets pass.
  \<^item> Start and end: the loader attaches nothing before its filter is set, ends only by Ctrl-C or a
    poll error, and then shuts its emitters down or not as stated (\<open>filter_set_before_attach\<close>,
    \<open>loader_lifecycle\<close>); the subcommands that need a server version or an extension start exactly when they are there, and return an error after the shutdown of the
    emitter they had built (\<open>startup_gates\<close>); a run that polls never asks for it
    (\<open>shutdown_only_on_error\<close>).
  \<^item> The system: nothing is lost, invented or reordered between the kernel programs and the loader
    (\<open>agent_run_conserves\<close>); behind each fsync alarm is a write that took longer than the threshold
    (\<open>fsync_alarm_is_real\<close>); the reported spills are exactly the captured ones
    (\<open>agent_spills_exact\<close>); and while at most 185 file events wait in their buffer, which then has room
    for one more, every file a filtered process spills is reported once, with its path unchanged
    (\<open>spilled_file_reported_once\<close>).
  \<^item> Liveness: while the device is slow and ticks have samples, the fsync rule is reported however
    events interleave (\<open>slow_device_is_reported\<close>), and a problem that lasts as long as an alarm of a
    subcommand waits for is reported (\<open>lasting_problem_is_reported\<close>).
  \<^item> Interfaces between the parts: the mapping to log records loses nothing of a finding, the device
    the extension prints is the device the loader filters on, the parser reads back what the kernel
    prints, and the bytes an event has in a ring buffer are read back as that event (\<open>events_survive_ring_buffers\<close>).
    Every finding of either program is read back from its JSON value (\<open>agent_findings_survive_json\<close>).
  \<^item> Types: every finding of either program is well formed and hides none of the stable keys
    (\<open>agent_findings_wellformed\<close>), and every metric call names one instrument of the right kind.
  \<^item> The model passes the repository's own unit tests (\<open>unit_tests_pass\<close>).
  \<^item> Behaviours an operator should know of: \<open>shared_queryid_overcounts\<close>,
    \<open>default_filter_misses_backends\<close>, \<open>skipped_reads_inflate_rate\<close> and
    \<open>unclassified_does_not_rearm\<close>.

  \<^bold>\<open>Parameters.\<close> The contents of the server's views and tables at each query, the order of the rows
  of an answer (the queries have no \<open>ORDER BY\<close>, so an answer is compared as a multiset) and whether a
  query fails (None); \<open>EXTRACT\<close> is exact, as since PostgreSQL 14; file contents
  and directory listings, \<open>stat\<close> and the split of a \<open>dev_t\<close>, the clock of a finding, what the
  kernel gives a program, the order in which programs and arms run, whether a connection, an
  exporter or a call of the eBPF library succeeds, the text of a JSON value (\<open>serde_json\<close>) and of a
  timestamp (chrono), and the process \<open>cargo\<close>. A loop is run on a finite list of such answers, of
  any length; no definition uses fuel, all recursion is shown to terminate. Errors are values of
  \<open>agent_error\<close>; panics are None, \<open>Rt_Panicked\<close> (a period of zero at \<open>tokio::time::interval\<close>) or
  \<open>Out_Panic\<close>. \<open>Row::get\<close> is taken not to panic: every column it reads is cast in SQL to the type it
  is read as, or is text, and is not null in PostgreSQL's views. Sums of 64-bit values wrap, as they do in a release
  build. Whether a reservation in a ring buffer succeeds is the kernel's choice; \<open>kernel_honest\<close>
  states that it does when there is room, where a property needs it.

  \<^bold>\<open>Not modelled.\<close> The text of JSON and of timestamps; what the OpenTelemetry SDK does behind its
  instruments and pipelines; parsing of the command line (clap; the arguments and their defaults are
  values); what the eBPF library does in a call (aya); the pgrx glue, which is macros without code
  of its own; start-up log lines other than those of \<open>log_filter_state\<close>; real time (a tick is an
  answer, late ticks are the runtime's business); the Python service under \<open>brain/\<close>, and deployment
  files.
\<close>

section \<open>Findings of the loader\<close>

lemma fsync_finding_ok [builder_ok]: "agent_finding (fsync_build_finding now i d p t s iv)"
  by (simp add: agent_finding_def wf_finding_def fsync_build_finding_def btree_wf_def
      stable_keys_def)

lemma temp_file_finding_ok [builder_ok]: "agent_finding (build_temp_file_finding now i p c pa s)"
  by (simp add: agent_finding_def wf_finding_def build_temp_file_finding_def btree_wf_def
      stable_keys_def)

lemma on_temp_emits:
  "Eff_Emit f \<in> set (concat (tick_outs (on_temp cfg) seen es)) \<Longrightarrow> agent_finding f"
  by (induction es arbitrary: seen)
    (auto simp: on_temp_def Let_def builder_ok split: if_splits)

lemma on_latency_emits: "Eff_Emit f \<notin> set (concat (tick_outs (on_latency cfg) samples es))"
  by (induction es arbitrary: samples) (auto simp: on_latency_def)

lemma on_tick_emits: "Eff_Emit f \<in> set (snd (on_tick cfg now c samples)) \<Longrightarrow> agent_finding f"
  by (auto simp: on_tick_def Let_def builder_ok split: breach_state.splits if_splits)

lemma loader_step_emits:
  "Eff_Emit f \<in> set (snd (loader_step cfg st ev)) \<Longrightarrow> agent_finding f"
  by (cases ev)
    (auto simp: loader_step_def Let_def on_trace_def on_block_def loader_shutdown_def
      simp del: set_concat split: if_splits
      dest: on_temp_emits on_tick_emits simp: on_latency_emits)

section \<open>From the kernel programs to the rules of the loader\<close>

definition discovered_config ::
  "loader_args \<Rightarrow> bool \<Rightarrow> (string \<times> i32) option \<Rightarrow> filter_config" where
  "discovered_config args connects row =
     loader_filter_config args (loader_discovery args connects row)"

lemma completion_key:
  "snd (block_rq_complete bget brem config m ctx) = Some ev \<Longrightarrow>
     \<exists>k t. rq_of config ctx = Some k \<and> ev = latency_event ctx k t"
  by (auto simp: block_rq_complete_eq split: option.splits if_splits)

lemma issue_dev:
  "snd (block_rq_issue bins config m ctx) = Some ev \<Longrightarrow>
     \<exists>k. rq_of config ctx = Some k \<and> be_dev ev = rk_dev k"
  by (auto simp: block_rq_issue_def rq_of_def Let_def split: option.splits if_splits)

lemma rq_dev: "rq_of (Some cfg) ctx = Some k \<Longrightarrow> fc_dev_t cfg = 0 \<or> rk_dev k = fc_dev_t cfg"
  by (auto simp: rq_of_def split: option.splits if_splits)

lemma discovered_dev_t:
  assumes "la_pg_conn args \<noteq> []" and "la_dev_t args = None"
    and "extension_row libc_major libc_minor stat_dev data_dir postmaster = Some row"
    and "stat_dev (from_utf8_lossy data_dir @ ''/pg_wal'') = Some dev"
    and "unat (libc_major dev) < 2 ^ 12" and "unat (libc_minor dev) < 2 ^ 20"
  shows "unat (fc_dev_t (discovered_config args True (Some row))) =
    unat (libc_major dev) * 2 ^ 20 + unat (libc_minor dev)"
proof -
  have "fst row = dec (unat (libc_major dev)) @ CHR '':'' # dec (unat (libc_minor dev))"
    using assms(3,4) by (auto simp: extension_row_def pgsleuth_wal_device_def Let_def)
  then have "parse_kernel_dev_t (fst row) =
      Some (or (push_bit 20 (of_nat (unat (libc_major dev)))) (of_nat (unat (libc_minor dev))))"
    using parse_kernel_dev_t_dec [of "unat (libc_major dev)" "unat (libc_minor dev)"] assms(5,6)
    by simp
  then show ?thesis
    using assms(1,2) kernel_dev_t_value [OF assms(5,6)]
    by (cases row)
      (simp add: discovered_config_def loader_filter_config_def effective_dev_t_def
        loader_discovery_def discover_via_pg_ext_def)
qed

text \<open>
  C13. The block programs observe the WAL device only: when the loader discovers the device through
  the extension and no \<open>--dev-t\<close> overrides it, every issue and every latency event the programs
  emit is about the device with exactly the major and minor number of the one that holds
  \<open>pg_wal\<close>, unless that is device 0:0, which switches the filter off.
\<close>

theorem block_events_on_wal_device:
  assumes "la_pg_conn args \<noteq> []" and "la_dev_t args = None"
    and "extension_row libc_major libc_minor stat_dev data_dir postmaster = Some row"
    and "stat_dev (from_utf8_lossy data_dir @ ''/pg_wal'') = Some dev"
    and "unat (libc_major dev) < 2 ^ 12" and "unat (libc_minor dev) < 2 ^ 20"
    and "0 < unat (libc_major dev) \<or> 0 < unat (libc_minor dev)"
    and "config = Some (discovered_config args True (Some row))"
  shows "(snd (block_rq_complete bget brem config m ctx) = Some ev \<longrightarrow>
      unat (le_dev ev) = unat (libc_major dev) * 2 ^ 20 + unat (libc_minor dev))
    \<and> (snd (block_rq_issue bins config m ctx) = Some ev' \<longrightarrow>
      unat (be_dev ev') = unat (libc_major dev) * 2 ^ 20 + unat (libc_minor dev))"
proof -
  note dev = discovered_dev_t [OF assms(1-6)]
  then have nz: "fc_dev_t (discovered_config args True (Some row)) \<noteq> 0"
    using assms(7) by (auto simp flip: unat_eq_0)
  have "rk_dev k = fc_dev_t (discovered_config args True (Some row))"
    if "rq_of config ctx = Some k" for k
    using rq_dev [of "discovered_config args True (Some row)" ctx k] that nz assms(8) by simp
  then show ?thesis
    using completion_key [of bget brem config m ctx ev] issue_dev [of bins config m ctx ev'] dev
    by (auto simp: latency_event_def)
qed

theorem block_events_on_wal_device_witness:
  "unat (le_dev (latency_event (example_ctx 9000)
      \<lparr>rk_dev = 0x800010, rk_pad = 0, rk_sector = 4096\<rparr> 1500)) = 8 * 2 ^ 20 + 16"
proof -
  let ?row = "(dec 8 @ CHR '':'' # dec 16, 42 :: i32)"
  have row: "extension_row (\<lambda>_. 8) (\<lambda>_. 16) (\<lambda>_. Some 2064) ''/var/lib/pg'' 42 = Some ?row"
    by (simp add: extension_row_def pgsleuth_wal_device_def pgsleuth_postmaster_pid_def Let_def)
  have dev: "fc_dev_t (discovered_config example_args True (Some ?row)) = 0x800010"
    using parse_kernel_dev_t_dec [of 8 16]
    by (simp add: discovered_config_def loader_filter_config_def effective_dev_t_def
        loader_discovery_def discover_via_pg_ext_def example_args_def)
  have emits: "snd (block_rq_complete map_of inflight_remove
      (Some (discovered_config example_args True (Some ?row)))
      [(\<lparr>rk_dev = 0x800010, rk_pad = 0, rk_sector = 4096\<rparr>, 1500)] (example_ctx 9000)) =
    Some (latency_event (example_ctx 9000)
      \<lparr>rk_dev = 0x800010, rk_pad = 0, rk_sector = 4096\<rparr> 1500)"
    by (simp add: block_rq_complete_eq rq_of_def dev)
      (simp add: dev example_ctx_def BLOCK_RQ_OFF_DEV_def BLOCK_RQ_OFF_SECTOR_def)
  have args: "la_pg_conn example_args \<noteq> []" "la_dev_t example_args = None"
    by (simp_all add: example_args_def)
  note all = block_events_on_wal_device [OF args row, where dev = 2064, OF _ _ _ _ refl]
  show ?thesis using mp [OF conjunct1 [OF all] emits] by simp
qed

text \<open>The process filter of a loader without \<open>--pid\<close> and \<open>--cgroup-id\<close>.\<close>

lemma discovered_pid:
  assumes "la_pid args = None" and "la_cgroup_id args = None" and "la_pg_conn args \<noteq> []"
  shows "fc_pid (discovered_config args connects row) =
    (if connects then case row of None \<Rightarrow> 0 | Some (_, pid) \<Rightarrow> if 0 < sint pid then pid else 0 else 0)"
proof -
  have zero: "p = 0" if "0 \<le> sint p" "\<not> 0 < sint p" for p :: i32
    using that by (intro signed_word_eqI) simp
  show ?thesis
    by (cases row)
      (use assms zero in \<open>auto simp: discovered_config_def loader_filter_config_def
        loader_discovery_def discover_via_pg_ext_def resolve_pid_filter_def u32_try_of_i32_def\<close>)
qed

text \<open>
  C31. What the default process filter captures: let the loader be started without \<open>--pid\<close> and
  \<open>--cgroup-id\<close> and with a connection string, as it is by default. When the discovery finds a positive postmaster id, an \<open>openat\<close> or \<open>unlinkat\<close> of any
  other process, so of every backend, is not captured, whatever its path. When the discovery fails,
  or finds no positive id, there is no process filter: the calls of every process are captured
  whose path pointer can be read and is not null, while the ring buffer has room.
\<close>

theorem default_filter_misses_backends:
  assumes "la_pid args = None" and "la_cgroup_id args = None" and "la_pg_conn args \<noteq> []"
    and "config = Some (discovered_config args connects row)"
  shows "(connects \<and> row = Some (wal_device, pid) \<and> 0 < sint pid \<and> cx_pid ctx \<noteq> pid \<longrightarrow>
      sys_enter_openat config ctx = None \<and> sys_enter_unlinkat config ctx = None)
    \<and> (\<not> (connects \<and> (\<exists>r. row = Some r \<and> 0 < sint (snd r))) \<longrightarrow>
      (sys_enter_openat config ctx \<noteq> None \<longleftrightarrow>
         (\<exists>p. cx_read_ptr ctx OPENAT_OFF_FILENAME = Some p \<and> p \<noteq> 0) \<and> cx_reserve ctx)
      \<and> (sys_enter_unlinkat config ctx \<noteq> None \<longleftrightarrow>
         (\<exists>p. cx_read_ptr ctx UNLINKAT_OFF_FILENAME = Some p \<and> p \<noteq> 0) \<and> cx_reserve ctx))"
proof -
  let ?cfg = "discovered_config args connects row"
  note pid = discovered_pid [OF assms(1-3), of connects row]
  have probe: "capture_file_syscall config ctx kind off \<noteq> None \<longleftrightarrow>
      (fc_pid ?cfg = 0 \<or> cx_pid ctx = fc_pid ?cfg)
      \<and> (\<exists>p. cx_read_ptr ctx off = Some p \<and> p \<noteq> 0) \<and> cx_reserve ctx" for kind off
    unfolding assms(4) by (rule conjunct1 [OF file_probe_filters_by_pid_only])
  show ?thesis
  proof (cases "connects \<and> (\<exists>r. row = Some r \<and> 0 < sint (snd r))")
    case True
    then obtain w p where row: "connects" "row = Some (w, p)" "0 < sint p" by auto
    then have "fc_pid ?cfg = p" "p \<noteq> 0" using pid by auto
    with row show ?thesis
      using probe by (auto simp: sys_enter_openat_def sys_enter_unlinkat_def)
  next
    case False
    then have "fc_pid ?cfg = 0" by (auto simp: pid split: option.split)
    with False show ?thesis
      unfolding sys_enter_openat_def sys_enter_unlinkat_def probe by auto
  qed
qed

theorem default_filter_misses_backends_witness:
  "sys_enter_openat (Some (discovered_config loader_args_default True (Some (''8:16'', 42))))
     (example_ctx 5) = None
   \<and> sys_enter_openat (Some (discovered_config loader_args_default False None)) (example_ctx 5) \<noteq> None"
proof -
  have args: "la_pid loader_args_default = None" "la_cgroup_id loader_args_default = None"
    "la_pg_conn loader_args_default \<noteq> []"
    by (simp_all add: loader_args_default_def)
  note filter = default_filter_misses_backends [OF args refl]
  have "0 < sint (42 :: i32) \<and> cx_pid (example_ctx 5) \<noteq> 42"
    by (simp add: example_ctx_def)
  with filter [of True "Some (''8:16'', 42)" "''8:16''" 42 "example_ctx 5"]
    filter [of False None "[]" 0 "example_ctx 5"]
  show ?thesis by (simp add: example_ctx_def)
qed

text \<open>
  C40. Which completions feed the fsync rule: a latency event counts as a sample of the median exactly
  when the kernel's flags of the request start with W or F; reads, discards and unreadable flags
  never do. The label of the metric is the class of those flags.
\<close>

theorem samples_are_writes:
  assumes "cx_read_u8x8 ctx BLOCK_RQ_OFF_RWBS = Some (c # rest)"
  shows "fst (on_latency cfg samples (latency_event ctx k t)) =
      (if c = b_W \<or> c = b_F then samples @ [sat_sub (cx_ktime_ns ctx) t] else samples)
    \<and> op_class_str (le_op_class (latency_event ctx k t)) =
      (if c = b_R then ''read''
       else if c = b_F \<or> (c = b_W \<and> (b_F \<in> set rest \<or> b_A \<in> set rest)) then ''write_flush''
       else if c = b_W then ''write'' else ''other'')"
proof -
  have "classify_rwbs (c # rest) = le_op_class (latency_event ctx k t)"
    using assms by (simp add: latency_event_def)
  then have cls: "le_op_class (latency_event ctx k t) = op_class_u8
      (if c = b_R then Op_Read
       else if c = b_F \<or> (c = b_W \<and> (b_F \<in> set rest \<or> b_A \<in> set rest)) then Op_WriteFlush
       else if c = b_W then Op_Write
       else Op_Other)"
    by (simp only: classify_rwbs_Cons)
  have "le_latency_ns (latency_event ctx k t) = sat_sub (cx_ktime_ns ctx) t"
    by (simp add: latency_event_def)
  then show ?thesis
    by (cases "c = b_R"; cases "c = b_F"; cases "c = b_W") (simp_all add: on_latency_def cls op_class_str_def)
qed

theorem samples_are_writes_witness:
  "op_class_str (le_op_class (latency_event (example_ctx 9)
      \<lparr>rk_dev = 1, rk_pad = 0, rk_sector = 2\<rparr> 5)) = ''write_flush''"
proof -
  have "cx_read_u8x8 (example_ctx 9) BLOCK_RQ_OFF_RWBS = Some (b_W # [b_F, 0x53, 0, 0, 0, 0, 0])"
    by (simp add: example_ctx_def BLOCK_RQ_OFF_RWBS_def b_W_def b_F_def)
  from conjunct2 [OF samples_are_writes [OF this]] show ?thesis by simp
qed

text \<open>
  One file through program and handler: when the \<open>openat\<close> of a process passes the filter, the
  kernel copies its path, shorter than the buffer, NUL-terminated into the event, and the path is
  valid UTF-8 that names \<open>pgsql_tmp\<close>, then a running loader that has not seen this pair of process
  and path reports it with the path unchanged, and remembers it.
\<close>

lemma temp_file_end_to_end:
  assumes "sys_enter_openat config ctx = Some ev"
    and "cx_read_ptr ctx OPENAT_OFF_FILENAME = Some ptr"
    and "cx_user_str ctx ptr (replicate FILE_EVENT_PATH_LEN 0) = map (of_nat \<circ> code) path @ 0 # junk"
    and "CHR 0x00 \<notin> set path" and "valid_utf8 path" and "contains ''pgsql_tmp'' path"
    and "ls_status st = Running" and "(cx_pid ctx, path) \<notin> ls_seen_spills st"
  shows "spills_reported (snd (loader_step cfg st (Ev_Temp [(ev, now)]))) = [(cx_pid ctx, path)]
    \<and> Eff_Spill ''openat'' (cx_pid ctx) (comm_str (comm_or_zero ctx)) path
        \<in> set (snd (loader_step cfg st (Ev_Temp [(ev, now)])))
    \<and> (cx_pid ctx, path)
        \<in> ls_seen_spills (fst (loader_step cfg st (Ev_Temp [(ev, now)])))"
proof -
  have ev: "fe_pid ev = cx_pid ctx" "fe_syscall ev = 0" "fe_comm ev = comm_or_zero ctx"
    "fe_path ev = map (of_nat \<circ> code) path @ 0 # junk"
    using assms(1-3)
    by (auto simp: sys_enter_openat_def capture_file_syscall_def Let_def split: option.splits if_splits)
  have "path_from_event (fe_path ev) = path" by (simp add: ev event_path [OF assms(4,5)])
  then show ?thesis
    using assms(6-8) by (simp add: loader_step_def on_temp_def ev Let_def syscall_str_def)
qed

lemma temp_file_end_to_end_witness:
  "spills_reported (snd (loader_step example_loader loader_init
     (Ev_Temp [(\<lparr>fe_pid = 10, fe_syscall = 0, fe_pad = replicate 3 0, fe_bytes = 0,
        fe_query_hash = 0, fe_comm = replicate 16 0,
        fe_path = map (of_nat \<circ> code) ''base/pgsql_tmp/t1'' @ 0 # replicate 110 0\<rparr>,
       \<lparr>dt_timestamp = 3, dt_subsec_nanos = 0\<rparr>)]))) = [(10, ''base/pgsql_tmp/t1'')]"
proof -
  let ?ctx = "(example_ctx 5)
    \<lparr>cx_user_str := \<lambda>_ _. map (of_nat \<circ> code) ''base/pgsql_tmp/t1'' @ 0 # replicate 110 0\<rparr>"
  have "sys_enter_openat (Some example_filter) ?ctx = Some
     \<lparr>fe_pid = 10, fe_syscall = 0, fe_pad = replicate 3 0, fe_bytes = 0,
      fe_query_hash = 0, fe_comm = replicate 16 0,
      fe_path = map (of_nat \<circ> code) ''base/pgsql_tmp/t1'' @ 0 # replicate 110 0\<rparr>"
    by (simp add: sys_enter_openat_def capture_file_syscall_def example_filter_def example_ctx_def
        comm_or_zero_def)
  from conjunct1 [OF temp_file_end_to_end [OF this, where ptr = "0x7000"
      and path = "''base/pgsql_tmp/t1''" and junk = "replicate 110 0" and st = loader_init
      and cfg = example_loader and now = "\<lparr>dt_timestamp = 3, dt_subsec_nanos = 0\<rparr>"]]
  show ?thesis
    by (simp add: example_ctx_def loader_init_def) (code_simp)
qed

lemma loader_findings_agent:
  "Eff_Emit f \<in> set (concat (tick_outs (loader_step cfg) st evs)) \<Longrightarrow> agent_finding f"
  by (auto dest!: tick_out_of_step loader_step_emits)

text \<open>
  The findings of the loader keep the agent's promises: whatever events arrive, every finding its
  loop hands to the emitter is well formed, and none of its own attributes hides one of the
  agent's.
\<close>

lemma loader_findings_wellformed:
  assumes "Eff_Emit f \<in> set (concat (tick_outs (loader_step cfg) st evs))"
  shows "wf_finding f \<and> set stable_keys \<inter> fst ` set (f_otel_attributes f) = {}"
  using loader_findings_agent [OF assms] by (simp add: agent_finding_def)

lemma loader_findings_wellformed_witness:
  "wf_finding (build_temp_file_finding \<lparr>dt_timestamp = 7, dt_subsec_nanos = 0\<rparr> ''pg'' 9
      (comm_str (replicate 16 0)) ''pgsql_tmp'' ''openat'')"
proof (rule conjunct1 [OF loader_findings_wellformed])
  have "path_from_event (fe_path tmp_event) = ''pgsql_tmp''"
    by code_simp
  moreover have "contains ''pgsql_tmp'' ''pgsql_tmp''" by code_simp
  ultimately show "Eff_Emit (build_temp_file_finding \<lparr>dt_timestamp = 7, dt_subsec_nanos = 0\<rparr> ''pg'' 9
      (comm_str (replicate 16 0)) ''pgsql_tmp'' ''openat'')
    \<in> set (concat (tick_outs (loader_step example_loader) loader_init
        [Ev_Temp [(tmp_event, \<lparr>dt_timestamp = 7, dt_subsec_nanos = 0\<rparr>)]]))"
    by (simp add: loader_step_def loader_init_def on_temp_def Let_def syscall_str_def
        example_loader_def loader_setup_def example_args_def) (simp add: tmp_event_def)
qed

text \<open>
  C23. Every finding of the agent keeps its promises: whichever subcommand polls whatever environment,
  and whatever events reach the loader, a finding handed to the emitter has the current schema
  version, a rule id, at least one knob and some evidence, its attributes form a map, and none of
  them hides one of the agent's stable keys.
\<close>

theorem agent_findings_wellformed:
  assumes "cli_main env cmd = Out_Effects outs \<and> f \<in> set (emitted (concat outs))
      \<or> Eff_Emit f \<in> set (concat (tick_outs (loader_step cfg) st evs))"
  shows "wf_finding f \<and> set stable_keys \<inter> fst ` set (f_otel_attributes f) = {}"
  using assms
proof
  assume "cli_main env cmd = Out_Effects outs \<and> f \<in> set (emitted (concat outs))"
  then show ?thesis by (elim conjE) (rule cli_findings_wellformed)
qed (rule loader_findings_wellformed)

theorem agent_findings_wellformed_witness:
  "wf_finding (cgroup_build_finding \<lparr>dt_timestamp = 2, dt_subsec_nanos = 0\<rparr> ''pg''
      example_throttle 50 1 1000)"
proof -
  let ?f = "cgroup_build_finding \<lparr>dt_timestamp = 2, dt_subsec_nanos = 0\<rparr> ''pg''
      example_throttle 50 1 1000"
  have "?f \<in> set (emitted (concat [[], report True ?f]))" by (simp add: report_def)
  with example_cgroup_run
  have "cli_main example_env (Some (Cmd_CgroupThrottle example_cgroup_args)) =
        Out_Effects [[], report True ?f] \<and> ?f \<in> set (emitted (concat [[], report True ?f]))"
    by (rule conjI)
  from conjunct1 [OF agent_findings_wellformed [OF disjI1 [OF this]]] show ?thesis .
qed

text \<open>
  C15. Every alarm reaches the brain intact: any finding a polling subcommand or the loader hands to the
  emitter, on any environment and any events, is read back unchanged from its JSON value, when
  the text of its timestamp is.
\<close>

theorem agent_findings_survive_json:
  assumes "cli_main env cmd = Out_Effects outs \<and> f \<in> set (emitted (concat outs))
      \<or> Eff_Emit f \<in> set (concat (tick_outs (loader_step cfg) st evs))"
    and "parse_dt (show_dt (f_fired_at f)) = Some (f_fired_at f)"
  shows "read_finding parse_dt (finding_json show_dt f) = Some f"
  using assms by (blast intro: agent_finding_read dest: cli_findings_agent loader_findings_agent)

theorem agent_findings_survive_json_witness:
  "\<exists>f. read_finding (\<lambda>_. Some \<lparr>dt_timestamp = 2, dt_subsec_nanos = 0\<rparr>)
      (finding_json (\<lambda>_. ''1970-01-01T00:00:02Z'') f) = Some f
    \<and> f_rule_id f = ''cpu.cgroup.throttle''"
proof -
  let ?f = "cgroup_build_finding \<lparr>dt_timestamp = 2, dt_subsec_nanos = 0\<rparr> ''pg''
      example_throttle 50 1 1000"
  have e: "?f \<in> set (emitted (concat [[], report True ?f]))" by (simp add: report_def)
  have d: "Some \<lparr>dt_timestamp = 2, dt_subsec_nanos = 0\<rparr> = Some (f_fired_at ?f)"
    and r: "f_rule_id ?f = ''cpu.cgroup.throttle''"
    by (simp_all add: cgroup_build_finding_def)
  note w = agent_findings_survive_json [where parse_dt = "\<lambda>_. Some \<lparr>dt_timestamp = 2, dt_subsec_nanos = 0\<rparr>"
      and show_dt = "\<lambda>_. ''1970-01-01T00:00:02Z''", OF disjI1 [OF conjI [OF example_cgroup_run e]] d]
  show ?thesis by (rule exI [of _ ?f], rule conjI [OF w r])
qed

section \<open>Metrics and their instruments\<close>

lemma on_temp_metrics: "Eff_Metric e \<notin> set (concat (tick_outs (on_temp cfg) seen es))"
  by (auto simp: on_temp_def Let_def dest!: tick_out_of_step split: if_splits)

lemma on_latency_metrics:
  "Eff_Metric e \<in> set (concat (tick_outs (on_latency cfg) samples es)) \<Longrightarrow>
     \<exists>ns device op. e = record_wal_io_latency ns device op"
  by (auto simp: on_latency_def dest!: tick_out_of_step split: if_splits, blast)

lemma on_tick_metrics: "Eff_Metric e \<notin> set (snd (on_tick cfg now c samples))"
  by (auto simp: on_tick_def Let_def split: breach_state.splits if_splits)

lemma loader_step_metrics:
  "Eff_Metric e \<in> set (snd (loader_step cfg st ev)) \<Longrightarrow>
     \<exists>ns device op. e = record_wal_io_latency ns device op"
  by (cases ev)
    (auto simp: loader_step_def Let_def on_trace_def on_block_def loader_shutdown_def
      on_temp_metrics on_tick_metrics simp del: set_concat split: if_splits
      dest: on_latency_metrics)

lemma loader_metrics:
  "Eff_Metric e \<in> set (concat (tick_outs (loader_step cfg) st evs)) \<Longrightarrow>
     \<exists>ns device op. e = record_wal_io_latency ns device op"
  by (auto dest!: tick_out_of_step loader_step_metrics)

lemma stmt_metrics:
  "e \<in> set (concat (map tick_events (tick_outs (collect_stmt_tick em) prev polls))) \<Longrightarrow>
     \<exists>d. e \<in> set (record_pg_stmt_delta d)"
  by (auto simp: collect_stmt_tick_def emit_deltas_def tick_events_def Let_def
      dest!: tick_out_of_step split: sum.splits if_splits)

text \<open>
  Every metric has its instrument: whatever the loader receives and the statement collector polls,
  each call of a metric names exactly one of the six instruments the emitter created, and it is of
  the kind the call needs, a histogram to record or a counter to add.
\<close>

lemma metrics_hit_instruments:
  assumes "metrics_try_new install config = Inr me"
    and "Eff_Metric e \<in> set (concat (tick_outs (loader_step cfg) st evs))
      \<or> e \<in> set (concat (map tick_events (tick_outs (collect_stmt_tick em) prev polls)))"
  shows "\<exists>!i. i \<in> set (instruments me) \<and> calls_instrument e i"
proof -
  from assms(2) consider (latency) ns device op where "e = record_wal_io_latency ns device op"
    | (stmt) d where "e \<in> set (record_pg_stmt_delta d)"
    by (blast dest: loader_metrics stmt_metrics)
  then show ?thesis
    by cases (use event_has_instrument [OF assms(1), of e] in blast)+
qed

definition example_metrics :: "unit metrics_emitter" where
  "example_metrics =
     (case metrics_try_new (\<lambda>_. Some ()) (agent_emitter_config ''http://localhost:4317'') of
        Inr me \<Rightarrow> me)"

lemma metrics_hit_instruments_witness:
  "\<exists>!i. i \<in> set (instruments example_metrics)
    \<and> calls_instrument (record_wal_io_latency 5 ''dev_t=0'' ''write_flush'') i"
proof (rule metrics_hit_instruments)
  show "metrics_try_new (\<lambda>_. Some ()) (agent_emitter_config ''http://localhost:4317'') =
      Inr example_metrics"
    by (simp add: example_metrics_def metrics_try_new_def)
  let ?cfg = "loader_setup example_args None (\<lambda>_. True) (\<lambda>_. True)"
  show "Eff_Metric (record_wal_io_latency 5 ''dev_t=0'' ''write_flush'')
      \<in> set (concat (tick_outs (loader_step ?cfg) loader_init [Ev_Latency [slow_write 5]]))
    \<or> record_wal_io_latency 5 ''dev_t=0'' ''write_flush''
      \<in> set (concat (map tick_events (tick_outs (collect_stmt_tick True) Map.empty [])))"
    by (simp add: loader_step_def loader_init_def loader_setup_def example_args_def
        on_latency_def slow_write_def op_class_str_def effective_dev_t_def dec_literal)
qed

section \<open>Start-up against the server\<close>

text \<open>
  C26. What lets the two gated subcommands start, on a server with the decimal version number \<open>num\<close>
  and the installed extensions \<open>extnames\<close>: without a connection they end with that error; below
  PostgreSQL 13, or 17 for checkpoint-storm, with the major version they found; without the
  extension, with its absence; in this order, each after the shutdown of the emitter that had been
  built. Only a server that passes lets a zero interval panic, before any poll and without a
  shutdown. In every other case the subcommand polls and has shut no emitter down.
\<close>

theorem startup_gates:
  assumes "num < 2 ^ 32" and "distinct extnames"
    and "ce_server_version env = Some (dec num)" and "ce_extension env = extension_query extnames"
  shows "cli_process env (Some (Cmd_PgStatStatements a)) =
      (let (calls, emitter) = build_emitter env (sa_otlp_endpoint a);
           shut = calls @ (if emitter then [Em_Shutdown] else []) in
       if \<not> ce_connects env then (shut, Out_Error (Connect_Failed (sa_pg_conn a)))
       else if num < 130000 then (shut, Out_Error (Below_Minimum (of_nat (num div 10000)) 13))
       else if ''pg_stat_statements'' \<notin> set extnames then (shut, Out_Error Extension_Missing)
       else if sa_interval_ms a = 0 then (calls, Out_Panic)
       else (calls, Out_Stmt (tick_outs (collect_stmt_tick emitter) Map.empty (ce_stmt_ticks env))))
    \<and> cli_process env (Some (Cmd_CheckpointStorm k)) =
      (let (calls, emitter) = build_emitter env (ka_otlp_endpoint k);
           shut = calls @ (if emitter then [Em_Shutdown] else []);
           ticks = ce_checkpoint_ticks env in
       if \<not> ce_connects env then (shut, Out_Error (Connect_Failed (ka_pg_conn k)))
       else if num < 170000 then (shut, Out_Error (Below_Minimum (of_nat (num div 10000)) 17))
       else if ka_interval_ms k = 0 then (calls, Out_Panic)
       else (calls, Out_Effects (map (\<lambda>i. checkpoint_effects (ka_interval_ms k) (ka_fire_after k)
               (ka_pg_instance k) emitter (take (Suc i) ticks)) [0..<length ticks])))"
  using extension_query_one [OF assms(2)]
  by (simp add: cli_process_def run_defs assms(3,4) collect_stmt_gate [OF assms(1)]
      checkpoint_storm_gate [OF assms(1)])

text \<open>PostgreSQL 16.4 without the extension, with a working exporter.\<close>

theorem startup_gates_witness:
  "let env = example_env\<lparr>ce_server_version := Some (dec 160004), ce_extension := Ext_Rows 0\<rparr>;
       cfg = agent_emitter_config ''http://localhost:4317'' in
   cli_process env (Some (Cmd_PgStatStatements
       (pg_stat_statements_args_default\<lparr>sa_otlp_endpoint := ''http://localhost:4317''\<rparr>))) =
     ([Em_Try_New cfg True, Em_Shutdown], Out_Error Extension_Missing)
   \<and> cli_process env (Some (Cmd_CheckpointStorm checkpoint_storm_args_default)) =
     ([], Out_Error (Below_Minimum 16 17))"
proof -
  let ?env = "example_env\<lparr>ce_server_version := Some (dec 160004), ce_extension := Ext_Rows 0\<rparr>"
  have "(160004 :: nat) < 2 ^ 32" "distinct [''plpgsql'']" by simp_all
  note gates = startup_gates [OF this, of ?env]
  show ?thesis
    unfolding Let_def
    by (simp add: gates extension_query_def count_rows_where_def)
      (simp add: build_emitter_def example_env_def Let_def checkpoint_storm_args_default_def)
qed

section \<open>The unit tests of the repository\<close>

text \<open>
  The model passes the repository's own unit tests: every assertion of the tests of
  \<open>window.rs\<close>, \<open>stat_checkpointer.rs\<close>, \<open>stat_activity.rs\<close>, \<open>mapping.rs\<close>, \<open>finding.rs\<close>,
  \<open>temp_spill.rs\<close>, \<open>cgroup_throttle.rs\<close>, \<open>checkpoint_storm.rs\<close>, \<open>collect_pg_stmt.rs\<close> and the
  loader's \<open>main.rs\<close> holds of the definitions, for any clock and any rendering of JSON,
  when the text of a timestamp is read back.
\<close>

lemma unit_tests_pass:
  assumes "\<And>d. parse_dt (show_dt d) = Some d"
  shows "ut_fires_after_n_consecutive_breaches \<and> ut_reset_on_non_breach
   \<and> ut_rearming_after_recovery_can_refire \<and> ut_fire_after_one_fires_immediately
   \<and> ut_no_checkpoints_returns_none \<and> ut_forced_beats_phase_dominance
   \<and> ut_write_phase_dominates_at_1_5x_margin \<and> ut_sync_phase_dominates_at_1_5x_margin
   \<and> ut_fpw_flood_when_phases_balanced_and_fpi_high
   \<and> ut_balanced_phases_with_low_fpi_yields_no_classification \<and> ut_cumulative_resets_do_not_panic
   \<and> ut_idle_in_xact_sums_both_variants \<and> ut_active_waiting_on_lock_filters_by_category
   \<and> ut_idle_in_xact_zero_when_no_match
   \<and> ut_finding_round_trips_through_json parse_dt show_dt
   \<and> ut_omits_empty_optional_collections_on_the_wire show_dt \<and> ut_schema_version_is_one
   \<and> ut_maps_body_and_severity sj sr \<and> ut_maps_rule_identity_attributes sj sr
   \<and> ut_db_name_uses_otel_semconv_key sj sr \<and> ut_missing_db_name_is_dropped sj sr
   \<and> ut_null_evidence_is_dropped sj sr \<and> ut_version_tripwires_are_emitted sj sr
   \<and> ut_custom_otel_attributes_passed_through sj sr \<and> ut_all_severity_levels_map sj sr
   \<and> ut_footprint_breach_takes_priority_when_both_trip
   \<and> ut_free_space_breach_fires_when_footprint_is_fine \<and> ut_no_breach_below_both_thresholds
   \<and> ut_free_threshold_zero_disables_free_check \<and> ut_free_pct_handles_zero_total_without_panic
   \<and> ut_free_pct_correct_for_typical_values
   \<and> ut_temp_build_finding_carries_evidence_and_remediation now
   \<and> ut_build_finding_free_space_variant_uses_free_trigger now
   \<and> ut_parses_canonical_cpu_stat \<and> ut_parses_with_extra_fields_safely
   \<and> ut_breach_value_normalises_to_ms_per_sec \<and> ut_breach_value_handles_no_prev
   \<and> ut_breach_value_handles_zero_interval \<and> ut_cgroup_build_finding_carries_evidence now
   \<and> ut_streak_fires_after_n_same_buckets \<and> ut_bucket_change_resets_streak
   \<and> ut_no_classification_does_not_change_state
   \<and> ut_delta_saturates_on_reset \<and> ut_first_tick_emits_full_cumulative_as_delta
   \<and> ut_emit_deltas_records_when_emitter_absent
   \<and> ut_explicit_pid_wins_over_discovery \<and> ut_cgroup_id_suppresses_auto_pid
   \<and> ut_discovery_pid_used_when_no_flags \<and> ut_no_filter_without_discovery_or_flags
   \<and> ut_negative_postmaster_pid_is_rejected
   \<and> ut_parses_kernel_dev_t_basic \<and> ut_parses_kernel_dev_t_trims_whitespace
   \<and> ut_rejects_bad_dev_t_strings \<and> ut_rejects_dev_t_field_overflow
   \<and> ut_op_class_str_covers_all_known_variants \<and> ut_p50_of_empty_is_none
   \<and> ut_p50_of_odd_count_is_middle \<and> ut_p50_of_even_count_returns_upper_middle
   \<and> ut_build_finding_carries_evidence_and_attrs now"
  using window_tests checkpointer_tests activity_tests finding_tests ut_identity_tests
    ut_dropped_tests temp_spill_tests temp_spill_finding_tests cpu_stat_tests cgroup_tests
    checkpoint_tests statement_tests filter_tests dev_t_tests median_tests loader_finding_tests
    round_trip_test [OF assms]
  by (intro conjI) simp_all

end
